(* ===== verification/JS_Prelude.thy ===== *)
theory JS_Prelude
  imports Complex_Main "HOL-Library.Word" "HOL-Library.Log_Nat"
begin

text \<open>
  The prelude of the development: the parts of JavaScript every component uses.

  \<^item> Errors as values: \<open>js_error\<close> is what a \<open>throw\<close> carries and \<open>'a res\<close> is the outcome of a
    synchronous computation.
  \<^item> Effects: \<open>('s, 'a) io\<close> is an \<open>async\<close> computation over an explicit state. A \<open>throw\<close> after an
    \<open>await\<close> keeps the effects that happened before it, so the state is returned beside the outcome.
  \<^item> Numbers: a JavaScript \<open>number\<close> is a finite IEEE double, modelled as a rational that went
    through \<open>fl\<close>, round to nearest with ties to even at 53 significant bits. The exponent range
    is not bounded: lamport amounts are far from the overflow and the subnormal range.
\<close>

section \<open>Collections of rewrite rules\<close>

named_theorems res_simps \<open>sequencing of synchronous computations\<close>
named_theorems io_simps \<open>sequencing of asynchronous computations\<close>
named_theorems num_simps \<open>arithmetic on safe integers\<close>

section \<open>Errors and synchronous computations\<close>

datatype js_error =
    RangeError
  | TypeError
  | AssertionError string
  | Error string
  | ErrorNum string rat
  | RpcError string

type_synonym 'a res = "js_error + 'a"

definition bindE :: "'a res \<Rightarrow> ('a \<Rightarrow> 'b res) \<Rightarrow> 'b res" where
  "bindE r f = (case r of Inl e \<Rightarrow> Inl e | Inr x \<Rightarrow> f x)"

primrec mapE :: "('a \<Rightarrow> 'b res) \<Rightarrow> 'a list \<Rightarrow> 'b list res" where
  "mapE f [] = Inr []"
| "mapE f (x # xs) = bindE (f x) (\<lambda>y. bindE (mapE f xs) (\<lambda>ys. Inr (y # ys)))"

section \<open>Asynchronous computations\<close>

type_synonym ('s, 'a) io = "'s \<Rightarrow> 'a res \<times> 's"

definition returnIO :: "'a \<Rightarrow> ('s, 'a) io" where
  "returnIO x = (\<lambda>s. (Inr x, s))"

definition throwIO :: "js_error \<Rightarrow> ('s, 'a) io" where
  "throwIO e = (\<lambda>s. (Inl e, s))"

definition bindIO :: "('s, 'a) io \<Rightarrow> ('a \<Rightarrow> ('s, 'b) io) \<Rightarrow> ('s, 'b) io" where
  "bindIO m f = (\<lambda>s. case m s of (Inl e, s') \<Rightarrow> (Inl e, s') | (Inr x, s') \<Rightarrow> f x s')"

definition liftE :: "'a res \<Rightarrow> ('s, 'a) io" where
  "liftE r = (\<lambda>s. (r, s))"

definition catchIO :: "('s, 'a) io \<Rightarrow> (js_error \<Rightarrow> ('s, 'a) io) \<Rightarrow> ('s, 'a) io" where
  "catchIO m h = (\<lambda>s. case m s of (Inl e, s') \<Rightarrow> h e s' | (Inr x, s') \<Rightarrow> (Inr x, s'))"

primrec forIO :: "('a \<Rightarrow> ('s, unit) io) \<Rightarrow> 'a list \<Rightarrow> ('s, unit) io" where
  "forIO f [] = returnIO ()"
| "forIO f (x # xs) = bindIO (f x) (\<lambda>_. forIO f xs)"

section \<open>Numbers\<close>

type_synonym number = rat

definition pow2 :: "int \<Rightarrow> rat" where
  "pow2 e = (if 0 \<le> e then 2 ^ nat e else 1 / 2 ^ nat (- e))"

text \<open>The binary exponent of a nonzero number: \<open>pow2 (fexp x) \<le> \<bar>x\<bar> < 2 * pow2 (fexp x)\<close>.\<close>

definition fexp :: "rat \<Rightarrow> int" where
  "fexp x = (let (n, d) = quotient_of \<bar>x\<bar>; e = bitlen n - bitlen d
             in if \<bar>x\<bar> < pow2 e then e - 1 else e)"

definition rne :: "rat \<Rightarrow> int" where
  "rne y = (let f = \<lfloor>y\<rfloor>; r = y - of_int f
            in if r < 1 / 2 then f else if 1 / 2 < r then f + 1 else if even f then f else f + 1)"

definition fl :: "rat \<Rightarrow> number" where
  "fl x = (if x = 0 then 0 else let u = pow2 (fexp x - 52) in of_int (rne (x / u)) * u)"

definition js_add :: "number \<Rightarrow> number \<Rightarrow> number" where
  "js_add a b = fl (a + b)"

definition js_sub :: "number \<Rightarrow> number \<Rightarrow> number" where
  "js_sub a b = fl (a - b)"

definition js_mul :: "number \<Rightarrow> number \<Rightarrow> number" where
  "js_mul a b = fl (a * b)"

text \<open>Division by a nonzero number; the callers divide by a checked length or by a constant.\<close>

definition js_div :: "number \<Rightarrow> number \<Rightarrow> number" where
  "js_div a b = fl (a / b)"

definition math_ceil :: "number \<Rightarrow> number" where
  "math_ceil x = of_int \<lceil>x\<rceil>"

text \<open>\<open>Math.round\<close> rounds a half up.\<close>

definition math_round :: "number \<Rightarrow> number" where
  "math_round x = of_int \<lfloor>x + 1 / 2\<rfloor>"

text \<open>\<open>Number(b)\<close> for a bigint \<open>b\<close>.\<close>

definition Number :: "int \<Rightarrow> number" where
  "Number n = fl (of_int n)"

text \<open>\<open>BigInt(x)\<close> throws a RangeError on a number that is not an integer.\<close>

definition BigInt :: "number \<Rightarrow> int res" where
  "BigInt x = (if x = of_int \<lfloor>x\<rfloor> then Inr \<lfloor>x\<rfloor> else Inl RangeError)"

definition MAX_SAFE :: int where
  "MAX_SAFE = 9007199254740992"

section \<open>Laws of sequencing\<close>

lemma bindE_simps [simp]: "bindE (Inl e) f = Inl e" "bindE (Inr x) f = f x"
  by (simp_all add: bindE_def)

lemma bindE_Inr_iff [res_simps]: "bindE r f = Inr y \<longleftrightarrow> (\<exists>x. r = Inr x \<and> f x = Inr y)"
  by (auto simp: bindE_def split: sum.splits)

lemma bindE_assoc: "bindE (bindE r f) g = bindE r (\<lambda>x. bindE (f x) g)"
  by (simp add: bindE_def split: sum.splits)

lemma mapE_map: "(\<And>x. x \<in> set xs \<Longrightarrow> f x = Inr (g x)) \<Longrightarrow> mapE f xs = Inr (map g xs)"
  by (induction xs) auto

lemma mapE_comp: "mapE f (map g xs) = mapE (\<lambda>x. f (g x)) xs"
  by (induction xs) simp_all

lemma mapE_length: "mapE f xs = Inr ys \<Longrightarrow> length ys = length xs"
  by (induction xs arbitrary: ys) (auto simp: res_simps)

lemma returnIO_Pair [simp]: "returnIO x = Pair (Inr x)"
  by (simp add: returnIO_def fun_eq_iff)

lemma throwIO_Pair [simp]: "throwIO e = Pair (Inl e)"
  by (simp add: throwIO_def fun_eq_iff)

lemma liftE_Pair [simp]: "liftE r = Pair r"
  by (simp add: liftE_def fun_eq_iff)

lemma bindIO_Pair [simp]: "bindIO (Pair (Inr x)) f = f x" "bindIO (Pair (Inl e)) f = Pair (Inl e)"
  by (simp_all add: bindIO_def fun_eq_iff)

lemma bindIO_eval: "m s = (Inr x, s') \<Longrightarrow> bindIO m f s = f x s'"
  by (simp add: bindIO_def)

lemma bindIO_eval_error: "m s = (Inl e, s') \<Longrightarrow> bindIO m f s = (Inl e, s')"
  by (simp add: bindIO_def)

lemma bindIO_Inr_iff [io_simps]:
  "bindIO m f s = (Inr y, t) \<longleftrightarrow> (\<exists>x s'. m s = (Inr x, s') \<and> f x s' = (Inr y, t))"
  by (auto simp: bindIO_def split: prod.splits sum.splits)

lemma bindIO_assoc: "bindIO (bindIO m f) g = bindIO m (\<lambda>x. bindIO (f x) g)"
  by (auto simp: bindIO_def fun_eq_iff split: prod.splits sum.splits)

lemma catchIO_Inr: "m s = (Inr x, s') \<Longrightarrow> catchIO m h s = (Inr x, s')"
  by (simp add: catchIO_def)

lemma catchIO_Inl: "m s = (Inl e, s') \<Longrightarrow> catchIO m h s = h e s'"
  by (simp add: catchIO_def)

lemma catchIO_total:
  assumes "\<And>e t. \<exists>x u. h e t = (Inr x, u)"
  shows "\<exists>x u. catchIO m h s = (Inr x, u)"
proof (cases "m s")
  case (Pair r t)
  then show ?thesis
    using assms by (cases r) (simp_all add: catchIO_def)
qed

lemma forIO_append: "forIO f (xs @ ys) = bindIO (forIO f xs) (\<lambda>_. forIO f ys)"
  by (induction xs) (simp_all add: bindIO_assoc)

section \<open>Rounding\<close>

lemma pow2_pos [simp]: "0 < pow2 e"
  by (simp add: pow2_def)

lemma pow2_add: "pow2 (a + b) = pow2 a * pow2 b"
proof -
  have p: "pow2 c = 2 powi c" for c
    by (auto simp: pow2_def power_int_def inverse_eq_divide power_one_over)
  show ?thesis
    by (simp add: p power_int_add)
qed

lemma pow2_nat: "pow2 (int n) = 2 ^ n"
  by (simp add: pow2_def)

lemma pow2_mono: "a \<le> b \<Longrightarrow> pow2 a \<le> pow2 b"
proof -
  assume "a \<le> b"
  then obtain n where b: "b = a + int n"
    using zle_iff_zadd by blast
  have "pow2 a * 1 \<le> pow2 a * 2 ^ n"
    by (intro mult_left_mono) (simp_all add: less_imp_le)
  then show ?thesis
    by (simp add: b pow2_add pow2_nat)
qed

lemma bitlen_pow2_bounds:
  assumes "0 < n"
  shows "pow2 (bitlen n - 1) \<le> of_int n" "of_int n < pow2 (bitlen n)"
proof -
  have le: "1 \<le> bitlen n"
    using assms by (simp add: bitlen_def floorlog_def)
  have b: "2 ^ nat (bitlen n - 1) \<le> n \<and> n < 2 ^ nat (bitlen n)"
    using assms by (rule bitlen_bounds)
  then have "(of_int (2 ^ nat (bitlen n - 1)) :: rat) \<le> of_int n"
    "(of_int n :: rat) < of_int (2 ^ nat (bitlen n))"
    by (simp_all only: of_int_le_iff of_int_less_iff)
  with le show "pow2 (bitlen n - 1) \<le> of_int n" "of_int n < pow2 (bitlen n)"
    by (simp_all add: pow2_def)
qed

lemma fexp_bounds:
  assumes "x \<noteq> 0"
  shows "pow2 (fexp x) \<le> \<bar>x\<bar>" "\<bar>x\<bar> < pow2 (fexp x + 1)"
proof -
  obtain n d where nd: "quotient_of \<bar>x\<bar> = (n, d)"
    by (cases "quotient_of \<bar>x\<bar>")
  have x: "\<bar>x\<bar> = of_int n / of_int d" and d: "0 < d"
    using quotient_of_div [OF nd] quotient_of_denom_pos [OF nd] by auto
  have n: "0 < n"
    using assms x d by (metis abs_le_zero_iff divide_le_0_iff not_le of_int_0_le_iff of_int_le_0_iff order.strict_iff_order)
  define e where "e = bitlen n - bitlen d"
  note bn = bitlen_pow2_bounds [OF n] and bd = bitlen_pow2_bounds [OF d]
  have dpos: "(0::rat) < of_int d"
    using d by simp
  have "pow2 (e - 1) * of_int d \<le> pow2 (e - 1) * pow2 (bitlen d)"
    using bd(2) by (intro mult_left_mono) (simp_all add: less_imp_le)
  also have "\<dots> = pow2 (bitlen n - 1)"
    by (simp add: e_def pow2_add [symmetric])
  also note bn(1)
  finally have lo: "pow2 (e - 1) \<le> \<bar>x\<bar>"
    using dpos by (simp add: x field_simps)
  have "of_int n < pow2 (e + 1) * pow2 (bitlen d - 1)"
    using bn(2) by (simp add: e_def pow2_add [symmetric])
  also have "\<dots> \<le> pow2 (e + 1) * of_int d"
    using bd(1) by (intro mult_left_mono) (simp_all add: less_imp_le)
  finally have hi: "\<bar>x\<bar> < pow2 (e + 1)"
    using dpos by (simp add: x field_simps)
  have "fexp x = (if \<bar>x\<bar> < pow2 e then e - 1 else e)"
    by (simp add: fexp_def nd e_def)
  with lo hi show "pow2 (fexp x) \<le> \<bar>x\<bar>" "\<bar>x\<bar> < pow2 (fexp x + 1)"
    by (auto split: if_splits)
qed

lemma rne_of_int [simp]: "rne (of_int k) = k"
  by (simp add: rne_def)

lemma rne_near: "\<bar>of_int (rne y) - y\<bar> \<le> 1 / 2"
  unfolding rne_def Let_def using floor_correct [of y]
  by (auto simp: abs_le_iff)

lemma rne_between:
  assumes "of_int a \<le> y" "y \<le> of_int b"
  shows "a \<le> rne y" "rne y \<le> b"
proof -
  have ab: "a \<le> \<lfloor>y\<rfloor>" "\<lfloor>y\<rfloor> \<le> b"
    using assms by (simp_all add: le_floor_iff floor_le_iff)
  show "a \<le> rne y"
    using ab by (auto simp: rne_def Let_def)
  show "rne y \<le> b"
  proof (cases "\<lfloor>y\<rfloor> = b")
    case True
    then have "y = of_int b"
      using assms(2) floor_correct [of y] by auto
    then show ?thesis by simp
  next
    case False
    with ab show ?thesis by (auto simp: rne_def Let_def)
  qed
qed

lemma fl_zero [simp]: "fl 0 = 0"
  by (simp add: fl_def)

lemma fl_exact:
  assumes "x = of_int k * pow2 (fexp x - 52)"
  shows "fl x = x"
proof (cases "x = 0")
  case False
  have "x / pow2 (fexp x - 52) = of_int k"
    using assms by (metis nonzero_mult_div_cancel_right pow2_pos less_irrefl)
  then show ?thesis
    using False assms by (simp add: fl_def Let_def)
qed simp

text \<open>Every integer up to \<open>2 ^ 53\<close> in absolute value is a double.\<close>

lemma fexp_le:
  assumes "x \<noteq> 0" "\<bar>x\<bar> \<le> 2 ^ 53"
  shows "fexp x \<le> 53"
proof (rule ccontr)
  assume "\<not> fexp x \<le> 53"
  then have "pow2 54 \<le> pow2 (fexp x)"
    by (intro pow2_mono) simp
  moreover have "pow2 54 = 2 * 2 ^ 53"
    by (simp add: pow2_def)
  ultimately show False
    using fexp_bounds(1) [OF assms(1)] assms(2) by simp
qed

lemma fl_of_int:
  assumes "\<bar>n\<bar> \<le> MAX_SAFE"
  shows "fl (of_int n) = of_int n"
proof (cases "n = 0")
  case False
  define e where "e = fexp (of_int n)"
  have x: "(of_int n :: rat) \<noteq> 0"
    using False by simp
  note eb = fexp_bounds [OF x, folded e_def]
  have absn: "\<bar>of_int n :: rat\<bar> \<le> 2 ^ 53"
    using assms by (simp add: MAX_SAFE_def flip: of_int_abs)
  have "e \<le> 53"
    unfolding e_def by (rule fexp_le [OF x absn])
  then consider "e \<le> 52" | "e = 53"
    by linarith
  then show ?thesis
  proof cases
    case 1
    then obtain j where j: "52 - e = int j"
      using zero_le_imp_eq_int [of "52 - e"] by auto
    have "pow2 (e - 52) * 2 ^ j = 1"
      using j pow2_add [of "e - 52" "52 - e"] pow2_nat [of j] by (simp add: pow2_def)
    then have "(of_int n :: rat) = of_int (n * 2 ^ j) * pow2 (fexp (of_int n) - 52)"
      by (simp add: e_def mult.assoc mult.commute [of "2 ^ j"])
    then show ?thesis by (rule fl_exact)
  next
    case 2
    then have "\<bar>of_int n :: rat\<bar> = 2 ^ 53"
      using eb(1) absn pow2_nat [of 53] by simp
    then have "(of_int \<bar>n\<bar> :: rat) = of_int (2 ^ 53)"
      by simp
    then have "\<bar>n\<bar> = 2 ^ 53"
      by (simp only: of_int_eq_iff)
    then have n: "n = 2 ^ 53 \<or> n = - (2 ^ 53)"
      by linarith
    have "pow2 (fexp (of_int n) - 52) = 2"
      using 2 by (simp add: e_def pow2_def)
    with n have "(of_int n :: rat) = of_int (n div 2) * pow2 (fexp (of_int n) - 52)"
      by auto
    then show ?thesis by (rule fl_exact)
  qed
qed simp

lemma fl_between:
  assumes "0 < x" "x \<le> 2 ^ 53" "of_int a \<le> x" "x \<le> of_int b"
  shows "of_int a \<le> fl x" "fl x \<le> of_int b" "x - pow2 (fexp x - 52) / 2 \<le> fl x"
proof -
  define u where "u = pow2 (fexp x - 52)"
  have u: "0 < u" and fl: "fl x = of_int (rne (x / u)) * u"
    using assms(1) by (simp_all add: u_def fl_def Let_def)
  have "- (1 / 2) \<le> of_int (rne (x / u)) - x / u"
    using rne_near [of "x / u"] by (simp only: abs_le_iff) linarith
  then have "(x / u - 1 / 2) * u \<le> of_int (rne (x / u)) * u"
    using u by (intro mult_right_mono) linarith+
  then show "x - pow2 (fexp x - 52) / 2 \<le> fl x"
    using u by (simp add: fl u_def [symmetric] left_diff_distrib)
  show "of_int a \<le> fl x" "fl x \<le> of_int b"
  proof -
    consider (frac) "fexp x \<le> 52" | (top) "53 \<le> fexp x"
      by linarith
    then have "of_int a \<le> fl x \<and> fl x \<le> of_int b"
    proof cases
      case frac
      then obtain j where j: "52 - fexp x = int j"
        using zero_le_imp_eq_int [of "52 - fexp x"] by auto
      have uj: "u * 2 ^ j = 1"
        using j pow2_add [of "fexp x - 52" "52 - fexp x"] pow2_nat [of j] by (simp add: u_def pow2_def)
      then have u': "u = 1 / 2 ^ j"
        by (simp add: field_simps)
      have "a * 2 ^ j \<le> rne (x / u) \<and> rne (x / u) \<le> b * 2 ^ j"
        using assms(3,4) by (intro conjI rne_between [of "a * 2 ^ j" _ "b * 2 ^ j"]) (simp_all add: u')
      then have "of_int (a * 2 ^ j) * u \<le> of_int (rne (x / u)) * u"
        "of_int (rne (x / u)) * u \<le> of_int (b * 2 ^ j) * u"
        using u by (auto intro!: mult_right_mono simp del: of_int_mult)
      then show ?thesis
        using uj by (simp add: fl mult.assoc mult.commute [of "2 ^ j"])
    next
      case top
      then have "pow2 53 \<le> x"
        using pow2_mono [OF top] fexp_bounds(1) [of x] assms(1) by linarith
      then have "x = of_int (2 ^ 53)"
        using assms(2) by (simp add: pow2_def)
      then have "fl x = x"
        using fl_of_int [of "2 ^ 53"] by (simp add: MAX_SAFE_def)
      with assms(3,4) show ?thesis by simp
    qed
    then show "of_int a \<le> fl x" "fl x \<le> of_int b" by simp_all
  qed
qed

text \<open>
  \<open>Math.ceil(a / b)\<close> is exact on safe integers: the quotient of two integers is never rounded
  down to an integer below it.
\<close>

text \<open>A quotient that is no integer stays clear of the integer below it, by more than rounding can move it.\<close>

lemma quotient_gap:
  fixes a b :: int
  assumes "0 < b" "\<not> b dvd a"
  shows "of_int (a div b) + 1 / of_int b \<le> (of_int a / of_int b :: rat)" "(of_int a / of_int b :: rat) \<le> of_int (a div b + 1)"
proof -
  have bq: "(0::rat) < of_int b"
    using assms(1) by simp
  have "0 \<le> a mod b" "a mod b \<noteq> 0"
    using assms by (simp_all add: dvd_eq_mod_eq_0)
  then have r: "1 \<le> a mod b"
    by linarith
  have aq: "a = b * (a div b) + a mod b" and r': "a mod b < b"
    using assms(1) by simp_all
  have x_eq: "(of_int a / of_int b :: rat) = of_int (a div b) + of_int (a mod b) / of_int b"
    using bq by (simp add: field_simps flip: of_int_mult of_int_add aq)
  show "of_int (a div b) + 1 / of_int b \<le> (of_int a / of_int b :: rat)"
    using r bq by (simp add: x_eq divide_right_mono)
  show "(of_int a / of_int b :: rat) \<le> of_int (a div b + 1)"
    using less_imp_le [OF r'] bq by (simp add: x_eq)
qed

lemma half_ulp_small:
  assumes "0 < x" "0 < b" "x * of_int b < 2 ^ 53"
  shows "pow2 (fexp x - 52) / 2 < 1 / of_int b"
proof -
  have bq: "(0::rat) < of_int b"
    using assms(2) by simp
  have "pow2 (fexp x - 52) * 2 ^ 52 = pow2 (fexp x)"
    using pow2_add [of "fexp x - 52" 52] by (simp add: pow2_def [of 52])
  then have "pow2 (fexp x - 52) * 2 ^ 52 \<le> x"
    using fexp_bounds(1) [of x] assms(1) by simp
  then have "pow2 (fexp x - 52) * 2 ^ 52 * of_int b \<le> x * of_int b"
    using bq by (intro mult_right_mono) simp_all
  then have "pow2 (fexp x - 52) / 2 * of_int b < 1"
    using assms(3) by simp
  then show ?thesis
    using bq by (simp add: field_simps)
qed

lemma ceil_div_exact:
  assumes a: "0 \<le> a" "a < MAX_SAFE" and b: "0 < b"
  shows "math_ceil (js_div (of_int a) (of_int b)) = of_int \<lceil>(of_int a :: rat) / of_int b\<rceil>"
proof (cases "b dvd a")
  case True
  then obtain k where k: "a = b * k" ..
  then have "0 \<le> k"
    using a(1) b by (simp add: zero_le_mult_iff)
  moreover from this have "k \<le> a"
    using k b mult_right_mono [of 1 b k] by simp
  ultimately have "fl (of_int k) = of_int k"
    using a(2) by (intro fl_of_int) simp
  then show ?thesis
    using b by (simp add: k js_div_def math_ceil_def)
next
  case False
  define x where "x = (of_int a :: rat) / of_int b"
  note gap = quotient_gap [OF b False, folded x_def]
  have bq: "(0::rat) < of_int b"
    using b by simp
  have xpos: "0 < x"
    using False a(1) b by (auto simp: x_def order.strict_iff_order)
  have xb: "x * of_int b < 2 ^ 53"
    using a(2) bq by (simp add: x_def MAX_SAFE_def)
  have "x * 1 \<le> x * of_int b"
    using b xpos by (intro mult_left_mono) simp_all
  then have x53: "x \<le> 2 ^ 53"
    using xb by simp
  have "(0::rat) < 1 / of_int b"
    using bq by simp
  then have qx: "of_int (a div b) < x"
    using gap(1) by linarith
  note between = fl_between [OF xpos x53 less_imp_le [OF qx] gap(2)]
  have "of_int (a div b) < fl x"
    using between(3) gap(1) half_ulp_small [OF xpos b xb] by linarith
  then have "\<lceil>fl x\<rceil> = a div b + 1"
    using between(2) by (simp add: ceiling_eq_iff)
  moreover have "\<lceil>x\<rceil> = a div b + 1"
    using gap(2) qx by (simp add: ceiling_eq_iff)
  ultimately show ?thesis
    by (simp add: js_div_def math_ceil_def flip: x_def)
qed

lemma js_add_int [num_simps]: "\<bar>a + b\<bar> \<le> MAX_SAFE \<Longrightarrow> js_add (of_int a) (of_int b) = of_int (a + b)"
  using fl_of_int [of "a + b"] by (simp add: js_add_def)

lemma js_sub_int [num_simps]: "\<bar>a - b\<bar> \<le> MAX_SAFE \<Longrightarrow> js_sub (of_int a) (of_int b) = of_int (a - b)"
  using fl_of_int [of "a - b"] by (simp add: js_sub_def)

lemma js_mul_int [num_simps]: "\<bar>a * b\<bar> \<le> MAX_SAFE \<Longrightarrow> js_mul (of_int a) (of_int b) = of_int (a * b)"
  using fl_of_int [of "a * b"] by (simp add: js_mul_def)

lemma Number_int [num_simps]: "\<bar>a\<bar> \<le> MAX_SAFE \<Longrightarrow> Number a = of_int a"
  by (simp add: Number_def fl_of_int)

lemma BigInt_of_int [simp]: "BigInt (of_int a) = Inr a"
  by (simp add: BigInt_def)

lemma BigInt_numeral [simp]: "BigInt (numeral k) = Inr (numeral k)" "BigInt 0 = Inr 0" "BigInt 1 = Inr 1"
  using BigInt_of_int [of "numeral k"] BigInt_of_int [of 0] BigInt_of_int [of 1] by simp_all

lemma BigInt_Inr_iff: "BigInt x = Inr a \<longleftrightarrow> x = of_int a"
  by (auto simp: BigInt_def)

end
