(* ===== verification/JS_Buffer.thy ===== *)
theory JS_Buffer
  imports JS_Prelude
begin

text \<open>
  Node's \<open>Buffer\<close>, the part of the runtime that \<open>experiment/tenderize.ts\<close> and the web application
  read and write account data with. A buffer is a list of bytes. A write returns the changed
  buffer together with the offset after the written field, as the methods of \<open>Buffer\<close> do; a value
  out of the range of the field and a field that does not fit both raise a RangeError.

  The locale \<open>buffer_field\<close> is the contract of a pair of accessors of one width. Its lemmas (what a
  write does to a zeroed tail, that a read gets back what was written, that nothing else changes)
  are proved once and interpreted for each accessor the program uses.
\<close>

section \<open>Bytes and little-endian values\<close>

type_synonym byte = "8 word"
type_synonym buffer = "byte list"

primrec le_bytes :: "nat \<Rightarrow> nat \<Rightarrow> byte list" where
  "le_bytes 0 v = []"
| "le_bytes (Suc n) v = of_nat (v mod 256) # le_bytes n (v div 256)"

primrec le_val :: "byte list \<Rightarrow> nat" where
  "le_val [] = 0"
| "le_val (b # bs) = unat b + 256 * le_val bs"

section \<open>Buffers\<close>

definition alloc :: "nat \<Rightarrow> buffer" where
  "alloc n = replicate n 0"

definition overwrite :: "buffer \<Rightarrow> nat \<Rightarrow> byte list \<Rightarrow> buffer" where
  "overwrite buf p bs = take p buf @ bs @ drop (p + length bs) buf"

definition slice :: "buffer \<Rightarrow> nat \<Rightarrow> nat \<Rightarrow> buffer" where
  "slice buf a b = take (b - a) (drop a buf)"

definition write_le :: "nat \<Rightarrow> buffer \<Rightarrow> nat \<Rightarrow> nat \<Rightarrow> (buffer \<times> nat) res" where
  "write_le w buf v p =
     (if p + w \<le> length buf then Inr (overwrite buf p (le_bytes w v), p + w) else Inl RangeError)"

definition read_le :: "nat \<Rightarrow> buffer \<Rightarrow> nat \<Rightarrow> nat res" where
  "read_le w buf p =
     (if p + w \<le> length buf then Inr (le_val (slice buf p (p + w))) else Inl RangeError)"

definition writeUInt8 :: "buffer \<Rightarrow> int \<Rightarrow> nat \<Rightarrow> (buffer \<times> nat) res" where
  "writeUInt8 buf v p = (if 0 \<le> v \<and> v < 2 ^ 8 then write_le 1 buf (nat v) p else Inl RangeError)"

definition writeUInt32LE :: "buffer \<Rightarrow> int \<Rightarrow> nat \<Rightarrow> (buffer \<times> nat) res" where
  "writeUInt32LE buf v p = (if 0 \<le> v \<and> v < 2 ^ 32 then write_le 4 buf (nat v) p else Inl RangeError)"

definition writeBigUInt64LE :: "buffer \<Rightarrow> int \<Rightarrow> nat \<Rightarrow> (buffer \<times> nat) res" where
  "writeBigUInt64LE buf v p = (if 0 \<le> v \<and> v < 2 ^ 64 then write_le 8 buf (nat v) p else Inl RangeError)"

text \<open>The signed variant stores the two's complement of its argument.\<close>

definition writeBigInt64LE :: "buffer \<Rightarrow> int \<Rightarrow> nat \<Rightarrow> (buffer \<times> nat) res" where
  "writeBigInt64LE buf v p =
     (if - (2 ^ 63) \<le> v \<and> v < 2 ^ 63 then write_le 8 buf (nat (v mod 2 ^ 64)) p else Inl RangeError)"

definition readUInt8 :: "buffer \<Rightarrow> nat \<Rightarrow> nat res" where
  "readUInt8 = read_le 1"

definition readUInt16LE :: "buffer \<Rightarrow> nat \<Rightarrow> nat res" where
  "readUInt16LE = read_le 2"

definition readUInt32LE :: "buffer \<Rightarrow> nat \<Rightarrow> nat res" where
  "readUInt32LE = read_le 4"

definition readBigUInt64LE :: "buffer \<Rightarrow> nat \<Rightarrow> nat res" where
  "readBigUInt64LE = read_le 8"

text \<open>\<open>src.copy(target, p)\<close> copies what fits and returns the number of bytes copied.\<close>

definition copy_to :: "buffer \<Rightarrow> buffer \<Rightarrow> nat \<Rightarrow> buffer \<times> nat" where
  "copy_to src target p =
     (let bs = take (length target - p) src in (overwrite target p bs, length bs))"

section \<open>Lemmas on little-endian values\<close>

lemma length_le_bytes [simp]: "length (le_bytes n v) = n"
  by (induction n arbitrary: v) simp_all

lemma le_val_le_bytes: "le_val (le_bytes n v) = v mod 256 ^ n"
proof (induction n arbitrary: v)
  case (Suc n)
  have "le_val (le_bytes (Suc n) v) = v mod 256 + 256 * (v div 256 mod 256 ^ n)"
    by (simp add: Suc unat_of_nat)
  also have "\<dots> = v mod 256 ^ Suc n"
    using mod_mult2_eq [of v 256 "256 ^ n"] by simp
  finally show ?case .
qed simp

lemma le_val_zeros [simp]: "le_val (replicate n 0) = 0"
  by (induction n) simp_all

lemma le_val_append: "le_val (xs @ ys) = le_val xs + 256 ^ length xs * le_val ys"
  by (induction xs) (simp_all add: algebra_simps)

lemma le_val_bound: "le_val bs < 256 ^ length bs"
proof (induction bs)
  case (Cons b bs)
  have "unat b < 256"
    using unsigned_less [of b, where 'a = nat] by simp
  with Cons have "unat b + 256 * le_val bs < 256 * 256 ^ length bs"
    by simp
  then show ?case by simp
qed simp

lemma le_bytes_le_val: "le_bytes (length bs) (le_val bs) = bs"
proof (induction bs)
  case (Cons b bs)
  have "unat b < 256"
    using unsigned_less [of b, where 'a = nat] by simp
  with Cons show ?case by simp
qed simp

lemma le_bytes_inject: "v < 256 ^ n \<Longrightarrow> v' < 256 ^ n \<Longrightarrow> le_bytes n v = le_bytes n v' \<longleftrightarrow> v = v'"
  by (metis le_val_le_bytes mod_less)

section \<open>Lemmas on buffers\<close>

lemma length_alloc [simp]: "length (alloc n) = n"
  by (simp add: alloc_def)

lemma length_overwrite [simp]:
  "p + length bs \<le> length buf \<Longrightarrow> length (overwrite buf p bs) = length buf"
  by (simp add: overwrite_def)

lemma overwrite_tail:
  "length bs \<le> n \<Longrightarrow> overwrite (w @ alloc n) (length w) bs = (w @ bs) @ alloc (n - length bs)"
  by (simp add: overwrite_def alloc_def)

lemma slice_overwrite:
  assumes "p + length bs \<le> length buf"
  shows "slice (overwrite buf p bs) p (p + length bs) = bs"
  using assms by (simp add: slice_def overwrite_def)

lemma slice_overwrite_other:
  assumes "p + length bs \<le> length buf" "b \<le> p \<or> p + length bs \<le> a"
  shows "slice (overwrite buf p bs) a b = slice buf a b"
  using assms(2)
proof
  assume "b \<le> p"
  then show ?thesis
    using assms(1) by (cases "a \<le> p") (simp_all add: slice_def overwrite_def min_def drop_take)
next
  assume a: "p + length bs \<le> a"
  then have "drop a (overwrite buf p bs) = drop a buf"
    using assms(1) by (simp add: overwrite_def)
  then show ?thesis by (simp add: slice_def)
qed

lemma slice_append [simp]:
  "length w \<le> a \<Longrightarrow> slice (w @ bs) a b = slice bs (a - length w) (b - length w)"
  by (simp add: slice_def)

lemma read_le_append: "length w \<le> p \<Longrightarrow> read_le n (w @ bs) p = read_le n bs (p - length w)"
  by (auto simp: read_le_def)

lemma read_le_here: "length w = p \<Longrightarrow> v < 256 ^ n \<Longrightarrow> read_le n (w @ le_bytes n v @ bs) p = Inr v"
  by (simp add: read_le_def slice_def le_val_le_bytes)

lemma copy_to_tail:
  "length src \<le> n \<Longrightarrow> p = length w \<Longrightarrow> copy_to src (w @ alloc n) p = ((w @ src) @ alloc (n - length src), length src)"
  by (simp add: copy_to_def overwrite_tail)

section \<open>The contract of a field accessor\<close>

locale buffer_field =
  fixes width :: nat
    and fits :: "int \<Rightarrow> bool"
    and enc :: "int \<Rightarrow> byte list"
    and put :: "buffer \<Rightarrow> int \<Rightarrow> nat \<Rightarrow> (buffer \<times> nat) res"
    and get :: "buffer \<Rightarrow> nat \<Rightarrow> nat res"
    and decoded :: "int \<Rightarrow> nat"
  assumes length_enc: "length (enc v) = width"
    and write_fits: "fits v \<Longrightarrow> p + width \<le> length buf \<Longrightarrow>
      put buf v p = Inr (overwrite buf p (enc v), p + width)"
    and write_misfit: "\<not> fits v \<or> length buf < p + width \<Longrightarrow> put buf v p = Inl RangeError"
    and read_enc: "fits v \<Longrightarrow> p + width \<le> length buf \<Longrightarrow> slice buf p (p + width) = enc v \<Longrightarrow>
      get buf p = Inr (decoded v)"
begin

lemma write_tail:
  assumes "fits v" "width \<le> n" "p = length w"
  shows "put (w @ alloc n) v p = Inr ((w @ enc v) @ alloc (n - width), p + width)"
  using assms write_fits [of v p "w @ alloc n"] overwrite_tail [of "enc v" n w] length_enc by simp

lemma put_cases:
  "put buf v p =
     (if fits v \<and> p + width \<le> length buf then Inr (overwrite buf p (enc v), p + width) else Inl RangeError)"
  by (auto simp: write_fits not_le intro: write_misfit)

lemma write_Inr_iff:
  "put buf v p = Inr r \<longleftrightarrow>
     fits v \<and> p + width \<le> length buf \<and> r = (overwrite buf p (enc v), p + width)"
  by (auto simp: put_cases)

lemma write_error_iff: "put buf v p = Inl e \<longleftrightarrow> e = RangeError \<and> (\<not> fits v \<or> length buf < p + width)"
  by (auto simp: put_cases)

lemma read_after_write:
  assumes "put buf v p = Inr (buf', q)"
  shows "get buf' p = Inr (decoded v)" "q = p + width" "length buf' = length buf"
proof -
  have fit: "fits v" "p + width \<le> length buf" "buf' = overwrite buf p (enc v)" "q = p + width"
    using assms by (auto simp: write_Inr_iff)
  have "slice buf' p (p + width) = enc v"
    using fit slice_overwrite [of p "enc v" buf] by (simp add: length_enc)
  moreover have "length buf' = length buf"
    using fit by (simp add: length_enc)
  ultimately show "get buf' p = Inr (decoded v)" "q = p + width" "length buf' = length buf"
    using fit read_enc [of v p buf'] by simp_all
qed

lemma write_frame:
  assumes "put buf v p = Inr (buf', q)" "b \<le> p \<or> q \<le> a"
  shows "slice buf' a b = slice buf a b"
  using assms by (auto simp: write_Inr_iff length_enc intro!: slice_overwrite_other)

end

lemma write_le_fields:
  "p + w \<le> length buf \<Longrightarrow> write_le w buf v p = Inr (overwrite buf p (le_bytes w v), p + w)"
  "length buf < p + w \<Longrightarrow> write_le w buf v p = Inl RangeError"
  by (simp_all add: write_le_def)

lemma read_le_slice:
  "p + w \<le> length buf \<Longrightarrow> slice buf p (p + w) = le_bytes w v \<Longrightarrow> v < 256 ^ w \<Longrightarrow> read_le w buf p = Inr v"
  by (simp add: read_le_def le_val_le_bytes)

interpretation u8: buffer_field 1 "\<lambda>v. 0 \<le> v \<and> v < 2 ^ 8" "\<lambda>v. le_bytes 1 (nat v)" writeUInt8 readUInt8 nat
  by unfold_locales
    (auto simp: writeUInt8_def readUInt8_def write_le_fields nat_less_iff intro!: read_le_slice)

interpretation u32: buffer_field 4 "\<lambda>v. 0 \<le> v \<and> v < 2 ^ 32" "\<lambda>v. le_bytes 4 (nat v)" writeUInt32LE readUInt32LE nat
  by unfold_locales
    (auto simp: writeUInt32LE_def readUInt32LE_def write_le_fields nat_less_iff intro!: read_le_slice)

interpretation u64: buffer_field 8 "\<lambda>v. 0 \<le> v \<and> v < 2 ^ 64" "\<lambda>v. le_bytes 8 (nat v)" writeBigUInt64LE readBigUInt64LE nat
  by unfold_locales
    (auto simp: writeBigUInt64LE_def readBigUInt64LE_def write_le_fields nat_less_iff intro!: read_le_slice)

interpretation i64: buffer_field 8 "\<lambda>v. - (2 ^ 63) \<le> v \<and> v < 2 ^ 63" "\<lambda>v. le_bytes 8 (nat (v mod 2 ^ 64))"
    writeBigInt64LE readBigUInt64LE "\<lambda>v. nat (v mod 2 ^ 64)"
  by unfold_locales
    (auto simp: writeBigInt64LE_def readBigUInt64LE_def write_le_fields nat_less_iff intro!: read_le_slice)

end
