(* ===== verification/Solana_Web3.thy ===== *)
theory Solana_Web3
  imports JS_Buffer
begin

text \<open>
  The interface to code outside the repository: the web3.js package and the cluster behind it.
  Nothing of it is defined here. A \<open>keylib\<close> holds the functions and constants on public keys, a
  \<open>connection\<close> the remote calls over an unknown world \<open>'w\<close>, and every definition that uses them
  takes them as arguments. The state of a client run, \<open>sys\<close>, is the world together with the
  transactions handed to \<open>sendAndConfirmTransaction\<close>, in order, and the subscriptions made.

  \<open>wf_keys\<close> is the documented behaviour of public keys the round trips rest on: a key has 32
  bytes and is rebuilt from them.
\<close>

section \<open>Keys\<close>

text \<open>
  JavaScript compares objects by identity. Where the program compares two PublicKey objects with
  \<open>==\<close>, the identity of the object is part of the model.
\<close>

datatype 'k keyref = KeyRef (ref_id: nat) (ref_key: 'k)

definition ref_eq :: "'k keyref \<Rightarrow> 'k keyref \<Rightarrow> bool" where
  "ref_eq a b \<longleftrightarrow> ref_id a = ref_id b"

record 'k keylib =
  newPublicKey :: "buffer \<Rightarrow> 'k res"
  keyOfString :: "string \<Rightarrow> 'k"
  toBuffer :: "'k \<Rightarrow> buffer"
  toBase58 :: "'k \<Rightarrow> string"
  findProgramAddress :: "buffer list \<Rightarrow> 'k \<Rightarrow> 'k res"
  SYSVAR_CLOCK_PUBKEY :: 'k
  SYSVAR_RENT_PUBKEY :: 'k
  SYSVAR_STAKE_HISTORY_PUBKEY :: 'k
  SystemProgram_programId :: "'k keyref"
  StakeProgram_programId :: 'k

definition wf_keys :: "'k keylib \<Rightarrow> bool" where
  "wf_keys K \<longleftrightarrow> (\<forall>k. length (toBuffer K k) = 32 \<and> newPublicKey K (toBuffer K k) = Inr k)"

definition Buffer_from :: "string \<Rightarrow> buffer" where
  "Buffer_from s = map of_char s"

section \<open>Accounts and transactions\<close>

record 'k account_info =
  acc_owner :: "'k keyref"
  lamports :: number
  acc_data :: buffer

datatype activation_state = Active | Activating | Inactive | Deactivating

record stake_activation =
  sa_state :: activation_state
  sa_active :: number
  sa_inactive :: number

record 'k account_meta =
  pubkey :: 'k
  isSigner :: bool
  isWritable :: bool

record 'k instruction =
  keys :: "'k account_meta list"
  programId :: 'k
  data :: buffer

definition meta :: "'k \<Rightarrow> bool \<Rightarrow> bool \<Rightarrow> 'k account_meta" where
  "meta k s w = \<lparr>pubkey = k, isSigner = s, isWritable = w\<rparr>"

text \<open>An entry of a transaction: an instruction of the pool program, or a call of a web3.js builder.\<close>

datatype 'k tx_instr =
    Instr "'k instruction"
  | SystemCreateAccount (ca_from: 'k) (ca_new: 'k) (ca_lamports: number) (ca_space: nat) (ca_programId: 'k)

record 'k sent_tx =
  tx :: "'k tx_instr list"
  signers :: "'k list"

section \<open>Remote calls\<close>

record ('k, 'w) connection =
  rpc_getAccountInfo :: "'k \<Rightarrow> ('w, 'k account_info option) io"
  rpc_getStakeActivation :: "'k \<Rightarrow> ('w, stake_activation) io"
  rpc_getMinimumBalance :: "nat \<Rightarrow> ('w, number) io"
  rpc_getEpoch :: "('w, nat) io"
  rpc_getVoteAccounts :: "('w, 'k list) io"
  rpc_requestAirdrop :: "'k \<Rightarrow> number \<Rightarrow> ('w, unit) io"
  rpc_sendAndConfirm :: "'k sent_tx \<Rightarrow> ('w, unit) io"

record ('k, 'w) sys =
  world :: 'w
  sent :: "'k sent_tx list"
  listeners :: "'k list"

type_synonym ('k, 'w, 'a) client = "(('k, 'w) sys, 'a) io"

definition onWorld :: "('w, 'a) io \<Rightarrow> ('k, 'w, 'a) client" where
  "onWorld m = (\<lambda>s. case m (world s) of (r, w) \<Rightarrow> (r, s\<lparr>world := w\<rparr>))"

definition getAccountInfo :: "('k, 'w) connection \<Rightarrow> 'k \<Rightarrow> ('k, 'w, 'k account_info option) client" where
  "getAccountInfo C k = onWorld (rpc_getAccountInfo C k)"

definition getStakeActivation :: "('k, 'w) connection \<Rightarrow> 'k \<Rightarrow> ('k, 'w, stake_activation) client" where
  "getStakeActivation C k = onWorld (rpc_getStakeActivation C k)"

definition getMinimumBalanceForRentExemption ::
  "('k, 'w) connection \<Rightarrow> nat \<Rightarrow> ('k, 'w, number) client" where
  "getMinimumBalanceForRentExemption C n = onWorld (rpc_getMinimumBalance C n)"

definition onAccountChange :: "'k \<Rightarrow> ('k, 'w, unit) client" where
  "onAccountChange k = (\<lambda>s. (Inr (), s\<lparr>listeners := listeners s @ [k]\<rparr>))"

definition sendAndConfirmTransaction ::
  "('k, 'w) connection \<Rightarrow> 'k tx_instr list \<Rightarrow> 'k list \<Rightarrow> ('k, 'w, unit) client" where
  "sendAndConfirmTransaction C t ss =
     (\<lambda>s. let e = \<lparr>tx = t, signers = ss\<rparr>
          in case rpc_sendAndConfirm C e (world s) of
               (r, w) \<Rightarrow> (r, s\<lparr>world := w, sent := sent s @ [e]\<rparr>))"

section \<open>What a step of the client can change\<close>

text \<open>
  \<open>quiet m\<close>: the computation sends no transaction, whatever the cluster answers. Reading the
  cluster is quiet, and quiet computations compose.
\<close>

named_theorems quiet_intros \<open>computations that send nothing\<close>

definition quiet :: "('k, 'w, 'a) client \<Rightarrow> bool" where
  "quiet m \<longleftrightarrow> (\<forall>s. sent (snd (m s)) = sent s)"

lemma quietD: "quiet m \<Longrightarrow> m s = (r, t) \<Longrightarrow> sent t = sent s"
  by (force simp: quiet_def dest: spec [of _ s])

lemma quiet_Pair [quiet_intros]: "quiet (Pair r)"
  by (simp add: quiet_def)

lemma quiet_onWorld [quiet_intros]: "quiet (onWorld m)"
  by (auto simp: quiet_def onWorld_def split: prod.splits)

lemma quiet_bind [quiet_intros]:
  assumes "quiet m" "\<And>x. quiet (f x)"
  shows "quiet (bindIO m f)"
proof -
  have "sent (snd (bindIO m f s)) = sent s" for s
  proof (cases "m s")
    case (Pair r t)
    then have "sent t = sent s"
      using assms(1) by (rule quietD [rotated])
    then show ?thesis
      using Pair assms(2) by (cases r) (simp_all add: bindIO_def quiet_def)
  qed
  then show ?thesis by (simp add: quiet_def)
qed

lemma quiet_catch [quiet_intros]:
  assumes "quiet m" "\<And>e. quiet (h e)"
  shows "quiet (catchIO m h)"
proof -
  have "sent (snd (catchIO m h s)) = sent s" for s
  proof (cases "m s")
    case (Pair r t)
    then have "sent t = sent s"
      using assms(1) by (rule quietD [rotated])
    then show ?thesis
      using Pair assms(2) by (cases r) (simp_all add: catchIO_def quiet_def)
  qed
  then show ?thesis by (simp add: quiet_def)
qed

lemma quiet_rpc [quiet_intros]:
  "quiet (getAccountInfo C k)" "quiet (getStakeActivation C k)" "quiet (getMinimumBalanceForRentExemption C n)"
  by (simp_all add: getAccountInfo_def getStakeActivation_def getMinimumBalanceForRentExemption_def quiet_intros)

lemma quiet_onAccountChange [quiet_intros]: "quiet (onAccountChange k)"
  by (simp add: quiet_def onAccountChange_def)

lemma sent_sendAndConfirm:
  "sendAndConfirmTransaction C t ss s = (r, s') \<Longrightarrow> sent s' = sent s @ [\<lparr>tx = t, signers = ss\<rparr>]"
  by (auto simp: sendAndConfirmTransaction_def Let_def split: prod.splits)

end
