(* ===== verification/Tenderize_Instructions.thy ===== *)
theory Tenderize_Instructions
  imports Solana_Web3
begin

text \<open>
  \<open>experiment/tenderize.ts\<close>, the instruction builders of the class \<open>TenderizeProgram\<close>: derived
  addresses, the parameter records, and one definition per \<open>\<dots>Instruction\<close> method. A builder is a
  synchronous computation here: the addresses it awaits are a function of the keys alone.
\<close>

section \<open>Constants and parameters\<close>

definition SPL_TOKEN_PROGRAM_ID :: "'k keylib \<Rightarrow> 'k" where
  "SPL_TOKEN_PROGRAM_ID K = keyOfString K ''TokenkegQfeZyiNwAJbNbGKPFXCWuBvf9Ss623VQ5DA''"

definition MIN_STAKE_ACCOUNT_BALANCE :: number where
  "MIN_STAKE_ACCOUNT_BALANCE = 1000000000"

record 'k ValidatorInfo =
  votePubkey :: 'k
  balance :: number
  lastUpdateEpoch :: number
  stakeCount :: nat

record CreateStakePoolParams =
  csp_feeDenominator :: number
  csp_feeNumerator :: number

record 'k DepositParams =
  userSource :: 'k
  dep_amount :: number
  userToken :: 'k

record 'k WithdrawParams =
  wd_userTokenSource :: 'k
  wd_amount :: number
  wd_userSolTarget :: 'k

datatype 'k authority = AsPublicKey 'k | AsAccount 'k

record 'k CreditParams =
  cr_userTokenSource :: 'k
  cr_amount :: number
  cr_userSolTarget :: 'k
  cancelAuthority :: "'k authority"

record 'k DepositReserveValidatorParam =
  address :: 'k
  dr_amount :: number
  dr_stakeIndex :: nat

record 'k StakePair =
  sp_validator :: 'k
  mainIndex :: nat
  additionalIndex :: nat

record 'k Unstake =
  us_validator :: 'k
  sourceIndex :: nat
  splitIndex :: "nat option"
  us_amount :: "number option"

record 'k TenderizeProgram =
  payerAccount :: 'k
  programAccount :: 'k
  stakePool :: 'k
  owner :: 'k
  validatorStakeListAccount :: 'k
  creditListAccount :: 'k
  poolMintToken :: 'k
  ownersFee :: 'k
  creditReserve :: 'k

section \<open>Derived addresses\<close>

definition getReserveAddress :: "'k keylib \<Rightarrow> 'k TenderizeProgram \<Rightarrow> 'k res" where
  "getReserveAddress K P =
     findProgramAddress K [toBuffer K (stakePool P), Buffer_from ''reserve''] (programAccount P)"

definition getDepositAuthority :: "'k keylib \<Rightarrow> 'k TenderizeProgram \<Rightarrow> 'k res" where
  "getDepositAuthority K P =
     findProgramAddress K [toBuffer K (stakePool P), Buffer_from ''deposit''] (programAccount P)"

definition getWithdrawAuthority :: "'k keylib \<Rightarrow> 'k TenderizeProgram \<Rightarrow> 'k res" where
  "getWithdrawAuthority K P =
     findProgramAddress K [toBuffer K (stakePool P), Buffer_from ''withdraw''] (programAccount P)"

definition getStakeForValidator :: "'k keylib \<Rightarrow> 'k TenderizeProgram \<Rightarrow> 'k \<Rightarrow> nat \<Rightarrow> 'k res" where
  "getStakeForValidator K P validator index =
     bindE (writeUInt32LE (alloc 4) (int index) 0) (\<lambda>(indexBuffer, _).
     findProgramAddress K [toBuffer K validator, toBuffer K (stakePool P), indexBuffer] (programAccount P))"

section \<open>Instructions of fixed size\<close>

definition createStakePoolInstruction ::
  "'k keylib \<Rightarrow> 'k TenderizeProgram \<Rightarrow> CreateStakePoolParams \<Rightarrow> 'k instruction res" where
  "createStakePoolInstruction K P params =
     bindE (writeUInt8 (alloc (1 + 8 + 8)) 0 0) (\<lambda>(d, p).
     bindE (BigInt (csp_feeDenominator params)) (\<lambda>den.
     bindE (writeBigUInt64LE d den p) (\<lambda>(d, p).
     bindE (BigInt (csp_feeNumerator params)) (\<lambda>num.
     bindE (writeBigUInt64LE d num p) (\<lambda>(d, p).
     Inr \<lparr>keys =
            [meta (stakePool P) False True,
             meta (owner P) True False,
             meta (validatorStakeListAccount P) False True,
             meta (creditListAccount P) False True,
             meta (poolMintToken P) False False,
             meta (ownersFee P) False False,
             meta (creditReserve P) False True,
             meta (SYSVAR_CLOCK_PUBKEY K) False False,
             meta (SYSVAR_RENT_PUBKEY K) False False,
             meta (SPL_TOKEN_PROGRAM_ID K) False False],
          programId = programAccount P, data = d\<rparr>)))))"

definition addValidatorInstruction ::
  "'k keylib \<Rightarrow> 'k TenderizeProgram \<Rightarrow> 'k \<Rightarrow> 'k instruction res" where
  "addValidatorInstruction K P validator =
     bindE (writeUInt8 (alloc 1) 2 0) (\<lambda>(d, p).
     Inr \<lparr>keys =
            [meta (stakePool P) False False,
             meta (owner P) True False,
             meta (validatorStakeListAccount P) False True,
             meta validator False False,
             meta (SYSVAR_CLOCK_PUBKEY K) False False],
          programId = programAccount P, data = d\<rparr>)"

definition removeValidatorInstruction ::
  "'k keylib \<Rightarrow> 'k TenderizeProgram \<Rightarrow> 'k \<Rightarrow> 'k instruction res" where
  "removeValidatorInstruction K P validator =
     bindE (writeUInt8 (alloc 1) 3 0) (\<lambda>(d, p).
     Inr \<lparr>keys =
            [meta (stakePool P) False False,
             meta (owner P) True False,
             meta (validatorStakeListAccount P) False True,
             meta validator False False,
             meta (SYSVAR_CLOCK_PUBKEY K) False False],
          programId = programAccount P, data = d\<rparr>)"

definition depositInstruction ::
  "'k keylib \<Rightarrow> 'k TenderizeProgram \<Rightarrow> 'k DepositParams \<Rightarrow> 'k instruction res" where
  "depositInstruction K P params =
     bindE (writeUInt8 (alloc (1 + 8)) 6 0) (\<lambda>(d, p).
     bindE (BigInt (dep_amount params)) (\<lambda>amount.
     bindE (writeBigInt64LE d amount p) (\<lambda>(d, p).
     bindE (getWithdrawAuthority K P) (\<lambda>withdrawAuthority.
     bindE (getReserveAddress K P) (\<lambda>reserve.
     Inr \<lparr>keys =
            [meta (stakePool P) False True,
             meta withdrawAuthority False False,
             meta reserve False True,
             meta (userSource params) True True,
             meta (userToken params) False True,
             meta (ownersFee P) False True,
             meta (poolMintToken P) False True,
             meta (SYSVAR_RENT_PUBKEY K) False False,
             meta (ref_key (SystemProgram_programId K)) False False,
             meta (SPL_TOKEN_PROGRAM_ID K) False False],
          programId = programAccount P, data = d\<rparr>)))))"

definition withdrawInstruction ::
  "'k keylib \<Rightarrow> 'k TenderizeProgram \<Rightarrow> 'k WithdrawParams \<Rightarrow> 'k instruction res" where
  "withdrawInstruction K P params =
     bindE (writeUInt8 (alloc (1 + 8)) 7 0) (\<lambda>(d, p).
     bindE (BigInt (wd_amount params)) (\<lambda>amount.
     bindE (writeBigInt64LE d amount p) (\<lambda>(d, p).
     bindE (getWithdrawAuthority K P) (\<lambda>withdrawAuthority.
     bindE (getReserveAddress K P) (\<lambda>reserve.
     Inr \<lparr>keys =
            [meta (stakePool P) False True,
             meta withdrawAuthority False False,
             meta reserve False True,
             meta (wd_userTokenSource params) False True,
             meta (poolMintToken P) False True,
             meta (wd_userSolTarget params) False True,
             meta (SYSVAR_RENT_PUBKEY K) False False,
             meta (ref_key (SystemProgram_programId K)) False False,
             meta (SPL_TOKEN_PROGRAM_ID K) False False],
          programId = programAccount P, data = d\<rparr>)))))"

text \<open>
  The cancel authority is read as a PublicKey when tokens are credited and as an Account when they
  are taken back. A value of the other kind has no key to put in the instruction; the transaction
  is then rejected with a TypeError before it is sent.
\<close>

definition creditAuthority :: "'k CreditParams \<Rightarrow> 'k res" where
  "creditAuthority params =
     (if cr_amount params \<ge> 0
      then (case cancelAuthority params of AsPublicKey k \<Rightarrow> Inr k | AsAccount _ \<Rightarrow> Inl TypeError)
      else (case cancelAuthority params of AsAccount k \<Rightarrow> Inr k | AsPublicKey _ \<Rightarrow> Inl TypeError))"

definition creditInstruction ::
  "'k keylib \<Rightarrow> 'k TenderizeProgram \<Rightarrow> 'k CreditParams \<Rightarrow> 'k instruction res" where
  "creditInstruction K P params =
     bindE (writeUInt8 (alloc (1 + 8)) (if cr_amount params \<ge> 0 then 10 else 11) 0) (\<lambda>(d, p).
     bindE (BigInt \<bar>cr_amount params\<bar>) (\<lambda>amount.
     bindE (writeBigInt64LE d amount p) (\<lambda>(d, p).
     bindE (getWithdrawAuthority K P) (\<lambda>withdrawAuthority.
     bindE (creditAuthority params) (\<lambda>authority.
     Inr \<lparr>keys =
            [meta (stakePool P) False True,
             meta (creditListAccount P) False True,
             meta (creditReserve P) False True,
             meta withdrawAuthority False False,
             meta (cr_userTokenSource params) False True,
             meta (cr_userSolTarget params) False False,
             meta authority (cr_amount params < 0) False,
             meta (SPL_TOKEN_PROGRAM_ID K) False False],
          programId = programAccount P, data = d\<rparr>)))))"

definition updatePoolBalanceInstruction ::
  "'k keylib \<Rightarrow> 'k TenderizeProgram \<Rightarrow> 'k instruction res" where
  "updatePoolBalanceInstruction K P =
     bindE (writeUInt8 (alloc 1) 5 0) (\<lambda>(d, p).
     bindE (getReserveAddress K P) (\<lambda>reserve.
     Inr \<lparr>keys =
            [meta (stakePool P) False True,
             meta (validatorStakeListAccount P) False False,
             meta reserve False False,
             meta (SYSVAR_CLOCK_PUBKEY K) False False],
          programId = programAccount P, data = d\<rparr>))"

section \<open>Instructions over a list\<close>

fun delegateReserveLoop ::
  "'k keylib \<Rightarrow> 'k TenderizeProgram \<Rightarrow> 'k DepositReserveValidatorParam list \<Rightarrow>
   buffer \<Rightarrow> nat \<Rightarrow> 'k account_meta list \<Rightarrow> (buffer \<times> 'k account_meta list) res" where
  "delegateReserveLoop K P [] d p ks = Inr (d, ks)"
| "delegateReserveLoop K P (v # vs) d p ks =
     bindE (BigInt (dr_amount v)) (\<lambda>amount.
     bindE (writeBigUInt64LE d amount p) (\<lambda>(d, p).
     bindE (writeUInt32LE d (int (dr_stakeIndex v)) p) (\<lambda>(d, p).
     bindE (getStakeForValidator K P (address v) (dr_stakeIndex v)) (\<lambda>stake.
     delegateReserveLoop K P vs d p (ks @ [meta (address v) False False, meta stake False True])))))"

definition delegateReserveInstruction ::
  "'k keylib \<Rightarrow> 'k TenderizeProgram \<Rightarrow> 'k DepositReserveValidatorParam list \<Rightarrow> 'k instruction res" where
  "delegateReserveInstruction K P validators =
     bindE (writeUInt8 (alloc (1 + 4 + (8 + 4) * length validators)) 12 0) (\<lambda>(d, p).
     bindE (writeUInt32LE d (int (length validators)) p) (\<lambda>(d, p).
     bindE (getWithdrawAuthority K P) (\<lambda>withdrawAuthority.
     bindE (getDepositAuthority K P) (\<lambda>depositAuthority.
     bindE (getReserveAddress K P) (\<lambda>reserve.
     bindE (delegateReserveLoop K P validators d p
            [meta (stakePool P) False False,
             meta (owner P) True False,
             meta (validatorStakeListAccount P) False True,
             meta withdrawAuthority False False,
             meta depositAuthority False False,
             meta reserve False True,
             meta (ref_key (SystemProgram_programId K)) False False,
             meta (StakeProgram_programId K) False False,
             meta (SYSVAR_CLOCK_PUBKEY K) False False,
             meta (SYSVAR_STAKE_HISTORY_PUBKEY K) False False,
             meta (keyOfString K ''StakeConfig11111111111111111111111111111111'') False False,
             meta (SYSVAR_RENT_PUBKEY K) False False]) (\<lambda>(d, ks).
     Inr \<lparr>keys = ks, programId = programAccount P, data = d\<rparr>))))))"

fun mergeStakesLoop ::
  "'k keylib \<Rightarrow> 'k TenderizeProgram \<Rightarrow> 'k StakePair list \<Rightarrow>
   buffer \<Rightarrow> nat \<Rightarrow> 'k account_meta list \<Rightarrow> (buffer \<times> 'k account_meta list) res" where
  "mergeStakesLoop K P [] d p ks = Inr (d, ks)"
| "mergeStakesLoop K P (sp # sps) d p ks =
     (let (d, n) = copy_to (toBuffer K (sp_validator sp)) d p; p = p + n in
     bindE (writeUInt32LE d (int (mainIndex sp)) p) (\<lambda>(d, p).
     bindE (writeUInt32LE d (int (additionalIndex sp)) p) (\<lambda>(d, p).
     bindE (getStakeForValidator K P (sp_validator sp) (mainIndex sp)) (\<lambda>mainStake.
     bindE (getStakeForValidator K P (sp_validator sp) (additionalIndex sp)) (\<lambda>additionalStake.
     mergeStakesLoop K P sps d p (ks @ [meta mainStake False True, meta additionalStake False True]))))))"

definition mergeStakesInstruction ::
  "'k keylib \<Rightarrow> 'k TenderizeProgram \<Rightarrow> 'k StakePair list \<Rightarrow> 'k instruction res" where
  "mergeStakesInstruction K P stakePairs =
     bindE (writeUInt8 (alloc (1 + 4 + (32 + 4 + 4) * length stakePairs)) 13 0) (\<lambda>(d, p).
     bindE (writeUInt32LE d (int (length stakePairs)) p) (\<lambda>(d, p).
     bindE (getDepositAuthority K P) (\<lambda>depositAuthority.
     bindE (mergeStakesLoop K P stakePairs d p
            [meta (stakePool P) False True,
             meta (validatorStakeListAccount P) False True,
             meta depositAuthority False False,
             meta (StakeProgram_programId K) False False,
             meta (SYSVAR_CLOCK_PUBKEY K) False False,
             meta (SYSVAR_STAKE_HISTORY_PUBKEY K) False False]) (\<lambda>(d, ks).
     Inr \<lparr>keys = ks, programId = programAccount P, data = d\<rparr>))))"

text \<open>
  \<open>unstake.splitIndex || unstake.sourceIndex\<close> and \<open>unstake.amount || 0\<close>: both \<open>undefined\<close> and \<open>0\<close>
  are falsy.
\<close>

definition truthyIndex :: "nat option \<Rightarrow> nat option" where
  "truthyIndex i = (case i of Some (Suc n) \<Rightarrow> Some (Suc n) | _ \<Rightarrow> None)"

definition encodedSplitIndex :: "'k Unstake \<Rightarrow> nat" where
  "encodedSplitIndex u = (case truthyIndex (splitIndex u) of Some i \<Rightarrow> i | None \<Rightarrow> sourceIndex u)"

definition encodedAmount :: "'k Unstake \<Rightarrow> number" where
  "encodedAmount u = (case us_amount u of Some a \<Rightarrow> a | None \<Rightarrow> 0)"

fun unstakeLoop ::
  "'k keylib \<Rightarrow> 'k TenderizeProgram \<Rightarrow> 'k Unstake list \<Rightarrow>
   buffer \<Rightarrow> nat \<Rightarrow> 'k account_meta list \<Rightarrow> (buffer \<times> 'k account_meta list) res" where
  "unstakeLoop K P [] d p ks = Inr (d, ks)"
| "unstakeLoop K P (u # us) d p ks =
     (let (d, n) = copy_to (toBuffer K (us_validator u)) d p; p = p + n in
     bindE (writeUInt32LE d (int (sourceIndex u)) p) (\<lambda>(d, p).
     bindE (writeUInt32LE d (int (encodedSplitIndex u)) p) (\<lambda>(d, p).
     bindE (BigInt (encodedAmount u)) (\<lambda>amount.
     bindE (writeBigUInt64LE d amount p) (\<lambda>(d, p).
     bindE (getStakeForValidator K P (us_validator u) (sourceIndex u)) (\<lambda>sourceStake.
     let ks = ks @ [meta sourceStake False True] in
     case truthyIndex (splitIndex u) of
       Some i \<Rightarrow>
         bindE (getStakeForValidator K P (us_validator u) i) (\<lambda>splitStake.
         unstakeLoop K P us d p (ks @ [meta splitStake False True]))
     | None \<Rightarrow> unstakeLoop K P us d p ks))))))"

definition unstakeInstruction ::
  "'k keylib \<Rightarrow> 'k TenderizeProgram \<Rightarrow> 'k Unstake list \<Rightarrow> 'k instruction res" where
  "unstakeInstruction K P unstakes =
     bindE (writeUInt8 (alloc (1 + 4 + (32 + 4 + 4 + 8) * length unstakes)) 14 0) (\<lambda>(d, p).
     bindE (writeUInt32LE d (int (length unstakes)) p) (\<lambda>(d, p).
     bindE (getDepositAuthority K P) (\<lambda>depositAuthority.
     bindE (unstakeLoop K P unstakes d p
            [meta (stakePool P) False True,
             meta (owner P) True True,
             meta (validatorStakeListAccount P) False True,
             meta depositAuthority False False,
             meta (ref_key (SystemProgram_programId K)) False False,
             meta (StakeProgram_programId K) False False,
             meta (SYSVAR_RENT_PUBKEY K) False False,
             meta (SYSVAR_CLOCK_PUBKEY K) False False,
             meta (SYSVAR_STAKE_HISTORY_PUBKEY K) False False]) (\<lambda>(d, ks).
     Inr \<lparr>keys = ks, programId = programAccount P, data = d\<rparr>))))"

fun stakeKeys :: "'k keylib \<Rightarrow> 'k TenderizeProgram \<Rightarrow> 'k \<Rightarrow> nat list \<Rightarrow> 'k account_meta list res" where
  "stakeKeys K P v [] = Inr []"
| "stakeKeys K P v (i # is) =
     bindE (getStakeForValidator K P v i) (\<lambda>stake.
     bindE (stakeKeys K P v is) (\<lambda>ks. Inr (meta stake False True # ks)))"

fun updateListBalanceLoop ::
  "'k keylib \<Rightarrow> 'k TenderizeProgram \<Rightarrow> 'k ValidatorInfo list \<Rightarrow> 'k account_meta list res" where
  "updateListBalanceLoop K P [] = Inr []"
| "updateListBalanceLoop K P (v # vs) =
     bindE (stakeKeys K P (votePubkey v) [0..<stakeCount v]) (\<lambda>stakes.
     bindE (updateListBalanceLoop K P vs) (\<lambda>ks.
     Inr (meta (votePubkey v) False False # stakes @ ks)))"

definition updateListBalanceInstruction ::
  "'k keylib \<Rightarrow> 'k TenderizeProgram \<Rightarrow> 'k ValidatorInfo list \<Rightarrow> 'k instruction res" where
  "updateListBalanceInstruction K P validators =
     bindE (writeUInt8 (alloc 1) 4 0) (\<lambda>(d, p).
     bindE (getWithdrawAuthority K P) (\<lambda>withdrawAuthority.
     bindE (getReserveAddress K P) (\<lambda>reserve.
     bindE (updateListBalanceLoop K P validators) (\<lambda>ks.
     Inr \<lparr>keys =
            [meta (stakePool P) False False,
             meta (validatorStakeListAccount P) False True,
             meta withdrawAuthority False False,
             meta reserve False True,
             meta (ref_key (SystemProgram_programId K)) False False,
             meta (StakeProgram_programId K) False False,
             meta (SYSVAR_CLOCK_PUBKEY K) False False,
             meta (SYSVAR_STAKE_HISTORY_PUBKEY K) False False] @ ks,
          programId = programAccount P, data = d\<rparr>))))"

end
