(* ===== verification/Sample_Cluster.thy ===== *)
theory Sample_Cluster
  imports Tenderize_Instructions
begin

text \<open>
  A concrete instance of the parameters, on which the hypotheses of the theorems hold: keys are
  256-bit words, written as 32 little-endian bytes, and a program address is computed from the
  seeds by addition; a pool and its accounts. Only witnesses use it.
\<close>

type_synonym key = "256 word"

definition sample_keys :: "key keylib" where
  "sample_keys =
     \<lparr>newPublicKey = (\<lambda>bs. if length bs = 32 then Inr (of_nat (le_val bs)) else Inl TypeError),
      keyOfString = (\<lambda>s. of_nat (length s)),
      toBuffer = (\<lambda>k. le_bytes 32 (unat k)),
      toBase58 = (\<lambda>k. map (\<lambda>b. char_of (unat b)) (le_bytes 32 (unat k))),
      findProgramAddress = (\<lambda>seeds pid. Inr (pid + of_nat (sum_list (map le_val seeds)))),
      SYSVAR_CLOCK_PUBKEY = 1, SYSVAR_RENT_PUBKEY = 2, SYSVAR_STAKE_HISTORY_PUBKEY = 3,
      SystemProgram_programId = KeyRef 0 4, StakeProgram_programId = 5\<rparr>"

definition sample_program :: "key TenderizeProgram" where
  "sample_program =
     \<lparr>payerAccount = 10, programAccount = 11, stakePool = 12, owner = 13, validatorStakeListAccount = 14,
      creditListAccount = 15, poolMintToken = 16, ownersFee = 17, creditReserve = 18\<rparr>"

text \<open>A cluster that answers from its accounts and stakes, pays airdrops, and accepts every transaction unchanged.\<close>

type_synonym sample_world = "(key \<Rightarrow> key account_info option) \<times> (key \<Rightarrow> stake_activation)"

definition sample_connection :: "(key, sample_world) connection" where
  "sample_connection =
     \<lparr>rpc_getAccountInfo = (\<lambda>k w. (Inr (fst w k), w)),
      rpc_getStakeActivation = (\<lambda>k w. (Inr (snd w k), w)),
      rpc_getMinimumBalance = (\<lambda>n w. (Inr (of_nat n), w)),
      rpc_getEpoch = (\<lambda>w. (Inr 5, w)), rpc_getVoteAccounts = (\<lambda>w. (Inr [7, 8], w)),
      rpc_requestAirdrop = (\<lambda>k n w. (Inr (), ((fst w)(k \<mapsto>
        \<lparr>acc_owner = KeyRef 9 11, lamports = (case fst w k of None \<Rightarrow> 0 | Some a \<Rightarrow> lamports a) + n, acc_data = []\<rparr>), snd w))),
      rpc_sendAndConfirm = (\<lambda>t w. (Inr (), w))\<rparr>"

definition sample_sys :: "sample_world \<Rightarrow> (key, sample_world) sys" where
  "sample_sys w = \<lparr>world = w, sent = [], listeners = []\<rparr>"

definition sample_account :: "buffer \<Rightarrow> key account_info" where
  "sample_account d = \<lparr>acc_owner = KeyRef 9 11, lamports = 1, acc_data = d\<rparr>"

definition sample_stake :: stake_activation where
  "sample_stake = \<lparr>sa_state = Active, sa_active = 3000000000, sa_inactive = 0\<rparr>"

definition sample_validators :: buffer where
  "sample_validators = [1, 2, 0] @
     replicate 32 0 @ le_bytes 8 3000000000 @ le_bytes 8 4 @ le_bytes 4 1 @ replicate 4 0 @
     le_bytes 32 1 @ le_bytes 8 0 @ le_bytes 8 4 @ le_bytes 4 0 @ replicate 4 0 @ alloc 6000"

definition sample_credits :: buffer where
  "sample_credits = [1, 1, 0] @ replicate 32 0 @ replicate 32 0 @ le_bytes 8 700 @ alloc 80000"

fun sample_chunk :: "'a list \<Rightarrow> nat \<Rightarrow> 'a list list" where
  "sample_chunk [] n = []"
| "sample_chunk (x # xs) n = (x # take (n - 1) xs) # sample_chunk (drop (n - 1) xs) n"

lemma sample_rpc [simp]:
  "getAccountInfo sample_connection k s = (Inr (fst (world s) k), s)"
  "getStakeActivation sample_connection k s = (Inr (snd (world s) k), s)"
  by (simp_all add: getAccountInfo_def getStakeActivation_def onWorld_def sample_connection_def)

lemma sample_keys_simps [simp]:
  "toBuffer sample_keys k = le_bytes 32 (unat k)"
  "findProgramAddress sample_keys seeds pid = Inr (pid + of_nat (sum_list (map le_val seeds)))"
  "length bs = 32 \<Longrightarrow> newPublicKey sample_keys bs = Inr (of_nat (le_val bs))"
  "SystemProgram_programId sample_keys = KeyRef 0 4"
  by (simp_all add: sample_keys_def)

lemma sample_keys_wf [simp]: "wf_keys sample_keys"
proof -
  have "(of_nat (unat k mod 256 ^ 32) :: key) = k" for k :: key
  proof -
    have "unat k < 2 ^ 256"
      using unsigned_less [of k, where 'a = nat] by simp
    then show ?thesis by simp
  qed
  then show ?thesis
    by (simp add: wf_keys_def le_val_le_bytes)
qed

end
