(* ===== verification/Onchain_Instructions.thy ===== *)
theory Onchain_Instructions
  imports Tenderize_Instructions Sample_Cluster
begin

text \<open>
  \<open>program/src/instruction.rs\<close>, the on-chain reader of instruction data, and the agreement of the
  TypeScript builders with it: what the client writes is what the program reads. The locale
  \<open>packed_array\<close> is the contract of one packed \<open>repr(C)\<close> element: the client's bytes for it have the
  size the program steps by, and the program reads the element back from them.
\<close>

section \<open>The on-chain reader\<close>

datatype program_error =
    InvalidAccountData
  | InvalidArgument
  | IncorrectProgramId
  | InsufficientFunds
  | NotEnoughAccountKeys
  | MissingRequiredSignature
  | Custom nat
  | Panic

record DelegateReserveInstruction =
  dri_amount :: nat
  dri_stake_index :: nat

record MergeStakesInstruction =
  msi_validator_address :: buffer
  msi_main_index :: nat
  msi_additional_index :: nat

record UnstakeInstruction =
  usi_validator_address :: buffer
  usi_source_index :: nat
  usi_split_index :: nat
  usi_amount :: nat

datatype StakePoolInstruction =
    Initialize (fee_denominator: nat) (fee_numerator: nat)
  | AddValidator
  | RemoveValidator
  | UpdateListBalance
  | UpdatePoolBalance
  | Deposit nat
  | Withdraw nat
  | SetStakingAuthority
  | SetOwner
  | Credit nat
  | Uncredit nat
  | DelegateReserve "DelegateReserveInstruction list"
  | MergeStakes "MergeStakesInstruction list"
  | UnstakeStakes "UnstakeInstruction list"
  | PayCreditors

definition unpack :: "nat \<Rightarrow> buffer \<Rightarrow> program_error + buffer" where
  "unpack sz input =
     (if length input < 1 + sz then Inl InvalidAccountData else Inr (slice input 1 (1 + sz)))"

primrec from_raw_parts :: "nat \<Rightarrow> (buffer \<Rightarrow> 'a) \<Rightarrow> nat \<Rightarrow> buffer \<Rightarrow> 'a list" where
  "from_raw_parts sz f 0 bs = []"
| "from_raw_parts sz f (Suc n) bs = f (take sz bs) # from_raw_parts sz f n (drop sz bs)"

definition read_delegate :: "buffer \<Rightarrow> DelegateReserveInstruction" where
  "read_delegate bs = \<lparr>dri_amount = le_val (slice bs 0 8), dri_stake_index = le_val (slice bs 8 12)\<rparr>"

definition read_merge :: "buffer \<Rightarrow> MergeStakesInstruction" where
  "read_merge bs = \<lparr>msi_validator_address = slice bs 0 32, msi_main_index = le_val (slice bs 32 36),
     msi_additional_index = le_val (slice bs 36 40)\<rparr>"

definition read_unstake :: "buffer \<Rightarrow> UnstakeInstruction" where
  "read_unstake bs = \<lparr>usi_validator_address = slice bs 0 32, usi_source_index = le_val (slice bs 32 36),
     usi_split_index = le_val (slice bs 36 40), usi_amount = le_val (slice bs 40 48)\<rparr>"

text \<open>
  The list cases take the address of byte 5 of the input after the length check. On an empty list
  with no trailing byte that index is out of bounds and the program panics.
\<close>

definition read_list :: "nat \<Rightarrow> (buffer \<Rightarrow> 'a) \<Rightarrow> ('a list \<Rightarrow> StakePoolInstruction) \<Rightarrow> buffer \<Rightarrow>
    program_error + StakePoolInstruction" where
  "read_list sz f C input =
     (case unpack 4 input of
        Inl e \<Rightarrow> Inl e
      | Inr c \<Rightarrow>
          (if length input < 1 + 4 + le_val c * sz then Inl InvalidArgument
           else if length input \<le> 1 + 4 then Inl Panic
           else Inr (C (from_raw_parts sz f (le_val c) (drop (1 + 4) input)))))"

definition read_u64 :: "(nat \<Rightarrow> StakePoolInstruction) \<Rightarrow> buffer \<Rightarrow> program_error + StakePoolInstruction" where
  "read_u64 C input = (case unpack 8 input of Inl e \<Rightarrow> Inl e | Inr v \<Rightarrow> Inr (C (le_val v)))"

definition deserialize_instruction :: "buffer \<Rightarrow> program_error + StakePoolInstruction" where
  "deserialize_instruction input =
     (case input of
        [] \<Rightarrow> Inl InvalidAccountData
      | tag # _ \<Rightarrow>
          (if tag = 0 then
             (case unpack 16 input of
                Inl e \<Rightarrow> Inl e
              | Inr v \<Rightarrow> Inr (Initialize (le_val (slice v 0 8)) (le_val (slice v 8 16))))
           else if tag = 2 then Inr AddValidator
           else if tag = 3 then Inr RemoveValidator
           else if tag = 4 then Inr UpdateListBalance
           else if tag = 5 then Inr UpdatePoolBalance
           else if tag = 6 then read_u64 Deposit input
           else if tag = 7 then read_u64 Withdraw input
           else if tag = 8 then Inr SetStakingAuthority
           else if tag = 9 then Inr SetOwner
           else if tag = 10 then read_u64 Credit input
           else if tag = 11 then read_u64 Uncredit input
           else if tag = 12 then read_list 12 read_delegate DelegateReserve input
           else if tag = 13 then read_list 40 read_merge MergeStakes input
           else if tag = 14 then read_list 48 read_unstake UnstakeStakes input
           else if tag = 15 then Inr PayCreditors
           else Inl InvalidAccountData))"

section \<open>Hypotheses on the keys, and what the client puts in\<close>

text \<open>Program addresses can be found: \<open>findProgramAddress\<close> throws only when no bump seed works.\<close>

definition derivable :: "'k keylib \<Rightarrow> bool" where
  "derivable K \<longleftrightarrow> (\<forall>seeds pid. \<exists>k. findProgramAddress K seeds pid = Inr k)"

definition delegate_bytes :: "'k DepositReserveValidatorParam \<Rightarrow> buffer" where
  "delegate_bytes v = le_bytes 8 (nat \<lfloor>dr_amount v\<rfloor>) @ le_bytes 4 (dr_stakeIndex v)"

definition delegate_ok :: "'k DepositReserveValidatorParam \<Rightarrow> bool" where
  "delegate_ok v \<longleftrightarrow> dr_amount v = of_int \<lfloor>dr_amount v\<rfloor> \<and> 0 \<le> dr_amount v \<and> dr_amount v < 2 ^ 64 \<and>
     dr_stakeIndex v < 2 ^ 32"

definition delegate_view :: "'k DepositReserveValidatorParam \<Rightarrow> DelegateReserveInstruction" where
  "delegate_view v = \<lparr>dri_amount = nat \<lfloor>dr_amount v\<rfloor>, dri_stake_index = dr_stakeIndex v\<rparr>"

definition merge_bytes :: "'k keylib \<Rightarrow> 'k StakePair \<Rightarrow> buffer" where
  "merge_bytes K sp = toBuffer K (sp_validator sp) @ le_bytes 4 (mainIndex sp) @ le_bytes 4 (additionalIndex sp)"

definition merge_ok :: "'k keylib \<Rightarrow> 'k StakePair \<Rightarrow> bool" where
  "merge_ok K sp \<longleftrightarrow> length (toBuffer K (sp_validator sp)) = 32 \<and> mainIndex sp < 2 ^ 32 \<and> additionalIndex sp < 2 ^ 32"

definition merge_view :: "'k keylib \<Rightarrow> 'k StakePair \<Rightarrow> MergeStakesInstruction" where
  "merge_view K sp = \<lparr>msi_validator_address = toBuffer K (sp_validator sp),
     msi_main_index = mainIndex sp, msi_additional_index = additionalIndex sp\<rparr>"

definition unstake_bytes :: "'k keylib \<Rightarrow> 'k Unstake \<Rightarrow> buffer" where
  "unstake_bytes K u = toBuffer K (us_validator u) @ le_bytes 4 (sourceIndex u) @
     le_bytes 4 (encodedSplitIndex u) @ le_bytes 8 (nat \<lfloor>encodedAmount u\<rfloor>)"

definition unstake_ok :: "'k keylib \<Rightarrow> 'k Unstake \<Rightarrow> bool" where
  "unstake_ok K u \<longleftrightarrow> length (toBuffer K (us_validator u)) = 32 \<and> sourceIndex u < 2 ^ 32 \<and> encodedSplitIndex u < 2 ^ 32 \<and>
     encodedAmount u = of_int \<lfloor>encodedAmount u\<rfloor> \<and> 0 \<le> encodedAmount u \<and> encodedAmount u < 2 ^ 64"

definition unstake_view :: "'k keylib \<Rightarrow> 'k Unstake \<Rightarrow> UnstakeInstruction" where
  "unstake_view K u = \<lparr>usi_validator_address = toBuffer K (us_validator u),
     usi_source_index = sourceIndex u, usi_split_index = encodedSplitIndex u,
     usi_amount = nat \<lfloor>encodedAmount u\<rfloor>\<rparr>"

definition stakeAddr :: "'k keylib \<Rightarrow> 'k TenderizeProgram \<Rightarrow> 'k \<Rightarrow> nat \<Rightarrow> 'k" where
  "stakeAddr K P v i = projr (getStakeForValidator K P v i)"

definition delegate_metas ::
  "'k keylib \<Rightarrow> 'k TenderizeProgram \<Rightarrow> 'k DepositReserveValidatorParam \<Rightarrow> 'k account_meta list" where
  "delegate_metas K P v =
     [meta (address v) False False, meta (stakeAddr K P (address v) (dr_stakeIndex v)) False True]"

definition merge_metas :: "'k keylib \<Rightarrow> 'k TenderizeProgram \<Rightarrow> 'k StakePair \<Rightarrow> 'k account_meta list" where
  "merge_metas K P sp =
     [meta (stakeAddr K P (sp_validator sp) (mainIndex sp)) False True,
      meta (stakeAddr K P (sp_validator sp) (additionalIndex sp)) False True]"

text \<open>One account for a whole stake, two for a split: as many as the program takes for the indices it reads.\<close>

definition unstake_metas :: "'k keylib \<Rightarrow> 'k TenderizeProgram \<Rightarrow> 'k Unstake \<Rightarrow> 'k account_meta list" where
  "unstake_metas K P u =
     meta (stakeAddr K P (us_validator u) (sourceIndex u)) False True #
     (case truthyIndex (splitIndex u) of
        None \<Rightarrow> []
      | Some i \<Rightarrow> [meta (stakeAddr K P (us_validator u) i) False True])"

section \<open>Packed arrays\<close>

locale packed_array =
  fixes sz :: nat
    and ok :: "'a \<Rightarrow> bool"
    and bytes :: "'a \<Rightarrow> buffer"
    and parse :: "buffer \<Rightarrow> 'b"
    and view :: "'a \<Rightarrow> 'b"
    and con :: "'b list \<Rightarrow> StakePoolInstruction"
  assumes length_bytes: "ok x \<Longrightarrow> length (bytes x) = sz"
    and parse_bytes: "ok x \<Longrightarrow> parse (bytes x) = view x"
    and sz_pos: "0 < sz"
begin

lemma length_concat_bytes: "list_all ok xs \<Longrightarrow> length (concat (map bytes xs)) = sz * length xs"
  by (induction xs) (simp_all add: length_bytes)

lemma from_raw_parts_concat:
  "list_all ok xs \<Longrightarrow> from_raw_parts sz parse (length xs) (concat (map bytes xs) @ rest) = map view xs"
  by (induction xs) (simp_all add: length_bytes parse_bytes)

lemma read_list_written:
  assumes "list_all ok xs" "xs \<noteq> []" "length xs < 2 ^ 32"
  shows "read_list sz parse con (tag # le_bytes 4 (length xs) @ concat (map bytes xs)) =
    Inr (con (map view xs))"
proof -
  have len: "le_val (le_bytes 4 (length xs)) = length xs"
    using assms(3) by (simp add: le_val_le_bytes)
  have "0 < sz * length xs"
    using assms(2) sz_pos by simp
  then show ?thesis
    using from_raw_parts_concat [OF assms(1), of "[]"] length_concat_bytes [OF assms(1)]
    by (simp add: read_list_def unpack_def slice_def len mult.commute)
qed

lemma read_list_empty: "read_list sz parse con (tag # le_bytes 4 0) = Inl Panic"
  by (simp add: read_list_def unpack_def slice_def le_val_le_bytes)

end

lemma slice_append_left: "b \<le> length xs \<Longrightarrow> slice (xs @ ys) a b = slice xs a b"
  by (cases "a \<le> b") (simp_all add: slice_def)

lemma slice_all: "length xs = n \<Longrightarrow> slice xs 0 n = xs"
  by (simp add: slice_def)

lemmas slice_simps = slice_append_left slice_append slice_all le_val_le_bytes

interpretation delegate: packed_array 12 delegate_ok delegate_bytes read_delegate delegate_view DelegateReserve
proof unfold_locales
  fix v :: "'k DepositReserveValidatorParam"
  assume ok: "delegate_ok v"
  then have "nat \<lfloor>dr_amount v\<rfloor> < 2 ^ 64"
    by (simp add: delegate_ok_def nat_less_iff floor_less_iff)
  with ok show "read_delegate (delegate_bytes v) = delegate_view v"
    by (simp add: read_delegate_def delegate_bytes_def delegate_view_def delegate_ok_def slice_simps)
qed (simp_all add: delegate_bytes_def)

interpretation merge: packed_array 40 "merge_ok K" "merge_bytes K" read_merge "merge_view K" MergeStakes for K
  by unfold_locales
    (simp_all add: merge_ok_def merge_bytes_def merge_view_def read_merge_def slice_simps)

interpretation unstake: packed_array 48 "unstake_ok K" "unstake_bytes K" read_unstake "unstake_view K" UnstakeStakes
  for K :: "'k keylib"
proof unfold_locales
  fix u :: "'k Unstake"
  assume ok: "unstake_ok K u"
  then have "nat \<lfloor>encodedAmount u\<rfloor> < 2 ^ 64"
    by (simp add: unstake_ok_def nat_less_iff floor_less_iff)
  with ok show "read_unstake (unstake_bytes K u) = unstake_view K u"
    by (simp add: read_unstake_def unstake_bytes_def unstake_view_def unstake_ok_def slice_simps)
qed (simp_all add: unstake_ok_def unstake_bytes_def)

section \<open>The builders write what the program reads\<close>

lemma stakeFor_ok:
  assumes "derivable K" "i < 2 ^ 32"
  shows "getStakeForValidator K P v i = Inr (stakeAddr K P v i)"
proof -
  have "writeUInt32LE (alloc 4) (int i) 0 = Inr (le_bytes 4 i, 4)"
    using u32.write_tail [of "int i" 4 0 "[]"] assms(2) by (simp add: alloc_def)
  moreover obtain k where
    "findProgramAddress K [toBuffer K v, toBuffer K (stakePool P), le_bytes 4 i] (programAccount P) = Inr k"
    using assms(1) by (auto simp: derivable_def)
  ultimately show ?thesis
    by (simp add: stakeAddr_def getStakeForValidator_def)
qed

lemma authorities_ok:
  assumes "derivable K"
  obtains r d w where "getReserveAddress K P = Inr r" "getDepositAuthority K P = Inr d"
    "getWithdrawAuthority K P = Inr w"
  using assms unfolding derivable_def getReserveAddress_def getDepositAuthority_def getWithdrawAuthority_def
  by metis

lemma delegateReserveLoop_ok:
  assumes "derivable K" "list_all delegate_ok vs"
  shows "delegateReserveLoop K P vs (w @ alloc (12 * length vs)) (length w) ks =
    Inr (w @ concat (map delegate_bytes vs), ks @ concat (map (delegate_metas K P) vs))"
  using assms(2)
proof (induction vs arbitrary: w ks)
  case Nil
  then show ?case by (simp add: alloc_def)
next
  case (Cons v vs)
  have v: "delegate_ok v" and vs: "list_all delegate_ok vs"
    using Cons.prems by simp_all
  define a where "a = \<lfloor>dr_amount v\<rfloor>"
  have a: "dr_amount v = of_int a" "0 \<le> a \<and> a < 2 ^ 64"
    using v by (simp_all add: delegate_ok_def a_def floor_less_iff)
  have i: "dr_stakeIndex v < 2 ^ 32"
    using v by (simp add: delegate_ok_def)
  have w1: "writeBigUInt64LE (w @ alloc (12 + 12 * length vs)) a (length w) =
      Inr (w @ le_bytes 8 (nat a) @ alloc (4 + 12 * length vs), length w + 8)"
    using u64.write_tail [of a "12 + 12 * length vs" "length w" w] a(2) by simp
  have w2: "writeUInt32LE (w @ le_bytes 8 (nat a) @ alloc (4 + 12 * length vs)) (int (dr_stakeIndex v)) (length w + 8) =
      Inr (w @ delegate_bytes v @ alloc (12 * length vs), length w + 12)"
    using u32.write_tail [of "int (dr_stakeIndex v)" "4 + 12 * length vs" "length w + 8" "w @ le_bytes 8 (nat a)"] i
    by (simp add: delegate_bytes_def a_def)
  have "delegateReserveLoop K P vs (w @ delegate_bytes v @ alloc (12 * length vs)) (length w + 12)
      (ks @ delegate_metas K P v) =
    Inr (w @ delegate_bytes v @ concat (map delegate_bytes vs),
      (ks @ delegate_metas K P v) @ concat (map (delegate_metas K P) vs))"
    using Cons.IH [OF vs, of "w @ delegate_bytes v" "ks @ delegate_metas K P v"] delegate.length_bytes [OF v]
    by simp
  then show ?case
    by (simp add: a(1) w1 w2 stakeFor_ok [OF assms(1) i] delegate_metas_def [of K P v])
qed

lemma copy_key_tail:
  "length (toBuffer K k) = 32 \<Longrightarrow> 32 \<le> n \<Longrightarrow> copy_to (toBuffer K k) (w @ alloc n) (length w) =
     ((w @ toBuffer K k) @ alloc (n - 32), 32)"
  by (simp add: copy_to_tail)

lemma mergeStakesLoop_ok:
  assumes "derivable K" "list_all (merge_ok K) sps"
  shows "mergeStakesLoop K P sps (w @ alloc (40 * length sps)) (length w) ks =
    Inr (w @ concat (map (merge_bytes K) sps), ks @ concat (map (merge_metas K P) sps))"
  using assms(2)
proof (induction sps arbitrary: w ks)
  case Nil
  then show ?case by (simp add: alloc_def)
next
  case (Cons sp sps)
  have sp: "merge_ok K sp" and sps: "list_all (merge_ok K) sps"
    using Cons.prems by simp_all
  then have k: "length (toBuffer K (sp_validator sp)) = 32"
    and m: "mainIndex sp < 2 ^ 32" and a: "additionalIndex sp < 2 ^ 32"
    by (simp_all only: merge_ok_def)
  let ?n = "40 * length sps" and ?key = "toBuffer K (sp_validator sp)"
  have c: "copy_to ?key (w @ alloc (40 + ?n)) (length w) = (w @ ?key @ alloc (8 + ?n), 32)"
    using copy_key_tail [OF k, of "40 + ?n" w] by simp
  have w1: "writeUInt32LE (w @ ?key @ alloc (8 + ?n)) (int (mainIndex sp)) (length w + 32) =
      Inr (w @ ?key @ le_bytes 4 (mainIndex sp) @ alloc (4 + ?n), length w + 36)"
    using u32.write_tail [of "int (mainIndex sp)" "8 + ?n" "length w + 32" "w @ ?key"] m k by simp
  have w2: "writeUInt32LE (w @ ?key @ le_bytes 4 (mainIndex sp) @ alloc (4 + ?n)) (int (additionalIndex sp)) (length w + 36) =
      Inr (w @ merge_bytes K sp @ alloc ?n, length w + 40)"
    using u32.write_tail [of "int (additionalIndex sp)" "4 + ?n" "length w + 36" "w @ ?key @ le_bytes 4 (mainIndex sp)"] a k
    by (simp add: merge_bytes_def)
  have "mergeStakesLoop K P sps (w @ merge_bytes K sp @ alloc ?n) (length w + 40) (ks @ merge_metas K P sp) =
    Inr (w @ merge_bytes K sp @ concat (map (merge_bytes K) sps),
      (ks @ merge_metas K P sp) @ concat (map (merge_metas K P) sps))"
    using Cons.IH [OF sps, of "w @ merge_bytes K sp" "ks @ merge_metas K P sp"] merge.length_bytes [OF sp]
    by simp
  then show ?case
    by (simp add: c w1 w2 stakeFor_ok [OF assms(1) m] stakeFor_ok [OF assms(1) a] merge_metas_def [of K P sp])
qed

lemma truthyIndex_bound: "unstake_ok K u \<Longrightarrow> truthyIndex (splitIndex u) = Some i \<Longrightarrow> i < 2 ^ 32"
  by (simp add: unstake_ok_def encodedSplitIndex_def)

lemma unstakeLoop_ok:
  assumes "derivable K" "list_all (unstake_ok K) us"
  shows "unstakeLoop K P us (w @ alloc (48 * length us)) (length w) ks =
    Inr (w @ concat (map (unstake_bytes K) us), ks @ concat (map (unstake_metas K P) us))"
  using assms(2)
proof (induction us arbitrary: w ks)
  case Nil
  then show ?case by (simp add: alloc_def)
next
  case (Cons u us)
  have u: "unstake_ok K u" and us: "list_all (unstake_ok K) us"
    using Cons.prems by simp_all
  define a where "a = \<lfloor>encodedAmount u\<rfloor>"
  have k: "length (toBuffer K (us_validator u)) = 32" and s: "sourceIndex u < 2 ^ 32"
    and sp: "encodedSplitIndex u < 2 ^ 32" and a: "encodedAmount u = of_int a" "0 \<le> a \<and> a < 2 ^ 64"
    using u by (simp_all add: unstake_ok_def a_def floor_less_iff)
  let ?n = "48 * length us" and ?key = "toBuffer K (us_validator u)"
  have c: "copy_to ?key (w @ alloc (48 + ?n)) (length w) = (w @ ?key @ alloc (16 + ?n), 32)"
    using copy_key_tail [OF k, of "48 + ?n" w] by simp
  have w1: "writeUInt32LE (w @ ?key @ alloc (16 + ?n)) (int (sourceIndex u)) (length w + 32) =
      Inr (w @ ?key @ le_bytes 4 (sourceIndex u) @ alloc (12 + ?n), length w + 36)"
    using u32.write_tail [of "int (sourceIndex u)" "16 + ?n" "length w + 32" "w @ ?key"] s k by simp
  have w2: "writeUInt32LE (w @ ?key @ le_bytes 4 (sourceIndex u) @ alloc (12 + ?n)) (int (encodedSplitIndex u)) (length w + 36) =
      Inr (w @ ?key @ le_bytes 4 (sourceIndex u) @ le_bytes 4 (encodedSplitIndex u) @ alloc (8 + ?n), length w + 40)"
    using u32.write_tail [of "int (encodedSplitIndex u)" "12 + ?n" "length w + 36" "w @ ?key @ le_bytes 4 (sourceIndex u)"] sp k
    by simp
  have w3: "writeBigUInt64LE (w @ ?key @ le_bytes 4 (sourceIndex u) @ le_bytes 4 (encodedSplitIndex u) @ alloc (8 + ?n)) a (length w + 40) =
      Inr (w @ unstake_bytes K u @ alloc ?n, length w + 48)"
    using u64.write_tail [of a "8 + ?n" "length w + 40" "w @ ?key @ le_bytes 4 (sourceIndex u) @ le_bytes 4 (encodedSplitIndex u)"] a(2) k
    by (simp add: unstake_bytes_def a_def)
  have IH: "unstakeLoop K P us (w @ unstake_bytes K u @ alloc ?n) (length w + 48) (ks @ unstake_metas K P u) =
    Inr (w @ unstake_bytes K u @ concat (map (unstake_bytes K) us),
      (ks @ unstake_metas K P u) @ concat (map (unstake_metas K P) us))"
    using Cons.IH [OF us, of "w @ unstake_bytes K u" "ks @ unstake_metas K P u"] unstake.length_bytes [OF u]
    by simp
  show ?case
  proof (cases "truthyIndex (splitIndex u)")
    case None
    with IH show ?thesis
      by (simp add: c w1 w2 w3 a(1) stakeFor_ok [OF assms(1) s] unstake_metas_def [of K P u])
  next
    case (Some i)
    then have i: "i < 2 ^ 32"
      by (rule truthyIndex_bound [OF u])
    show ?thesis
      using Some IH
      by (simp add: c w1 w2 w3 a(1) stakeFor_ok [OF assms(1) s] stakeFor_ok [OF assms(1) i] unstake_metas_def [of K P u])
  qed
qed

lemma le_bytes_1: "v < 256 \<Longrightarrow> le_bytes 1 v = [of_nat v]"
  by simp

lemma tag_ok: "0 \<le> tag \<Longrightarrow> tag < 256 \<Longrightarrow> writeUInt8 (alloc (1 + n)) tag 0 = Inr (of_int tag # alloc n, 1)"
  using u8.write_tail [of tag "1 + n" 0 "[]"] le_bytes_1 [of "nat tag"]
  by (simp add: nat_less_iff)

lemma count_ok: "n < 2 ^ 32 \<Longrightarrow> writeUInt32LE (tag # alloc (4 + m)) (int n) 1 = Inr ((tag # le_bytes 4 n) @ alloc m, 5)"
  using u32.write_tail [of "int n" "4 + m" 1 "[tag]"] by simp

lemma delegateReserveInstruction_ok:
  assumes "derivable K" "list_all delegate_ok vs" "length vs < 2 ^ 32"
  shows "\<exists>ix. delegateReserveInstruction K P vs = Inr ix \<and>
    data ix = 12 # le_bytes 4 (length vs) @ concat (map delegate_bytes vs) \<and>
    length (keys ix) = 12 + 2 * length vs \<and> drop 12 (keys ix) = concat (map (delegate_metas K P) vs)"
proof -
  obtain r d w where "getReserveAddress K P = Inr r" "getDepositAuthority K P = Inr d"
    "getWithdrawAuthority K P = Inr w"
    using authorities_ok [OF assms(1)] .
  moreover have "length (concat (map (delegate_metas K P) vs)) = 2 * length vs"
    by (induction vs) (simp_all add: delegate_metas_def)
  ultimately show ?thesis
    using delegateReserveLoop_ok [OF assms(1,2), of P "12 # le_bytes 4 (length vs)"]
      tag_ok [of 12 "4 + 12 * length vs"] count_ok [OF assms(3), of 12 "12 * length vs"]
    by (simp add: delegateReserveInstruction_def add.assoc)
qed

lemma mergeStakesInstruction_ok:
  assumes "derivable K" "list_all (merge_ok K) sps" "length sps < 2 ^ 32"
  shows "\<exists>ix. mergeStakesInstruction K P sps = Inr ix \<and>
    data ix = 13 # le_bytes 4 (length sps) @ concat (map (merge_bytes K) sps) \<and>
    drop 6 (keys ix) = concat (map (merge_metas K P) sps)"
proof -
  obtain r d w where "getReserveAddress K P = Inr r" "getDepositAuthority K P = Inr d"
    "getWithdrawAuthority K P = Inr w"
    using authorities_ok [OF assms(1)] .
  then show ?thesis
    using mergeStakesLoop_ok [OF assms(1,2), of P "13 # le_bytes 4 (length sps)"]
      tag_ok [of 13 "4 + 40 * length sps"] count_ok [OF assms(3), of 13 "40 * length sps"]
    by (simp add: mergeStakesInstruction_def add.assoc)
qed

lemma unstakeInstruction_ok:
  assumes "derivable K" "list_all (unstake_ok K) us" "length us < 2 ^ 32"
  shows "\<exists>ix. unstakeInstruction K P us = Inr ix \<and>
    data ix = 14 # le_bytes 4 (length us) @ concat (map (unstake_bytes K) us) \<and>
    drop 9 (keys ix) = concat (map (unstake_metas K P) us)"
proof -
  obtain r d w where "getReserveAddress K P = Inr r" "getDepositAuthority K P = Inr d"
    "getWithdrawAuthority K P = Inr w"
    using authorities_ok [OF assms(1)] .
  then show ?thesis
    using unstakeLoop_ok [OF assms(1,2), of P "14 # le_bytes 4 (length us)"]
      tag_ok [of 14 "4 + 48 * length us"] count_ok [OF assms(3), of 14 "48 * length us"]
    by (simp add: unstakeInstruction_def add.assoc)
qed

lemma amount_bytes_ok:
  assumes "0 \<le> tag" "tag < 256" "- (2 ^ 63) \<le> a" "a < 2 ^ 63"
  shows "bindE (writeUInt8 (alloc 9) tag 0) (\<lambda>(d, p). bindE (writeBigInt64LE d a p) (F d p)) =
    F (of_int tag # alloc 8) 1 (of_int tag # le_bytes 8 (nat (a mod 2 ^ 64)), 9)"
proof -
  have "writeBigInt64LE (of_int tag # alloc 8) a 1 = Inr (of_int tag # le_bytes 8 (nat (a mod 2 ^ 64)), 9)"
    using i64.write_tail [of a 8 1 "[of_int tag]"] assms(3,4) by (simp add: alloc_def)
  then show ?thesis
    using tag_ok [of tag 8] assms(1,2) by simp
qed

lemma amount_bytes_bad:
  assumes "0 \<le> tag" "tag < 256" "\<not> (\<exists>a. x = of_int a) \<or> x < - (2 ^ 63) \<or> x \<ge> 2 ^ 63"
  shows "bindE (writeUInt8 (alloc 9) tag 0) (\<lambda>(d, p).
    bindE (BigInt x) (\<lambda>a. bindE (writeBigInt64LE d a p) (F d p))) = Inl RangeError"
proof (cases "\<exists>a. x = of_int a")
  case True
  then obtain a where a: "x = of_int a"
    by blast
  then have "a < - (2 ^ 63) \<or> a \<ge> 2 ^ 63"
    using assms(3) by auto
  then have "\<not> (- (2 ^ 63) \<le> a \<and> a < 2 ^ 63)"
    by auto
  then show ?thesis
    using assms(1,2) a tag_ok [of tag 8] by (auto simp: i64.put_cases)
next
  case False
  then have "BigInt x = Inl RangeError"
    by (auto simp: BigInt_def)
  then show ?thesis
    using assms(1,2) tag_ok [of tag 8] by simp
qed

lemma read_u64_written: "v < 2 ^ 64 \<Longrightarrow> read_u64 C (tag # le_bytes 8 v) = Inr (C v)"
  by (simp add: read_u64_def unpack_def slice_def le_val_le_bytes)

lemma derivable_sample [simp]: "derivable sample_keys"
  by (simp add: derivable_def)

section \<open>Properties\<close>



text \<open>
  C21. Merge requests survive the wire: for 32-byte keys the program reads back the validator and
  both stake indices of every pair, and finds the two stake accounts of each pair in order.
\<close>

theorem mergeStakes_roundtrip:
  assumes "derivable K" "sps \<noteq> []" "length sps < 2 ^ 32" "list_all (merge_ok K) sps"
  shows "\<exists>ix. mergeStakesInstruction K P sps = Inr ix \<and>
    deserialize_instruction (data ix) = Inr (MergeStakes (map (merge_view K) sps)) \<and>
    drop 6 (keys ix) = concat (map (merge_metas K P) sps)"
  using mergeStakesInstruction_ok [OF assms(1,4,3), of P]
    merge.read_list_written [OF assms(4,2,3), of 13]
  by (auto simp: deserialize_instruction_def)

theorem mergeStakes_roundtrip_witness:
  "\<exists>ix. mergeStakesInstruction sample_keys sample_program [\<lparr>sp_validator = 7, mainIndex = 0, additionalIndex = 2\<rparr>] = Inr ix \<and>
    deserialize_instruction (data ix) = Inr (MergeStakes
      [\<lparr>msi_validator_address = le_bytes 32 7, msi_main_index = 0, msi_additional_index = 2\<rparr>])"
  using mergeStakes_roundtrip [of sample_keys "[\<lparr>sp_validator = 7, mainIndex = 0, additionalIndex = 2\<rparr>]" sample_program]
  by (auto simp: merge_ok_def merge_view_def)

text \<open>
  C22. Unstake requests survive the wire: the program reads back the validator, the source index, the
  effective split index and the amount of every request, with its one or two stake accounts in order.
\<close>

theorem unstake_roundtrip:
  assumes "derivable K" "us \<noteq> []" "length us < 2 ^ 32" "list_all (unstake_ok K) us"
  shows "\<exists>ix. unstakeInstruction K P us = Inr ix \<and>
    deserialize_instruction (data ix) = Inr (UnstakeStakes (map (unstake_view K) us)) \<and>
    drop 9 (keys ix) = concat (map (unstake_metas K P) us)"
  using unstakeInstruction_ok [OF assms(1,4,3), of P]
    unstake.read_list_written [OF assms(4,2,3), of 14]
  by (auto simp: deserialize_instruction_def)

theorem unstake_roundtrip_witness:
  "\<exists>ix. unstakeInstruction sample_keys sample_program
      [\<lparr>us_validator = 7, sourceIndex = 0, splitIndex = Some 3, us_amount = Some 500\<rparr>] = Inr ix \<and>
    deserialize_instruction (data ix) = Inr (UnstakeStakes
      [\<lparr>usi_validator_address = le_bytes 32 7, usi_source_index = 0, usi_split_index = 3, usi_amount = 500\<rparr>])"
  using unstake_roundtrip [of sample_keys
    "[\<lparr>us_validator = 7, sourceIndex = 0, splitIndex = Some 3, us_amount = Some 500\<rparr>]" sample_program]
  by (auto simp: unstake_ok_def unstake_view_def encodedSplitIndex_def encodedAmount_def truthyIndex_def)

text \<open>
  Deposits and withdrawals survive the wire: for every whole number of lamports below \<open>2 ^ 63\<close> the
  program reads the instruction and the amount the client was asked for.
\<close>

lemma deposit_withdraw_roundtrip:
  assumes "derivable K" "0 \<le> a" "a < 2 ^ 63"
  shows "(\<exists>ix. depositInstruction K P \<lparr>userSource = u, dep_amount = of_int a, userToken = t\<rparr> = Inr ix \<and>
      deserialize_instruction (data ix) = Inr (Deposit (nat a))) \<and>
    (\<exists>ix. withdrawInstruction K P \<lparr>wd_userTokenSource = u, wd_amount = of_int a, wd_userSolTarget = t\<rparr> = Inr ix \<and>
      deserialize_instruction (data ix) = Inr (Withdraw (nat a)))"
proof -
  obtain r d w where "getReserveAddress K P = Inr r" "getDepositAuthority K P = Inr d"
    "getWithdrawAuthority K P = Inr w"
    using authorities_ok [OF assms(1)] .
  then show ?thesis
    using assms(2,3) by (simp add: depositInstruction_def withdrawInstruction_def amount_bytes_ok
      deserialize_instruction_def read_u64_written)
qed

lemma deposit_withdraw_roundtrip_witness:
  "\<exists>ix. depositInstruction sample_keys sample_program \<lparr>userSource = 20, dep_amount = of_int 1500000000, userToken = 21\<rparr> = Inr ix \<and>
    deserialize_instruction (data ix) = Inr (Deposit (nat 1500000000))"
  using deposit_withdraw_roundtrip [of sample_keys 1500000000 sample_program 20 21] by simp

text \<open>
  The sign of a credit selects the instruction: a non-negative amount is read by the program as a
  credit of that amount with a read-only authority, a negative one as the cancellation of its absolute
  value with the authority as signer.
\<close>

lemma credit_roundtrip:
  assumes "derivable K" "\<bar>a\<bar> < 2 ^ 63"
  shows "\<exists>ix. creditInstruction K P \<lparr>cr_userTokenSource = u, cr_amount = of_int a, cr_userSolTarget = t,
        cancelAuthority = (if 0 \<le> a then AsPublicKey c else AsAccount c)\<rparr> = Inr ix \<and>
      deserialize_instruction (data ix) = Inr (if 0 \<le> a then Credit (nat a) else Uncredit (nat (- a))) \<and>
      keys ix ! 6 = meta c (a < 0) False"
proof -
  obtain r d w where "getReserveAddress K P = Inr r" "getDepositAuthority K P = Inr d"
    "getWithdrawAuthority K P = Inr w"
    using authorities_ok [OF assms(1)] .
  moreover have "BigInt \<bar>of_int a\<bar> = Inr \<bar>a\<bar>"
    using BigInt_of_int [of "\<bar>a\<bar>"] by simp
  ultimately show ?thesis
    using assms(2) by (cases "0 \<le> a") (simp_all add: creditInstruction_def creditAuthority_def
      amount_bytes_ok deserialize_instruction_def read_u64_written)
qed

lemma credit_roundtrip_witness:
  "\<exists>ix. creditInstruction sample_keys sample_program \<lparr>cr_userTokenSource = 20, cr_amount = - 700, cr_userSolTarget = 21,
      cancelAuthority = AsAccount 22\<rparr> = Inr ix \<and>
    deserialize_instruction (data ix) = Inr (Uncredit 700) \<and> keys ix ! 6 = meta 22 True False"
  using credit_roundtrip [of sample_keys "- 700" sample_program 20 21 22] by simp

text \<open>
  No money is moved by a malformed amount: for a fractional number of lamports, or one
  outside the signed 64-bit range, both builders throw a RangeError, and no instruction results.
\<close>

lemma malformed_amount_rejected:
  assumes "\<not> (\<exists>a. x = of_int a) \<or> x < - (2 ^ 63) \<or> x \<ge> 2 ^ 63"
  shows "depositInstruction K P \<lparr>userSource = u, dep_amount = x, userToken = t\<rparr> = Inl RangeError \<and>
    withdrawInstruction K P \<lparr>wd_userTokenSource = u, wd_amount = x, wd_userSolTarget = t\<rparr> = Inl RangeError"
  by (simp add: depositInstruction_def withdrawInstruction_def amount_bytes_bad [OF _ _ assms])

lemma malformed_amount_rejected_witness:
  "depositInstruction sample_keys sample_program \<lparr>userSource = 20, dep_amount = 9223372036854775808, userToken = 21\<rparr> = Inl RangeError"
  using malformed_amount_rejected [of 9223372036854775808 sample_keys sample_program 20 21] by simp

text \<open>
  A negative deposit or withdrawal is not caught by the client: the amount is written as a signed
  number and read by the program as the unsigned number \<open>2 ^ 64 + a\<close>.
\<close>

lemma negative_amount_wraps:
  assumes "derivable K" "- (2 ^ 63) \<le> a" "a < 0"
  shows "(\<exists>ix. depositInstruction K P \<lparr>userSource = u, dep_amount = of_int a, userToken = t\<rparr> = Inr ix \<and>
      deserialize_instruction (data ix) = Inr (Deposit (nat (2 ^ 64 + a)))) \<and>
    (\<exists>ix. withdrawInstruction K P \<lparr>wd_userTokenSource = u, wd_amount = of_int a, wd_userSolTarget = t\<rparr> = Inr ix \<and>
      deserialize_instruction (data ix) = Inr (Withdraw (nat (2 ^ 64 + a))))"
proof -
  obtain r d w where "getReserveAddress K P = Inr r" "getDepositAuthority K P = Inr d"
    "getWithdrawAuthority K P = Inr w"
    using authorities_ok [OF assms(1)] .
  moreover have "a mod 2 ^ 64 = 2 ^ 64 + a"
  proof -
    have "(2 ^ 64 + a) mod 2 ^ 64 = 2 ^ 64 + a"
      using assms(2,3) by (intro mod_pos_pos_trivial) simp_all
    then show ?thesis
      using mod_add_self1 [of "2 ^ 64" a] by metis
  qed
  ultimately show ?thesis
    using assms(2,3) by (simp add: depositInstruction_def withdrawInstruction_def amount_bytes_ok
      deserialize_instruction_def read_u64_written nat_less_iff)
qed

lemma negative_amount_wraps_witness:
  "\<exists>ix. depositInstruction sample_keys sample_program \<lparr>userSource = 20, dep_amount = - 1, userToken = 21\<rparr> = Inr ix \<and>
    deserialize_instruction (data ix) = Inr (Deposit 18446744073709551615)"
  using negative_amount_wraps [of sample_keys "- 1" sample_program 20 21] by simp

end
