(* ===== verification/Onchain_Layout.thy ===== *)
theory Onchain_Layout
  imports Onchain_Instructions
begin

text \<open>
  \<open>program/src/state.rs\<close>: the accounts of the pool as the program stores them. Structures are
  \<open>repr(C)\<close>: fields in order, 64-bit fields on 8-byte offsets, so that \<open>StakePool\<close> has 5 bytes of
  padding before \<open>stake_total\<close> and \<open>ValidatorStakeInfo\<close> has 4 at its end. What a store leaves in the
  padding is unspecified and an argument of the definitions here. The locale \<open>record_codec\<close> is the
  contract of one stored record; a list of records is stored behind a 3-byte header.
\<close>

section \<open>Records\<close>

record StakePool =
  pool_version :: nat
  pool_owner :: buffer
  deposit_bump_seed :: nat
  withdraw_bump_seed :: nat
  pool_validator_stake_list :: buffer
  pool_credit_list :: buffer
  pool_mint :: buffer
  owner_fee_account :: buffer
  pool_credit_reserve :: buffer
  token_program_id :: buffer
  stake_total :: nat
  pool_total :: nat
  pool_last_update_epoch :: nat
  pool_fee_denominator :: nat
  pool_fee_numerator :: nat

record ValidatorStakeInfo =
  validator_account :: buffer
  vsi_balance :: nat
  vsi_last_update_epoch :: nat
  stake_count :: nat

record CreditRecord =
  sol_target :: buffer
  crd_cancel_authority :: buffer
  token_amount :: nat

record ValidatorStakeList =
  vsl_version :: nat
  validators :: "ValidatorStakeInfo list"

record CreditList =
  cl_version :: nat
  credits :: "CreditRecord list"

definition StakePool_LEN :: nat where "StakePool_LEN = 272"

definition ValidatorStakeInfo_LEN :: nat where "ValidatorStakeInfo_LEN = 56"

definition CreditRecord_LEN :: nat where "CreditRecord_LEN = 72"

definition MAX_VALIDATORS :: nat where "MAX_VALIDATORS = 100"

definition MAX_CREDIT_RECORDS :: nat where "MAX_CREDIT_RECORDS = 1000"

definition ValidatorStakeList_LEN :: nat where
  "ValidatorStakeList_LEN = 3 + ValidatorStakeInfo_LEN * MAX_VALIDATORS"

definition CreditList_LEN :: nat where
  "CreditList_LEN = 3 + CreditRecord_LEN * MAX_CREDIT_RECORDS"

text \<open>The program's own minimum for a stake account, a tenth of the client's.\<close>

definition onchain_MIN_STAKE_ACCOUNT_BALANCE :: nat where
  "onchain_MIN_STAKE_ACCOUNT_BALANCE = 100000000"

section \<open>Reading\<close>

definition StakePool_deserialize :: "buffer \<Rightarrow> program_error + StakePool" where
  "StakePool_deserialize input =
     (if length input < StakePool_LEN then Inl InvalidAccountData
      else Inr
        \<lparr>pool_version = le_val (slice input 0 1),
         pool_owner = slice input 1 33,
         deposit_bump_seed = le_val (slice input 33 34),
         withdraw_bump_seed = le_val (slice input 34 35),
         pool_validator_stake_list = slice input 35 67,
         pool_credit_list = slice input 67 99,
         pool_mint = slice input 99 131,
         owner_fee_account = slice input 131 163,
         pool_credit_reserve = slice input 163 195,
         token_program_id = slice input 195 227,
         stake_total = le_val (slice input 232 240),
         pool_total = le_val (slice input 240 248),
         pool_last_update_epoch = le_val (slice input 248 256),
         pool_fee_denominator = le_val (slice input 256 264),
         pool_fee_numerator = le_val (slice input 264 272)\<rparr>)"

definition read_vsi :: "buffer \<Rightarrow> ValidatorStakeInfo" where
  "read_vsi input =
     \<lparr>validator_account = slice input 0 32, vsi_balance = le_val (slice input 32 40),
      vsi_last_update_epoch = le_val (slice input 40 48), stake_count = le_val (slice input 48 52)\<rparr>"

definition read_credit :: "buffer \<Rightarrow> CreditRecord" where
  "read_credit input =
     \<lparr>sol_target = slice input 0 32, crd_cancel_authority = slice input 32 64,
      token_amount = le_val (slice input 64 72)\<rparr>"

fun read_records :: "nat \<Rightarrow> (buffer \<Rightarrow> 'a) \<Rightarrow> buffer \<Rightarrow> nat \<Rightarrow> nat \<Rightarrow> 'a list" where
  "read_records sz de input fr 0 = []"
| "read_records sz de input fr (Suc n) =
     de (slice input fr (fr + sz)) # read_records sz de input (fr + sz) n"

definition ValidatorStakeList_deserialize :: "buffer \<Rightarrow> program_error + ValidatorStakeList" where
  "ValidatorStakeList_deserialize input =
     (if length input < ValidatorStakeList_LEN then Inl InvalidAccountData
      else if le_val (slice input 0 1) = 0 then Inr \<lparr>vsl_version = 0, validators = []\<rparr>
      else
        let number_of_validators = le_val (slice input 1 3)
        in if number_of_validators > MAX_VALIDATORS then Inl InvalidAccountData
           else Inr \<lparr>vsl_version = le_val (slice input 0 1),
                     validators = read_records ValidatorStakeInfo_LEN read_vsi input 3 number_of_validators\<rparr>)"

definition CreditList_deserialize :: "buffer \<Rightarrow> program_error + CreditList" where
  "CreditList_deserialize input =
     (if length input < CreditList_LEN then Inl InvalidAccountData
      else if le_val (slice input 0 1) = 0 then Inr \<lparr>cl_version = 0, credits = []\<rparr>
      else
        let number_of_records = le_val (slice input 1 3)
        in if number_of_records > MAX_CREDIT_RECORDS then Inl InvalidAccountData
           else Inr \<lparr>cl_version = le_val (slice input 0 1),
                     credits = read_records CreditRecord_LEN read_credit input 3 number_of_records\<rparr>)"

section \<open>Writing\<close>

definition vsi_bytes :: "buffer \<Rightarrow> ValidatorStakeInfo \<Rightarrow> buffer" where
  "vsi_bytes pad v = validator_account v @ le_bytes 8 (vsi_balance v) @
     le_bytes 8 (vsi_last_update_epoch v) @ le_bytes 4 (stake_count v) @ pad"

definition credit_bytes :: "CreditRecord \<Rightarrow> buffer" where
  "credit_bytes c = sol_target c @ crd_cancel_authority c @ le_bytes 8 (token_amount c)"

fun write_records :: "nat \<Rightarrow> ('a \<Rightarrow> buffer) \<Rightarrow> nat \<Rightarrow> 'a list \<Rightarrow> buffer \<Rightarrow> buffer" where
  "write_records sz enc fr [] outp = outp"
| "write_records sz enc fr (x # xs) outp =
     write_records sz enc (fr + sz) xs (overwrite outp fr (enc x))"

definition write_header :: "nat \<Rightarrow> nat \<Rightarrow> buffer \<Rightarrow> buffer" where
  "write_header v n outp = overwrite (overwrite outp 0 (le_bytes 1 v)) 1 (le_bytes 2 n)"

definition ValidatorStakeList_serialize ::
  "buffer \<Rightarrow> ValidatorStakeList \<Rightarrow> buffer \<Rightarrow> program_error + buffer" where
  "ValidatorStakeList_serialize pad l outp =
     (if length outp < ValidatorStakeList_LEN then Inl InvalidAccountData
      else if length (validators l) > MAX_VALIDATORS then Inl InvalidAccountData
      else Inr (write_records ValidatorStakeInfo_LEN (vsi_bytes pad) 3 (validators l)
        (write_header (vsl_version l) (length (validators l)) outp)))"

definition CreditList_serialize :: "CreditList \<Rightarrow> buffer \<Rightarrow> program_error + buffer" where
  "CreditList_serialize l outp =
     (if length outp < CreditList_LEN then Inl InvalidAccountData
      else if length (credits l) > MAX_CREDIT_RECORDS then Inl InvalidAccountData
      else Inr (write_records CreditRecord_LEN credit_bytes 3 (credits l)
        (write_header (cl_version l) (length (credits l)) outp)))"

text \<open>The values the Rust types can hold.\<close>

definition vsi_ok :: "ValidatorStakeInfo \<Rightarrow> bool" where
  "vsi_ok v \<longleftrightarrow> length (validator_account v) = 32 \<and> vsi_balance v < 2 ^ 64 \<and>
     vsi_last_update_epoch v < 2 ^ 64 \<and> stake_count v < 2 ^ 32"

definition credit_ok :: "CreditRecord \<Rightarrow> bool" where
  "credit_ok c \<longleftrightarrow> length (sol_target c) = 32 \<and> length (crd_cancel_authority c) = 32 \<and> token_amount c < 2 ^ 64"

section \<open>The contract of a stored record\<close>

locale record_codec =
  fixes sz :: nat and good :: bool and ok :: "'a \<Rightarrow> bool" and enc :: "'a \<Rightarrow> buffer" and de :: "buffer \<Rightarrow> 'a"
  assumes length_enc: "good \<Longrightarrow> ok x \<Longrightarrow> length (enc x) = sz"
    and de_enc: "good \<Longrightarrow> ok x \<Longrightarrow> de (enc x) = x"
begin

lemma length_write_records:
  assumes good "list_all ok xs" "fr + sz * length xs \<le> length outp"
  shows "length (write_records sz enc fr xs outp) = length outp"
  using assms(2,3) by (induction xs arbitrary: fr outp) (simp_all add: length_enc [OF assms(1)])

lemma write_records_frame:
  assumes good "list_all ok xs" "fr + sz * length xs \<le> length outp" "q \<le> fr"
  shows "slice (write_records sz enc fr xs outp) p q = slice outp p q"
  using assms(2-4)
proof (induction xs arbitrary: fr outp)
  case (Cons x xs)
  then have "slice (overwrite outp fr (enc x)) p q = slice outp p q"
    by (intro slice_overwrite_other) (simp_all add: length_enc [OF assms(1)])
  with Cons show ?case
    by (simp add: length_enc [OF assms(1)])
qed simp

lemma read_written:
  assumes good "list_all ok xs" "fr + sz * length xs \<le> length outp"
  shows "read_records sz de (write_records sz enc fr xs outp) fr (length xs) = xs"
  using assms(2,3)
proof (induction xs arbitrary: fr outp)
  case (Cons x xs)
  let ?out = "overwrite outp fr (enc x)"
  have len: "length (enc x) = sz"
    using Cons.prems(1) by (simp add: length_enc [OF assms(1)])
  have "slice (write_records sz enc (fr + sz) xs ?out) fr (fr + sz) = slice ?out fr (fr + sz)"
    using Cons.prems len by (intro write_records_frame [OF assms(1)]) simp_all
  also have "\<dots> = enc x"
    using Cons.prems len slice_overwrite [of fr "enc x" outp] by simp
  finally show ?case
    using Cons len by (simp add: de_enc [OF assms(1)])
qed simp

end

interpretation vsi: record_codec 56 "length pad = 4" vsi_ok "vsi_bytes pad" read_vsi for pad
  by unfold_locales
    (auto simp: vsi_ok_def vsi_bytes_def read_vsi_def slice_def le_val_le_bytes)

interpretation crd: record_codec 72 True credit_ok credit_bytes read_credit
  by unfold_locales
    (auto simp: credit_ok_def credit_bytes_def read_credit_def slice_def le_val_le_bytes)

lemmas layout_sizes = StakePool_LEN_def ValidatorStakeInfo_LEN_def CreditRecord_LEN_def MAX_VALIDATORS_def
  MAX_CREDIT_RECORDS_def ValidatorStakeList_LEN_def CreditList_LEN_def

text \<open>The header of a list: its version and its length.\<close>

lemma length_write_header [simp]: "3 \<le> length outp \<Longrightarrow> length (write_header v n outp) = length outp"
  by (simp add: write_header_def)

lemma header_read:
  assumes "3 \<le> length outp"
  shows "v < 256 \<Longrightarrow> le_val (slice (write_header v n outp) 0 (Suc 0)) = v"
    "n < 65536 \<Longrightarrow> le_val (slice (write_header v n outp) (Suc 0) 3) = n"
proof -
  have "slice (write_header v n outp) 0 1 = le_bytes 1 v"
    using assms slice_overwrite [of 0 "le_bytes 1 v" outp]
    by (simp add: write_header_def slice_overwrite_other del: le_bytes.simps One_nat_def)
  then show "v < 256 \<Longrightarrow> le_val (slice (write_header v n outp) 0 (Suc 0)) = v"
    using le_val_le_bytes [of 1 v] by simp
  have "slice (write_header v n outp) 1 (1 + 2) = le_bytes 2 n"
    using assms slice_overwrite [of 1 "le_bytes 2 n" "overwrite outp 0 (le_bytes 1 v)"]
    by (simp add: write_header_def)
  then show "n < 65536 \<Longrightarrow> le_val (slice (write_header v n outp) (Suc 0) 3) = n"
    using le_val_le_bytes [of 2 n] by (simp add: numeral_3_eq_3)
qed

section \<open>Properties\<close>

text \<open>
  The stored validator list is read back by the program as it was written, for every list of at
  most \<open>MAX_VALIDATORS\<close> entries with a version, whatever the padding and the old account contents.
\<close>

lemma ValidatorStakeList_roundtrip:
  assumes "length pad = 4" "ValidatorStakeList_LEN \<le> length outp" "length (validators l) \<le> MAX_VALIDATORS"
    "list_all vsi_ok (validators l)" "0 < vsl_version l" "vsl_version l < 256"
  shows "\<exists>out. ValidatorStakeList_serialize pad l outp = Inr out \<and> length out = length outp \<and>
    ValidatorStakeList_deserialize out = Inr l"
proof -
  let ?o = "write_header (vsl_version l) (length (validators l)) outp"
  have room: "3 + 56 * length (validators l) \<le> length ?o" "3 \<le> length outp" "length ?o = length outp"
    using assms(2,3) by (simp_all add: layout_sizes)
  show ?thesis
    using assms room vsi.length_write_records [OF assms(1,4) room(1)] vsi.read_written [OF assms(1,4) room(1)]
      vsi.write_records_frame [OF assms(1,4) room(1)]
    by (simp add: ValidatorStakeList_serialize_def ValidatorStakeList_deserialize_def header_read
      le_val_le_bytes layout_sizes Let_def)
qed

lemma ValidatorStakeList_roundtrip_witness:
  "\<exists>out. ValidatorStakeList_serialize (replicate 4 9)
      \<lparr>vsl_version = 1, validators = [\<lparr>validator_account = replicate 32 7, vsi_balance = 123456789,
        vsi_last_update_epoch = 987654321, stake_count = 2\<rparr>]\<rparr> (alloc 6000) = Inr out \<and>
    ValidatorStakeList_deserialize out =
      Inr \<lparr>vsl_version = 1, validators = [\<lparr>validator_account = replicate 32 7, vsi_balance = 123456789,
        vsi_last_update_epoch = 987654321, stake_count = 2\<rparr>]\<rparr>"
  using ValidatorStakeList_roundtrip [of "replicate 4 9" "alloc 6000" "\<lparr>vsl_version = 1, validators =
    [\<lparr>validator_account = replicate 32 7, vsi_balance = 123456789, vsi_last_update_epoch = 987654321, stake_count = 2\<rparr>]\<rparr>"]
  by (auto simp: layout_sizes vsi_ok_def)

text \<open>
  The stored list of creditors is read back by the program as it was written, for every list of
  at most \<open>MAX_CREDIT_RECORDS\<close> records with a version.
\<close>

lemma CreditList_roundtrip:
  assumes "CreditList_LEN \<le> length outp" "length (credits l) \<le> MAX_CREDIT_RECORDS"
    "list_all credit_ok (credits l)" "0 < cl_version l" "cl_version l < 256"
  shows "\<exists>out. CreditList_serialize l outp = Inr out \<and> length out = length outp \<and>
    CreditList_deserialize out = Inr l"
proof -
  let ?o = "write_header (cl_version l) (length (credits l)) outp"
  have room: "3 + 72 * length (credits l) \<le> length ?o" "3 \<le> length outp" "length ?o = length outp"
    using assms(1,2) by (simp_all add: layout_sizes)
  show ?thesis
    using assms room crd.length_write_records [OF TrueI assms(3) room(1)] crd.read_written [OF TrueI assms(3) room(1)]
      crd.write_records_frame [OF TrueI assms(3) room(1)]
    by (simp add: CreditList_serialize_def CreditList_deserialize_def header_read
      le_val_le_bytes layout_sizes Let_def)
qed

lemma CreditList_roundtrip_witness:
  "\<exists>out. CreditList_serialize \<lparr>cl_version = 1, credits = [\<lparr>sol_target = replicate 32 7,
      crd_cancel_authority = replicate 32 8, token_amount = 55\<rparr>]\<rparr> (alloc 72003) = Inr out \<and>
    CreditList_deserialize out = Inr \<lparr>cl_version = 1, credits = [\<lparr>sol_target = replicate 32 7,
      crd_cancel_authority = replicate 32 8, token_amount = 55\<rparr>]\<rparr>"
  using CreditList_roundtrip [of "alloc 72003" "\<lparr>cl_version = 1, credits = [\<lparr>sol_target = replicate 32 7,
    crd_cancel_authority = replicate 32 8, token_amount = 55\<rparr>]\<rparr>"]
  by (auto simp: layout_sizes credit_ok_def)

end
