(* ===== verification/Tenderize_State.thy ===== *)
theory Tenderize_State
  imports Onchain_Layout
begin

text \<open>
  Reading the pool's accounts in \<open>experiment/tenderize.ts\<close>: \<open>parseState\<close>, \<open>readState\<close>,
  \<open>readValidators\<close>, \<open>readCreditors\<close>. The locale \<open>record_reader\<close> relates the client's reader of one
  record to the program's; its interpretations give that both read the same lists.
\<close>

section \<open>The pool state\<close>

record 'k State =
  version :: nat
  st_owner :: 'k
  validatorStakeList :: 'k
  creditList :: 'k
  poolMint :: 'k
  ownerFeeAccount :: 'k
  st_creditReserve :: 'k
  tokenProgram :: 'k
  stakeTotal :: nat
  poolTotal :: nat
  lastEpochUpdate :: nat
  feeDenominator :: nat
  feeNumerator :: nat

definition parseState :: "'k keylib \<Rightarrow> buffer \<Rightarrow> 'k State res" where
  "parseState K d =
     bindE (readUInt8 d 0) (\<lambda>v.
     bindE (newPublicKey K (slice d 1 33)) (\<lambda>ow.
     bindE (newPublicKey K (slice d 35 67)) (\<lambda>vsl.
     bindE (newPublicKey K (slice d 67 99)) (\<lambda>cl.
     bindE (newPublicKey K (slice d 99 131)) (\<lambda>pm.
     bindE (newPublicKey K (slice d 131 163)) (\<lambda>ofa.
     bindE (newPublicKey K (slice d 163 195)) (\<lambda>cr.
     bindE (newPublicKey K (slice d 195 227)) (\<lambda>tp.
     bindE (readBigUInt64LE d 232) (\<lambda>st.
     bindE (readBigUInt64LE d 240) (\<lambda>pt.
     bindE (readBigUInt64LE d 248) (\<lambda>leu.
     bindE (readBigUInt64LE d 256) (\<lambda>fd.
     bindE (readBigUInt64LE d 264) (\<lambda>fn.
     Inr \<lparr>version = v, st_owner = ow, validatorStakeList = vsl, creditList = cl, poolMint = pm,
          ownerFeeAccount = ofa, st_creditReserve = cr, tokenProgram = tp, stakeTotal = st, poolTotal = pt,
          lastEpochUpdate = leu, feeDenominator = fd, feeNumerator = fn\<rparr>)))))))))))))"

text \<open>\<open>setState\<close>: whether a callback is given. It is registered even when the account does not exist.\<close>

definition readState ::
  "'k keylib \<Rightarrow> ('k, 'w) connection \<Rightarrow> 'k TenderizeProgram \<Rightarrow> bool \<Rightarrow> ('k, 'w, 'k State option) client" where
  "readState K C P setState =
     bindIO (getAccountInfo C (stakePool P)) (\<lambda>stateAccount.
     bindIO (if setState then onAccountChange (stakePool P) else returnIO ()) (\<lambda>_.
     case stateAccount of
       None \<Rightarrow> returnIO None
     | Some acc \<Rightarrow>
         if length (acc_data acc) = 0 then returnIO None
         else bindIO (liftE (parseState K (acc_data acc))) (\<lambda>st. returnIO (Some st))))"

section \<open>Validators\<close>

definition validatorAt :: "'k keylib \<Rightarrow> buffer \<Rightarrow> nat \<Rightarrow> 'k ValidatorInfo res" where
  "validatorAt K d p =
     bindE (newPublicKey K (slice d p (p + 32))) (\<lambda>vote.
     bindE (readBigUInt64LE d (p + 32)) (\<lambda>b.
     bindE (readBigUInt64LE d (p + 32 + 8)) (\<lambda>e.
     bindE (readUInt32LE d (p + 32 + 8 + 8)) (\<lambda>n.
     Inr \<lparr>votePubkey = vote, balance = Number (int b), lastUpdateEpoch = Number (int e), stakeCount = n\<rparr>))))"

definition parseValidators :: "'k keylib \<Rightarrow> buffer \<Rightarrow> 'k ValidatorInfo list res" where
  "parseValidators K d =
     bindE (readUInt16LE d 1) (\<lambda>validatorCount.
     mapE (\<lambda>i. validatorAt K d (3 + (32 + 8 + 8 + 8) * i)) [0..<validatorCount])"

definition readValidators ::
  "'k keylib \<Rightarrow> ('k, 'w) connection \<Rightarrow> 'k TenderizeProgram \<Rightarrow> ('k, 'w, 'k ValidatorInfo list) client" where
  "readValidators K C P =
     bindIO (getAccountInfo C (validatorStakeListAccount P)) (\<lambda>validatorListAccount.
     case validatorListAccount of
       None \<Rightarrow> throwIO TypeError
     | Some acc \<Rightarrow> liftE (parseValidators K (acc_data acc)))"

section \<open>Creditors\<close>

record 'k Creditor =
  target :: 'k
  cred_cancelAuthority :: 'k
  cred_amount :: number

definition creditorAt :: "'k keylib \<Rightarrow> buffer \<Rightarrow> nat \<Rightarrow> 'k Creditor res" where
  "creditorAt K d p =
     bindE (newPublicKey K (slice d p (p + 32))) (\<lambda>t.
     bindE (newPublicKey K (slice d (p + 32) (p + 32 + 32))) (\<lambda>c.
     bindE (readBigUInt64LE d (p + 32 + 32)) (\<lambda>a.
     Inr \<lparr>target = t, cred_cancelAuthority = c, cred_amount = Number (int a)\<rparr>)))"

fun creditorsLoop :: "'k keylib \<Rightarrow> buffer \<Rightarrow> nat \<Rightarrow> nat \<Rightarrow> 'k Creditor list res" where
  "creditorsLoop K d p 0 = Inr []"
| "creditorsLoop K d p (Suc n) =
     bindE (creditorAt K d p) (\<lambda>c. bindE (creditorsLoop K d (p + 32 + 32 + 8) n) (\<lambda>cs. Inr (c # cs)))"

definition parseCreditors :: "'k keylib \<Rightarrow> buffer \<Rightarrow> 'k Creditor list res" where
  "parseCreditors K d = bindE (readUInt16LE d 1) (creditorsLoop K d 3)"

definition readCreditors ::
  "'k keylib \<Rightarrow> ('k, 'w) connection \<Rightarrow> 'k TenderizeProgram \<Rightarrow> ('k, 'w, 'k Creditor list) client" where
  "readCreditors K C P =
     bindIO (readState K C P False) (\<lambda>state.
     case state of
       None \<Rightarrow> throwIO TypeError
     | Some st \<Rightarrow>
         bindIO (getAccountInfo C (creditList st)) (\<lambda>creditorsAccount.
         case creditorsAccount of
           None \<Rightarrow> throwIO TypeError
         | Some acc \<Rightarrow> liftE (parseCreditors K (acc_data acc))))"

section \<open>What the program's records mean to the client\<close>

text \<open>Every 32 bytes are a key, and the key gives them back.\<close>

definition total_keys :: "'k keylib \<Rightarrow> bool" where
  "total_keys K \<longleftrightarrow> (\<forall>bs. length bs = 32 \<longrightarrow> (\<exists>k. newPublicKey K bs = Inr k \<and> toBuffer K k = bs))"

definition key_of :: "'k keylib \<Rightarrow> buffer \<Rightarrow> 'k" where
  "key_of K bs = projr (newPublicKey K bs)"

definition state_view :: "'k keylib \<Rightarrow> StakePool \<Rightarrow> 'k State" where
  "state_view K sp =
     \<lparr>version = pool_version sp, st_owner = key_of K (pool_owner sp),
      validatorStakeList = key_of K (pool_validator_stake_list sp), creditList = key_of K (pool_credit_list sp),
      poolMint = key_of K (pool_mint sp), ownerFeeAccount = key_of K (owner_fee_account sp),
      st_creditReserve = key_of K (pool_credit_reserve sp), tokenProgram = key_of K (token_program_id sp),
      stakeTotal = stake_total sp, poolTotal = pool_total sp, lastEpochUpdate = pool_last_update_epoch sp,
      feeDenominator = pool_fee_denominator sp, feeNumerator = pool_fee_numerator sp\<rparr>"

definition validator_view :: "'k keylib \<Rightarrow> ValidatorStakeInfo \<Rightarrow> 'k ValidatorInfo" where
  "validator_view K v =
     \<lparr>votePubkey = key_of K (validator_account v), balance = Number (int (vsi_balance v)),
      lastUpdateEpoch = Number (int (vsi_last_update_epoch v)), stakeCount = stake_count v\<rparr>"

definition creditor_view :: "'k keylib \<Rightarrow> CreditRecord \<Rightarrow> 'k Creditor" where
  "creditor_view K c =
     \<lparr>target = key_of K (sol_target c), cred_cancelAuthority = key_of K (crd_cancel_authority c),
      cred_amount = Number (int (token_amount c))\<rparr>"

lemma newPublicKey_total: "total_keys K \<Longrightarrow> length bs = 32 \<Longrightarrow> newPublicKey K bs = Inr (key_of K bs)"
  by (auto simp: total_keys_def key_of_def)

lemma length_slice: "b \<le> length d \<Longrightarrow> length (slice d a b) = b - a"
  by (simp add: slice_def)

lemma newPublicKey_slice:
  "total_keys K \<Longrightarrow> b = a + 32 \<Longrightarrow> b \<le> length d \<Longrightarrow> newPublicKey K (slice d a b) = Inr (key_of K (slice d a b))"
  by (rule newPublicKey_total) (simp_all add: length_slice)

lemmas read_defs = readUInt8_def readUInt16LE_def readUInt32LE_def readBigUInt64LE_def read_le_def

lemma slice_slice: "b \<le> d - c \<Longrightarrow> slice (slice buf c d) a b = slice buf (c + a) (c + b)"
  by (simp add: slice_def drop_take min_def add.commute)

section \<open>Lists of records\<close>

locale record_reader =
  fixes sz :: nat and good :: bool and de :: "buffer \<Rightarrow> 'a" and rd :: "buffer \<Rightarrow> nat \<Rightarrow> 'b res" and view :: "'a \<Rightarrow> 'b"
  assumes rd_here: "good \<Longrightarrow> p + sz \<le> length d \<Longrightarrow> rd d p = Inr (view (de (slice d p (p + sz))))"
begin

lemma read_all:
  assumes good "p + sz * n \<le> length d"
  shows "mapE (\<lambda>i. rd d (p + sz * i)) [0..<n] = Inr (map view (read_records sz de d p n))"
  using assms(2)
proof (induction n arbitrary: p)
  case (Suc n)
  have "mapE (\<lambda>i. rd d (p + sz * i)) (map Suc [0..<n]) = mapE (\<lambda>i. rd d (p + sz + sz * i)) [0..<n]"
    by (simp add: mapE_comp add.assoc)
  with Suc show ?case
    by (simp add: upt_conv_Cons map_Suc_upt [symmetric] rd_here [OF assms(1)] del: upt_Suc)
qed simp

end

interpretation validator_rec: record_reader 56 "total_keys K" read_vsi "validatorAt K" "validator_view K" for K
  by unfold_locales
    (simp add: validatorAt_def validator_view_def read_vsi_def newPublicKey_slice read_defs slice_slice add.assoc)

interpretation creditor_rec: record_reader 72 "total_keys K" read_credit "creditorAt K" "creditor_view K" for K
  by unfold_locales
    (simp add: creditorAt_def creditor_view_def read_credit_def newPublicKey_slice read_defs slice_slice add.assoc)

lemma creditorsLoop_mapE: "creditorsLoop K d p n = mapE (\<lambda>i. creditorAt K d (p + 72 * i)) [0..<n]"
proof (induction n arbitrary: p)
  case (Suc n)
  have "mapE (\<lambda>i. creditorAt K d (p + 72 * i)) (map Suc [0..<n]) = mapE (\<lambda>i. creditorAt K d (p + 72 + 72 * i)) [0..<n]"
    by (simp add: mapE_comp add.assoc)
  with Suc show ?case
    by (simp add: upt_conv_Cons map_Suc_upt [symmetric] add.assoc del: upt_Suc)
qed simp

lemma parseValidators_agrees:
  assumes "total_keys K" "ValidatorStakeList_deserialize d = Inr l" "0 < vsl_version l"
  shows "parseValidators K d = Inr (map (validator_view K) (validators l))"
proof -
  let ?n = "le_val (slice d 1 3)"
  have l: "validators l = read_records 56 read_vsi d 3 ?n" "3 + 56 * ?n \<le> length d" "3 \<le> length d"
    using assms(2,3) by (auto simp: ValidatorStakeList_deserialize_def layout_sizes Let_def split: if_splits)
  then show ?thesis
    using validator_rec.read_all [OF assms(1) l(2)]
    by (simp add: parseValidators_def read_defs numeral_3_eq_3)
qed

lemma parseCreditors_agrees:
  assumes "total_keys K" "CreditList_deserialize d = Inr l" "0 < cl_version l"
  shows "parseCreditors K d = Inr (map (creditor_view K) (credits l))"
proof -
  let ?n = "le_val (slice d 1 3)"
  have l: "credits l = read_records 72 read_credit d 3 ?n" "3 + 72 * ?n \<le> length d" "3 \<le> length d"
    using assms(2,3) by (auto simp: CreditList_deserialize_def layout_sizes Let_def split: if_splits)
  then show ?thesis
    using creditor_rec.read_all [OF assms(1) l(2)]
    by (simp add: parseCreditors_def creditorsLoop_mapE read_defs numeral_3_eq_3)
qed

lemma parseState_ok:
  assumes "total_keys K" "StakePool_deserialize d = Inr sp"
  shows "parseState K d = Inr (state_view K sp)"
proof -
  have "272 \<le> length d"
    using assms(2) by (auto simp: StakePool_deserialize_def layout_sizes split: if_splits)
  then show ?thesis
    using assms by (auto simp: parseState_def state_view_def StakePool_deserialize_def layout_sizes
      newPublicKey_slice read_defs)
qed

lemma parseState_short: "length d < 272 \<Longrightarrow> \<exists>e. parseState K d = Inl e"
proof (cases "parseState K d")
  case (Inr s)
  assume "length d < 272"
  then show ?thesis
    using Inr by (auto simp: parseState_def read_defs bindE_Inr_iff split: if_splits)
qed simp

lemma readValidators_found:
  "getAccountInfo C (validatorStakeListAccount P) s = (Inr (Some acc), s') \<Longrightarrow>
   readValidators K C P s = (parseValidators K (acc_data acc), s')"
  by (simp add: readValidators_def bindIO_eval)

lemma readState_found:
  "getAccountInfo C (stakePool P) s = (Inr (Some acc), s') \<Longrightarrow> acc_data acc \<noteq> [] \<Longrightarrow>
   parseState K (acc_data acc) = Inr st \<Longrightarrow> readState K C P False s = (Inr (Some st), s')"
  by (simp add: readState_def bindIO_eval)

lemma quiet_readers [quiet_intros]:
  "quiet (readState K C P b)" "quiet (readValidators K C P)" "quiet (readCreditors K C P)"
  by (auto simp: readState_def readValidators_def readCreditors_def intro!: quiet_intros split: option.splits)

lemma total_sample [simp]: "total_keys sample_keys"
proof -
  have "le_bytes 32 (unat (of_nat (le_val bs) :: key)) = bs" if "length bs = 32" for bs
  proof -
    have "le_val bs < 2 ^ 256"
      using le_val_bound [of bs] that by simp
    then have "unat (of_nat (le_val bs) :: key) = le_val bs"
      by (simp add: unat_of_nat)
    then show ?thesis
      using le_bytes_le_val [of bs] that by simp
  qed
  then show ?thesis by (simp add: total_keys_def)
qed

definition sample_list :: ValidatorStakeList where
  "sample_list = \<lparr>vsl_version = 1, validators =
     [\<lparr>validator_account = replicate 32 0, vsi_balance = 3000000000, vsi_last_update_epoch = 4, stake_count = 1\<rparr>,
      \<lparr>validator_account = le_bytes 32 1, vsi_balance = 0, vsi_last_update_epoch = 4, stake_count = 0\<rparr>]\<rparr>"

definition sample_infos :: "key ValidatorInfo list" where
  "sample_infos =
     [\<lparr>votePubkey = 0, balance = 3000000000, lastUpdateEpoch = 4, stakeCount = 1\<rparr>,
      \<lparr>votePubkey = 1, balance = 0, lastUpdateEpoch = 4, stakeCount = 0\<rparr>]"

lemma read_records_2: "read_records sz de d p 2 = [de (slice d p (p + sz)), de (slice d (p + sz) (p + sz + sz))]"
  by (simp add: numeral_2_eq_2)

lemma sample_validators_list: "ValidatorStakeList_deserialize sample_validators = Inr sample_list"
  by (simp add: sample_validators_def sample_list_def ValidatorStakeList_deserialize_def layout_sizes slice_def
    alloc_def le_val_le_bytes read_vsi_def read_records_2)

lemma sample_list_view: "map (validator_view sample_keys) (validators sample_list) = sample_infos"
  by (simp add: sample_list_def sample_infos_def validator_view_def key_of_def Number_int MAX_SAFE_def le_val_le_bytes)

lemma sample_readValidators:
  "fst (world s) 14 = Some (sample_account sample_validators) \<Longrightarrow>
   readValidators sample_keys sample_connection sample_program s = (Inr sample_infos, s)"
  using readValidators_found [of sample_connection sample_program s "sample_account sample_validators" s sample_keys]
    parseValidators_agrees [OF total_sample sample_validators_list] sample_list_view
  by (simp add: sample_program_def sample_account_def sample_list_def)

lemma sample_credits_list:
  "CreditList_deserialize sample_credits =
    Inr \<lparr>cl_version = 1, credits = [\<lparr>sol_target = replicate 32 0, crd_cancel_authority = replicate 32 0,
      token_amount = 700\<rparr>]\<rparr>"
  by (simp add: sample_credits_def CreditList_deserialize_def layout_sizes slice_def alloc_def
    le_val_le_bytes read_credit_def)

section \<open>Properties\<close>

text \<open>
  C16. Client and program read the same pool state from every account: where the program's
  \<open>deserialize\<close> succeeds, \<open>parseState\<close> returns the same fields; where it refuses the account,
  \<open>parseState\<close> throws.
\<close>

theorem parseState_agrees:
  assumes "total_keys K"
  shows "case StakePool_deserialize d of
      Inr sp \<Rightarrow> parseState K d = Inr (state_view K sp)
    | Inl _ \<Rightarrow> (\<exists>e. parseState K d = Inl e)"
  using parseState_ok [OF assms] parseState_short [of d K]
  by (auto simp: StakePool_deserialize_def layout_sizes split: sum.splits if_splits)

theorem parseState_agrees_witness:
  "\<exists>st. parseState sample_keys (2 # alloc 271) = Inr st \<and> version st = 2 \<and> stakeTotal st = 0"
  using parseState_agrees [OF total_sample, of "2 # alloc 271"]
  by (auto simp: StakePool_deserialize_def layout_sizes state_view_def slice_def alloc_def)





end
