(* ===== verification/Tenderize_Ops.thy ===== *)
theory Tenderize_Ops
  imports Tenderize_State
begin

text \<open>
  The operations of \<open>TenderizeProgram\<close> in \<open>experiment/tenderize.ts\<close> that send one transaction, and
  \<open>updatePool\<close>, which sends one per validator and a last one. The lemmas say what a sequence of
  sends leaves in the log of sent transactions, also when the cluster fails in the middle. The
  lodash function \<open>_.chunk\<close> is an argument of the operations that use it, with its documented
  behaviour, \<open>lodash_chunk\<close>, as a hypothesis.
\<close>

section \<open>One transaction\<close>

definition sendOne :: "('k, 'w) connection \<Rightarrow> 'k instruction res \<Rightarrow> 'k list \<Rightarrow> ('k, 'w, unit) client" where
  "sendOne C ix ss = bindIO (liftE ix) (\<lambda>ix. sendAndConfirmTransaction C [Instr ix] ss)"

definition stakePoolLength :: nat where
  "stakePoolLength = 1000 + 4 + 32 + 4 + 4 + 32 + 32 + 32 + 8 + 8 + 8 + 2 * 8"

definition validatorStakeListLength :: nat where
  "validatorStakeListLength = 60000 + 4 + 4 + 1000 * (32 + 8 + 8)"

definition creditListLength :: nat where
  "creditListLength = 5 + 10000 * (32 + 32 + 32)"

definition createAccountOf ::
  "('k, 'w) connection \<Rightarrow> 'k TenderizeProgram \<Rightarrow> 'k \<Rightarrow> nat \<Rightarrow> ('k, 'w, 'k tx_instr) client" where
  "createAccountOf C P newAccount n =
     bindIO (getMinimumBalanceForRentExemption C n) (\<lambda>l.
     returnIO (SystemCreateAccount (payerAccount P) newAccount l n (programAccount P)))"

definition createStakePool ::
  "'k keylib \<Rightarrow> ('k, 'w) connection \<Rightarrow> 'k TenderizeProgram \<Rightarrow> CreateStakePoolParams \<Rightarrow> ('k, 'w, unit) client" where
  "createStakePool K C P params =
     bindIO (createAccountOf C P (stakePool P) stakePoolLength) (\<lambda>a.
     bindIO (createAccountOf C P (validatorStakeListAccount P) validatorStakeListLength) (\<lambda>b.
     bindIO (createAccountOf C P (creditListAccount P) creditListLength) (\<lambda>c.
     bindIO (liftE (createStakePoolInstruction K P params)) (\<lambda>ix.
     sendAndConfirmTransaction C [a, b, c, Instr ix]
       [payerAccount P, owner P, stakePool P, validatorStakeListAccount P, creditListAccount P]))))"

definition addValidator ::
  "'k keylib \<Rightarrow> ('k, 'w) connection \<Rightarrow> 'k TenderizeProgram \<Rightarrow> 'k \<Rightarrow> ('k, 'w, unit) client" where
  "addValidator K C P v = sendOne C (addValidatorInstruction K P v) [payerAccount P, owner P]"

definition removeValidator ::
  "'k keylib \<Rightarrow> ('k, 'w) connection \<Rightarrow> 'k TenderizeProgram \<Rightarrow> 'k \<Rightarrow> ('k, 'w, unit) client" where
  "removeValidator K C P v = sendOne C (removeValidatorInstruction K P v) [payerAccount P, owner P]"

definition deposit ::
  "'k keylib \<Rightarrow> ('k, 'w) connection \<Rightarrow> 'k TenderizeProgram \<Rightarrow> 'k DepositParams \<Rightarrow> ('k, 'w, unit) client" where
  "deposit K C P params = sendOne C (depositInstruction K P params) [payerAccount P]"

definition withdraw ::
  "'k keylib \<Rightarrow> ('k, 'w) connection \<Rightarrow> 'k TenderizeProgram \<Rightarrow> 'k WithdrawParams \<Rightarrow> ('k, 'w, unit) client" where
  "withdraw K C P params = sendOne C (withdrawInstruction K P params) [payerAccount P]"

definition credit ::
  "'k keylib \<Rightarrow> ('k, 'w) connection \<Rightarrow> 'k TenderizeProgram \<Rightarrow> 'k CreditParams \<Rightarrow> ('k, 'w, unit) client" where
  "credit K C P params =
     sendOne C (creditInstruction K P params)
       (payerAccount P #
        (if cr_amount params < 0
         then (case cancelAuthority params of AsAccount k \<Rightarrow> [k] | AsPublicKey _ \<Rightarrow> []) else []))"

definition delegateReserve ::
  "'k keylib \<Rightarrow> ('k, 'w) connection \<Rightarrow> 'k TenderizeProgram \<Rightarrow> 'k DepositReserveValidatorParam list \<Rightarrow> ('k, 'w, unit) client" where
  "delegateReserve K C P vs = sendOne C (delegateReserveInstruction K P vs) [payerAccount P, owner P]"

definition mergeStakes ::
  "'k keylib \<Rightarrow> ('k, 'w) connection \<Rightarrow> 'k TenderizeProgram \<Rightarrow> 'k StakePair list \<Rightarrow> ('k, 'w, unit) client" where
  "mergeStakes K C P stakePairs =
     (if length stakePairs = 0 then returnIO ()
      else sendOne C (mergeStakesInstruction K P stakePairs) [payerAccount P])"

definition updateListBalance ::
  "'k keylib \<Rightarrow> ('k, 'w) connection \<Rightarrow> 'k TenderizeProgram \<Rightarrow> 'k ValidatorInfo list \<Rightarrow> ('k, 'w, unit) client" where
  "updateListBalance K C P vs = sendOne C (updateListBalanceInstruction K P vs) [payerAccount P]"

definition updatePoolBalance ::
  "'k keylib \<Rightarrow> ('k, 'w) connection \<Rightarrow> 'k TenderizeProgram \<Rightarrow> ('k, 'w, unit) client" where
  "updatePoolBalance K C P = sendOne C (updatePoolBalanceInstruction K P) [payerAccount P]"

definition updatePool ::
  "'k keylib \<Rightarrow> ('k, 'w) connection \<Rightarrow> 'k TenderizeProgram \<Rightarrow> ('k, 'w, unit) client" where
  "updatePool K C P =
     bindIO (readValidators K C P) (\<lambda>allValidators.
     bindIO (forIO (\<lambda>v. updateListBalance K C P [v]) allValidators) (\<lambda>_.
     updatePoolBalance K C P))"

section \<open>Lodash\<close>

text \<open>\<open>_.chunk(xs, n)\<close>: the elements in order, in groups of \<open>n\<close>, the last one with what remains.\<close>

definition lodash_chunk :: "('a list \<Rightarrow> nat \<Rightarrow> 'a list list) \<Rightarrow> bool" where
  "lodash_chunk chunk \<longleftrightarrow>
     (\<forall>xs n. 0 < n \<longrightarrow> concat (chunk xs n) = xs \<and> list_all (\<lambda>c. c \<noteq> [] \<and> length c \<le> n) (chunk xs n))"

lemma lodash_chunkD:
  assumes "lodash_chunk chunk" "0 < n"
  shows "concat (chunk xs n) = xs" "list_all (\<lambda>c. c \<noteq> [] \<and> length c \<le> n) (chunk xs n)"
  using assms by (simp_all add: lodash_chunk_def)

lemma chunk_all:
  assumes "lodash_chunk chunk" "0 < n" "list_all ok xs"
  shows "list_all (list_all ok) (chunk xs n)"
  using assms(3) lodash_chunkD(1) [OF assms(1,2), of xs] by (simp add: list_all_iff) (metis UN_I set_concat)

lemma lodash_sample [simp]: "lodash_chunk sample_chunk"
proof -
  have "0 < n \<Longrightarrow> concat (sample_chunk xs n) = xs \<and> list_all (\<lambda>c. c \<noteq> [] \<and> length c \<le> n) (sample_chunk xs n)"
    for xs :: "'a list" and n
    by (induction xs n rule: sample_chunk.induct) auto
  then show ?thesis
    by (simp add: lodash_chunk_def)
qed

section \<open>Sequences of sends\<close>

text \<open>The cluster takes every transaction.\<close>

definition accepts :: "('k, 'w) connection \<Rightarrow> bool" where
  "accepts C \<longleftrightarrow> (\<forall>t w. \<exists>w'. rpc_sendAndConfirm C t w = (Inr (), w'))"

definition tx_of :: "'k instruction \<Rightarrow> 'k list \<Rightarrow> 'k sent_tx" where
  "tx_of ix ss = \<lparr>tx = [Instr ix], signers = ss\<rparr>"

lemma accepts_sample [simp]: "accepts sample_connection"
  by (simp add: accepts_def sample_connection_def)

lemma send_accepted:
  assumes "accepts C"
  obtains w where "sendAndConfirmTransaction C [Instr ix] ss s = (Inr (), s\<lparr>world := w, sent := sent s @ [tx_of ix ss]\<rparr>)"
proof -
  obtain w where "rpc_sendAndConfirm C \<lparr>tx = [Instr ix], signers = ss\<rparr> (world s) = (Inr (), w)"
    using assms unfolding accepts_def by blast
  then show thesis
    by (intro that [of w]) (simp add: sendAndConfirmTransaction_def tx_of_def)
qed

text \<open>An operation that sends one transaction for each argument it accepts.\<close>

locale sender =
  fixes C :: "('k, 'w) connection" and op :: "'a \<Rightarrow> ('k, 'w, unit) client" and ok :: "'a \<Rightarrow> bool"
    and ixOf :: "'a \<Rightarrow> 'k instruction" and ss :: "'k list"
  assumes op_sends: "ok x \<Longrightarrow> op x = sendAndConfirmTransaction C [Instr (ixOf x)] ss"
begin

lemma forIO_succeeds:
  assumes "accepts C" "list_all ok xs"
  shows "\<exists>s'. forIO op xs s = (Inr (), s') \<and> sent s' = sent s @ map (\<lambda>x. tx_of (ixOf x) ss) xs"
  using assms(2)
proof (induction xs arbitrary: s)
  case (Cons x xs)
  obtain w where w: "op x s = (Inr (), s\<lparr>world := w, sent := sent s @ [tx_of (ixOf x) ss]\<rparr>)"
    using Cons.prems op_sends [of x] send_accepted [OF assms(1)] by (metis list.pred_inject(2))
  then show ?case
    using Cons.IH [of "s\<lparr>world := w, sent := sent s @ [tx_of (ixOf x) ss]\<rparr>"] Cons.prems
    by (auto simp: bindIO_eval)
qed simp

lemma forIO_prefix:
  assumes "list_all ok xs" "forIO op xs s = (r, s')"
  shows "\<exists>k \<le> length xs. sent s' = sent s @ map (\<lambda>x. tx_of (ixOf x) ss) (take k xs) \<and> (r = Inr () \<longrightarrow> k = length xs)"
  using assms
proof (induction xs arbitrary: s)
  case (Cons x xs)
  obtain r1 s1 where 1: "op x s = (r1, s1)"
    by fastforce
  then have sent1: "sent s1 = sent s @ [tx_of (ixOf x) ss]"
    using Cons.prems(1) op_sends [of x] sent_sendAndConfirm [of C "[Instr (ixOf x)]" ss s r1 s1]
    by (simp add: tx_of_def)
  show ?case
  proof (cases r1)
    case (Inl e)
    then have "r = Inl e" "s' = s1"
      using 1 Cons.prems(2) by (simp_all add: bindIO_eval_error)
    then show ?thesis
      using sent1 by (intro exI [of _ 1]) simp
  next
    case (Inr u)
    then have "forIO op xs s1 = (r, s')"
      using 1 Cons.prems(2) by (simp add: bindIO_eval)
    then obtain k where "k \<le> length xs" "sent s' = sent s1 @ map (\<lambda>x. tx_of (ixOf x) ss) (take k xs)"
      "r = Inr () \<longrightarrow> k = length xs"
      using Cons.IH Cons.prems(1) by fastforce
    then show ?thesis
      using sent1 by (intro exI [of _ "Suc k"]) simp
  qed
qed simp

end

lemma sendOne_Inr: "sendOne C (Inr ix) ss = sendAndConfirmTransaction C [Instr ix] ss"
  by (simp add: sendOne_def)

definition delegate_ready :: "'k keylib \<Rightarrow> 'k DepositReserveValidatorParam list \<Rightarrow> bool" where
  "delegate_ready K vs \<longleftrightarrow> derivable K \<and> list_all delegate_ok vs \<and> length vs < 2 ^ 32"

definition merge_ready :: "'k keylib \<Rightarrow> 'k StakePair list \<Rightarrow> bool" where
  "merge_ready K sps \<longleftrightarrow> derivable K \<and> list_all (merge_ok K) sps \<and> length sps < 2 ^ 32 \<and> sps \<noteq> []"

interpretation delegate_sender: sender C "delegateReserve K C P" "delegate_ready K"
    "\<lambda>vs. projr (delegateReserveInstruction K P vs)" "[payerAccount P, owner P]" for K C P
proof unfold_locales
  fix vs :: "'a DepositReserveValidatorParam list"
  assume "delegate_ready K vs"
  then obtain ix where "delegateReserveInstruction K P vs = Inr ix"
    using delegateReserveInstruction_ok [of K vs P] by (auto simp: delegate_ready_def)
  then show "delegateReserve K C P vs = sendAndConfirmTransaction C
      [Instr (projr (delegateReserveInstruction K P vs))] [payerAccount P, owner P]"
    by (simp add: delegateReserve_def sendOne_Inr)
qed

interpretation merge_sender: sender C "mergeStakes K C P" "merge_ready K"
    "\<lambda>sps. projr (mergeStakesInstruction K P sps)" "[payerAccount P]" for K C P
proof unfold_locales
  fix sps :: "'a StakePair list"
  assume a: "merge_ready K sps"
  then obtain ix where "mergeStakesInstruction K P sps = Inr ix"
    using mergeStakesInstruction_ok [of K sps P] by (auto simp: merge_ready_def)
  then show "mergeStakes K C P sps = sendAndConfirmTransaction C
      [Instr (projr (mergeStakesInstruction K P sps))] [payerAccount P]"
    using a by (simp add: mergeStakes_def merge_ready_def sendOne_Inr)
qed

end
