(* ===== verification/Reserve_Delegation.thy ===== *)
theory Reserve_Delegation
  imports Tenderize_Ops "HOL-Library.Sublist"
begin

text \<open>
  \<open>delegateReserveBatch\<close> of \<open>experiment/tenderize.ts\<close>: how the reserve is spread over the
  validators. The amounts do not depend on what the cluster answers about the stakes; \<open>plan\<close> is the
  same computation on whole numbers, and the properties of the amounts are proved of it.
\<close>

section \<open>Delegating the reserve\<close>

text \<open>The first stake of a validator that is being activated in this epoch; a failing lookup is skipped.\<close>

fun currentEpochStake ::
  "'k keylib \<Rightarrow> ('k, 'w) connection \<Rightarrow> 'k TenderizeProgram \<Rightarrow> 'k \<Rightarrow> nat list \<Rightarrow> ('k, 'w, nat option) client" where
  "currentEpochStake K C P v [] = returnIO None"
| "currentEpochStake K C P v (i # is) =
     bindIO (liftE (getStakeForValidator K P v i)) (\<lambda>stakeAddress.
     bindIO (catchIO
       (bindIO (getStakeActivation C stakeAddress) (\<lambda>stakeData.
        returnIO (sa_state stakeData = Activating \<and> sa_active stakeData = 0)))
       (\<lambda>e. returnIO False)) (\<lambda>found.
     if found then returnIO (Some i) else currentEpochStake K C P v is))"

fun firstFree ::
  "'k keylib \<Rightarrow> ('k, 'w) connection \<Rightarrow> 'k TenderizeProgram \<Rightarrow> 'k \<Rightarrow> nat list \<Rightarrow> nat \<Rightarrow> ('k, 'w, nat) client" where
  "firstFree K C P v [] firstFreeIndex = returnIO firstFreeIndex"
| "firstFree K C P v (i # is) firstFreeIndex =
     bindIO (liftE (getStakeForValidator K P v i)) (\<lambda>stakeAddress.
     bindIO (getAccountInfo C stakeAddress) (\<lambda>stakeAccount.
     firstFree K C P v is
       (case stakeAccount of
          None \<Rightarrow> i
        | Some acc \<Rightarrow> if ref_eq (acc_owner acc) (SystemProgram_programId K) then i else firstFreeIndex)))"

text \<open>The address of the chosen stake is derived once more, for the log.\<close>

definition chooseStake ::
  "'k keylib \<Rightarrow> ('k, 'w) connection \<Rightarrow> 'k TenderizeProgram \<Rightarrow> 'k ValidatorInfo \<Rightarrow> ('k, 'w, nat) client" where
  "chooseStake K C P v =
     bindIO (currentEpochStake K C P (votePubkey v) [0..<stakeCount v]) (\<lambda>currentEpochStakeIndex.
     bindIO (case currentEpochStakeIndex of
               Some i \<Rightarrow> returnIO i
             | None \<Rightarrow> firstFree K C P (votePubkey v) [0..<stakeCount v] (stakeCount v)) (\<lambda>i.
     bindIO (liftE (getStakeForValidator K P (votePubkey v) i)) (\<lambda>_. returnIO i)))"

text \<open>What one validator gets of the amount left, and what is left after it.\<close>

definition shareOf :: "number \<Rightarrow> number \<Rightarrow> number \<Rightarrow> number \<times> number" where
  "shareOf targetAmount bal amountLeft =
     (let delegateAmount = min (js_sub targetAmount bal) amountLeft;
          amountLeft = js_sub amountLeft delegateAmount
      in if amountLeft < MIN_STAKE_ACCOUNT_BALANCE then (js_add delegateAmount amountLeft, 0)
         else (delegateAmount, amountLeft))"

fun batchLoop ::
  "'k keylib \<Rightarrow> ('k, 'w) connection \<Rightarrow> 'k TenderizeProgram \<Rightarrow> number \<Rightarrow> 'k ValidatorInfo list \<Rightarrow> number \<Rightarrow>
   ('k, 'w, 'k DepositReserveValidatorParam list \<times> number) client" where
  "batchLoop K C P targetAmount [] amountLeft = returnIO ([], amountLeft)"
| "batchLoop K C P targetAmount (v # vs) amountLeft =
     (if amountLeft < 1 then returnIO ([], amountLeft)
      else if balance v \<ge> targetAmount then batchLoop K C P targetAmount vs amountLeft
      else
        let (delegateAmount, amountLeft) = shareOf targetAmount (balance v) amountLeft in
        bindIO (chooseStake K C P v) (\<lambda>i.
        bindIO (batchLoop K C P targetAmount vs amountLeft) (\<lambda>(ds, left).
        returnIO (\<lparr>address = votePubkey v, dr_amount = delegateAmount, dr_stakeIndex = i\<rparr> # ds, left))))"

definition targetOf :: "'k ValidatorInfo list \<Rightarrow> number \<Rightarrow> number" where
  "targetOf vs totalAmount =
     math_ceil (js_div (js_add (foldl js_add 0 (map balance vs)) totalAmount) (of_nat (length vs)))"

definition delegateReserveBatch ::
  "('k DepositReserveValidatorParam list \<Rightarrow> nat \<Rightarrow> 'k DepositReserveValidatorParam list list) \<Rightarrow>
   'k keylib \<Rightarrow> ('k, 'w) connection \<Rightarrow> 'k TenderizeProgram \<Rightarrow> number \<Rightarrow> ('k, 'w, unit) client" where
  "delegateReserveBatch chunk K C P totalAmount =
     (if totalAmount < MIN_STAKE_ACCOUNT_BALANCE then throwIO (Error ''Too low delegation'')
      else
        bindIO (readValidators K C P) (\<lambda>vs.
        if length vs = 0 then throwIO (Error ''No validator added'')
        else
          bindIO (batchLoop K C P (targetOf vs totalAmount) vs totalAmount) (\<lambda>(instructions, amountLeft).
          if amountLeft > 0 then throwIO (ErrorNum ''Left '' amountLeft)
          else forIO (delegateReserve K C P) (chunk instructions 4))))"

section \<open>The plan on whole numbers\<close>

definition share :: "int \<Rightarrow> int \<Rightarrow> int \<Rightarrow> int \<times> int" where
  "share t b l = (let d = min (t - b) l in if l - d < 1000000000 then (l, 0) else (d, l - d))"

fun plan :: "int \<Rightarrow> ('k \<times> int) list \<Rightarrow> int \<Rightarrow> ('k \<times> int) list \<times> int" where
  "plan t [] l = ([], l)"
| "plan t ((k, b) # vs) l =
     (if l < 1 then ([], l)
      else if b \<ge> t then plan t vs l
      else case share t b l of (d, l') \<Rightarrow> (case plan t vs l' of (ds, r) \<Rightarrow> ((k, d) # ds, r)))"

text \<open>A balance that is a whole number, as every balance read from an account below \<open>2 ^ 53\<close> is.\<close>

definition whole :: "'k ValidatorInfo \<Rightarrow> bool" where
  "whole v \<longleftrightarrow> balance v = of_int \<lfloor>balance v\<rfloor> \<and> 0 \<le> balance v"

definition holdings :: "'k ValidatorInfo list \<Rightarrow> ('k \<times> int) list" where
  "holdings vs = map (\<lambda>v. (votePubkey v, \<lfloor>balance v\<rfloor>)) vs"

definition fair_target :: "int \<Rightarrow> int \<Rightarrow> nat \<Rightarrow> int" where
  "fair_target S T n = \<lceil>of_int (S + T) / (of_nat n :: rat)\<rceil>"

lemma share_facts:
  assumes "share t b l = (d, l')" "b < t" "1 \<le> l"
  shows "d + l' = l" "0 < d" "0 \<le> l'" "b + d < t + 1000000000" "l' = 0 \<or> l' = l - (t - b)"
  using assms by (auto simp: share_def Let_def min_def split: if_splits)

lemma plan_total: "plan t vs l = (ds, r) \<Longrightarrow> sum_list (map snd ds) + r = l"
proof (induction t vs l arbitrary: ds r rule: plan.induct)
  case (2 t k b vs l)
  then show ?case
    by (auto split: if_splits prod.splits dest: share_facts(1))
qed simp

lemma plan_exhausts:
  assumes "plan t vs l = (ds, r)" "0 \<le> l" "l \<le> sum_list (map (\<lambda>(k, b). max 0 (t - b)) vs)"
  shows "r = 0"
  using assms
proof (induction t vs l arbitrary: ds r rule: plan.induct)
  case (2 t k b vs l)
  show ?case
  proof (cases "l < 1 \<or> b \<ge> t")
    case True
    then show ?thesis
      using 2 by (auto split: if_splits)
  next
    case False
    obtain d l' where sh: "share t b l = (d, l')"
      by fastforce
    moreover obtain ds' r' where "plan t vs l' = (ds', r')"
      by fastforce
    moreover have "0 \<le> sum_list (map (\<lambda>(k, b). max 0 (t - b)) vs)"
      by (intro sum_list_nonneg) auto
    ultimately show ?thesis
      using False 2(2) [of d l'] 2(3-5) share_facts(3,5) [OF sh] by auto
  qed
qed simp

lemma plan_entries:
  assumes "plan t vs l = (ds, r)" "(k, d) \<in> set ds"
  shows "\<exists>b. (k, b) \<in> set vs \<and> b < t \<and> 0 < d \<and> b + d < t + 1000000000"
  using assms
proof (induction t vs l arbitrary: ds r rule: plan.induct)
  case (2 t k' b vs l)
  then show ?case
    by (fastforce split: if_splits prod.splits dest: share_facts(2,4))
qed simp

lemma plan_le:
  assumes "plan t vs l = (ds, r)" "(k, d) \<in> set ds"
  shows "d \<le> l"
  using assms
proof (induction t vs l arbitrary: ds r rule: plan.induct)
  case (2 t k' b vs l)
  show ?case
  proof (cases "l < 1 \<or> b \<ge> t")
    case False
    obtain e l' where sh: "share t b l = (e, l')"
      by fastforce
    then show ?thesis
      using False 2(2) [of e l'] 2(3,4) share_facts(1-3) [OF sh] by (fastforce split: prod.splits)
  qed (use 2 in \<open>auto split: if_splits\<close>)
qed simp

lemma plan_order: "plan t vs l = (ds, r) \<Longrightarrow> subseq (map fst ds) (map fst vs)"
proof (induction t vs l arbitrary: ds r rule: plan.induct)
  case (2 t k b vs l)
  then show ?case
    by (auto split: if_splits prod.splits)
qed simp

lemma fair_target_enough:
  assumes "0 < length vs"
  shows "S + T \<le> int (length vs) * fair_target S T (length vs)"
proof -
  let ?x = "of_int (S + T) / (of_nat (length vs) :: rat)"
  have "of_nat (length vs) * ?x \<le> of_nat (length vs) * of_int \<lceil>?x\<rceil>"
    by (intro mult_left_mono le_of_int_ceiling) simp
  moreover have "of_nat (length vs) * ?x = of_int (S + T)"
    using assms by simp
  ultimately have "(of_int (S + T) :: rat) \<le> of_int (int (length vs) * \<lceil>?x\<rceil>)"
    by simp
  then show ?thesis
    unfolding fair_target_def by (simp only: of_int_le_iff)
qed

lemma room_enough:
  "int (length vs) * t - sum_list (map snd vs) \<le> sum_list (map (\<lambda>(k, b). max 0 (t - b)) vs)"
  by (induction vs) (auto simp: algebra_simps)

lemma plan_complete:
  assumes "vs \<noteq> []" "0 \<le> T" "plan (fair_target (sum_list (map snd vs)) T (length vs)) vs T = (ds, r)"
  shows "r = 0" "sum_list (map snd ds) = T"
proof -
  show "r = 0"
    using assms fair_target_enough [of vs "sum_list (map snd vs)" T]
      room_enough [of vs "fair_target (sum_list (map snd vs)) T (length vs)"]
    by (intro plan_exhausts [OF assms(3)]) simp_all
  then show "sum_list (map snd ds) = T"
    using plan_total [OF assms(3)] by simp
qed

section \<open>The numbers of the code are the whole numbers of the plan\<close>

lemma shareOf_int:
  assumes "0 \<le> b" "b < t" "t \<le> MAX_SAFE" "0 \<le> l" "l \<le> MAX_SAFE" "share t b l = (d, l')"
  shows "shareOf (of_int t) (of_int b) (of_int l) = (of_int d, of_int l')"
proof -
  have 1: "js_sub (of_int t) (of_int b) = of_int (t - b)"
    using assms(1-3) by (intro js_sub_int) simp
  have 2: "min (of_int (t - b)) (of_int l) = (of_int (min (t - b) l) :: rat)"
    by (rule min_of_mono) (simp add: mono_def)
  have 3: "js_sub (of_int l) (of_int (min (t - b) l)) = of_int (l - min (t - b) l)"
    using assms(2,4,5) by (intro js_sub_int) (simp add: min_def)
  have 4: "js_add (of_int (min (t - b) l)) (of_int (l - min (t - b) l)) = of_int l"
    using assms(4,5) js_add_int [of "min (t - b) l" "l - min (t - b) l"] by simp
  have 5: "(of_int (l - min (t - b) l) < MIN_STAKE_ACCOUNT_BALANCE) = (l - min (t - b) l < 1000000000)"
    unfolding MIN_STAKE_ACCOUNT_BALANCE_def by (metis of_int_less_iff of_int_numeral)
  have "shareOf (of_int t) (of_int b) (of_int l) =
    (if l - min (t - b) l < 1000000000 then (of_int l, 0) else (of_int (min (t - b) l), of_int (l - min (t - b) l)))"
    unfolding shareOf_def Let_def 1 2 3 4 5 by (rule refl)
  then show ?thesis
    using assms(6) unfolding share_def Let_def by (simp only: split: if_splits) auto
qed

lemma balances_sum:
  assumes "list_all whole vs" "0 \<le> a" "a + sum_list (map snd (holdings vs)) \<le> MAX_SAFE"
  shows "foldl js_add (of_int a) (map balance vs) = of_int (a + sum_list (map snd (holdings vs)))"
  using assms
proof (induction vs arbitrary: a)
  case (Cons v vs)
  let ?b = "\<lfloor>balance v\<rfloor>"
  have b: "balance v = of_int ?b" "0 \<le> ?b"
    using Cons.prems(1) by (auto simp: whole_def)
  have "0 \<le> sum_list (map snd (holdings vs))"
    using Cons.prems(1) by (intro sum_list_nonneg) (auto simp: holdings_def whole_def list_all_iff)
  then have "js_add (of_int a) (balance v) = of_int (a + ?b)"
    using b(2) Cons.prems(2,3) js_add_int [of a ?b] by (subst b(1)) (simp add: holdings_def)
  then show ?case
    using Cons.IH [of "a + ?b"] Cons.prems b(2) by (simp add: holdings_def add.assoc)
qed (simp add: holdings_def)

lemma targetOf_int:
  assumes "list_all whole vs" "vs \<noteq> []" "0 \<le> T" "sum_list (map snd (holdings vs)) + T < MAX_SAFE"
  shows "targetOf vs (of_int T) = of_int (fair_target (sum_list (map snd (holdings vs))) T (length vs))"
proof -
  let ?S = "sum_list (map snd (holdings vs))"
  have S: "0 \<le> ?S"
    using assms(1) by (intro sum_list_nonneg) (auto simp: holdings_def whole_def list_all_iff)
  have "foldl js_add 0 (map balance vs) = of_int ?S"
    using balances_sum [OF assms(1), of 0] assms(3,4) by simp
  moreover have "js_add (of_int ?S) (of_int T) = of_int (?S + T)"
    using S assms(3,4) by (intro js_add_int) simp
  moreover have "math_ceil (js_div (of_int (?S + T)) (of_int (int (length vs)))) =
      of_int \<lceil>(of_int (?S + T) :: rat) / of_int (int (length vs))\<rceil>"
    using S assms(2-4) by (intro ceil_div_exact) simp_all
  ultimately show ?thesis
    by (simp add: targetOf_def fair_target_def)
qed

lemma fair_target_bound:
  assumes "0 < n" "0 \<le> S" "0 \<le> T" "S + T \<le> M"
  shows "fair_target S T n \<le> M"
proof -
  have "(of_int (S + T) :: rat) / of_nat n \<le> of_int (S + T) / 1"
    using assms by (intro divide_left_mono) simp_all
  also have "\<dots> \<le> of_int M"
    using assms(4) by (simp flip: of_int_add)
  finally show ?thesis
    by (simp add: fair_target_def ceiling_le_iff)
qed

section \<open>The stake that receives a delegation\<close>

lemma currentEpochStake_in:
  "currentEpochStake K C P v is s = (Inr (Some i), s') \<Longrightarrow> i \<in> set is"
  by (induction "is" arbitrary: s) (auto simp: io_simps split: if_splits)

lemma firstFree_in: "firstFree K C P v is a s = (Inr i, s') \<Longrightarrow> i = a \<or> i \<in> set is"
proof (induction "is" arbitrary: a s)
  case (Cons j js)
  then obtain b t where "firstFree K C P v js b t = (Inr i, s')" "b = j \<or> b = a"
    by (auto simp: io_simps split: option.splits if_splits)
  then show ?case
    using Cons.IH by auto
qed simp

lemma chooseStake_bound: "chooseStake K C P v s = (Inr i, s') \<Longrightarrow> i \<le> stakeCount v"
  by (fastforce simp: chooseStake_def io_simps split: option.splits dest: currentEpochStake_in firstFree_in)

text \<open>The cluster answers every request for an account. Requests for a stake may fail.\<close>

definition answers :: "('k, 'w) connection \<Rightarrow> bool" where
  "answers C \<longleftrightarrow> (\<forall>k w. \<exists>a w'. rpc_getAccountInfo C k w = (Inr a, w'))"

lemma getAccountInfo_answers: "answers C \<Longrightarrow> \<exists>a s'. getAccountInfo C k s = (Inr a, s')"
proof -
  assume "answers C"
  then obtain a w where "rpc_getAccountInfo C k (world s) = (Inr a, w)"
    unfolding answers_def by blast
  then show ?thesis
    by (simp add: getAccountInfo_def onWorld_def)
qed

lemma currentEpochStake_returns:
  assumes "derivable K" "\<forall>i\<in>set is. i < 2 ^ 32"
  shows "\<exists>r s'. currentEpochStake K C P v is s = (Inr r, s')"
  using assms(2)
proof (induction "is" arbitrary: s)
  case (Cons i js)
  let ?probe = "catchIO (bindIO (getStakeActivation C (stakeAddr K P v i))
    (\<lambda>sd. returnIO (sa_state sd = Activating \<and> sa_active sd = 0))) (\<lambda>e. returnIO False)"
  obtain b t where "?probe s = (Inr b, t)"
    using catchIO_total by fastforce
  then show ?case
    using Cons.IH [of t] Cons.prems stakeFor_ok [OF assms(1), of i P v] by (cases b) (simp_all add: bindIO_eval)
qed simp

lemma firstFree_returns:
  assumes "derivable K" "answers C" "\<forall>i\<in>set is. i < 2 ^ 32"
  shows "\<exists>r s'. firstFree K C P v is a s = (Inr r, s')"
  using assms(3)
proof (induction "is" arbitrary: a s)
  case (Cons i js)
  obtain x t where "getAccountInfo C (stakeAddr K P v i) s = (Inr x, t)"
    using getAccountInfo_answers [OF assms(2)] by blast
  then show ?case
    using Cons stakeFor_ok [OF assms(1), of i P v] by (simp add: bindIO_eval)
qed simp

lemma chooseStake_returns:
  assumes "derivable K" "answers C" "stakeCount v < 2 ^ 32"
  shows "\<exists>i s'. chooseStake K C P v s = (Inr i, s')"
proof -
  let ?is = "[0..<stakeCount v]"
  have small: "\<forall>i\<in>set ?is. i < 2 ^ 32"
    using assms(3) by auto
  obtain c t where c: "currentEpochStake K C P (votePubkey v) ?is s = (Inr c, t)"
    using currentEpochStake_returns [OF assms(1) small] by blast
  obtain i u where i: "(case c of Some i \<Rightarrow> returnIO i | None \<Rightarrow> firstFree K C P (votePubkey v) ?is (stakeCount v)) t = (Inr i, u)"
    using firstFree_returns [OF assms(1,2) small] by (cases c) fastforce+
  have "i \<le> stakeCount v"
    using c i by (auto split: option.splits dest!: currentEpochStake_in firstFree_in)
  then show ?thesis
    using c i assms(3) stakeFor_ok [OF assms(1), of i P "votePubkey v"]
    by (simp add: chooseStake_def bindIO_eval)
qed

section \<open>The loop over the validators\<close>

lemma quiet_currentEpochStake [quiet_intros]: "quiet (currentEpochStake K C P v is)"
  by (induction "is") (auto intro!: quiet_intros split: if_splits)

lemma quiet_firstFree [quiet_intros]: "quiet (firstFree K C P v is a)"
  by (induction "is" arbitrary: a) (auto intro!: quiet_intros)

lemma quiet_chooseStake [quiet_intros]: "quiet (chooseStake K C P v)"
  by (auto simp: chooseStake_def intro!: quiet_intros split: option.splits)

lemma quiet_batchLoop: "quiet (batchLoop K C P t vs l)"
  by (induction vs arbitrary: l) (auto intro!: quiet_intros split: prod.splits)

lemma batchLoop_returns:
  assumes "derivable K" "answers C" "list_all (\<lambda>v. stakeCount v < 2 ^ 32) vs"
  shows "\<exists>ds r s'. batchLoop K C P t vs l s = (Inr (ds, r), s')"
  using assms(3)
proof (induction vs arbitrary: l s)
  case (Cons v vs)
  obtain d l' where sh: "shareOf t (balance v) l = (d, l')"
    by fastforce
  obtain i u where "chooseStake K C P v s = (Inr i, u)"
    using chooseStake_returns [OF assms(1,2)] Cons.prems by fastforce
  moreover obtain ds r s' where "batchLoop K C P t vs l' u = (Inr (ds, r), s')"
    using Cons by fastforce
  ultimately show ?case
    using Cons by (simp add: sh bindIO_eval)
qed simp

definition index_known :: "'k ValidatorInfo list \<Rightarrow> 'k DepositReserveValidatorParam \<Rightarrow> bool" where
  "index_known vs d \<longleftrightarrow> (\<exists>v\<in>set vs. address d = votePubkey v \<and> dr_stakeIndex d \<le> stakeCount v)"

definition as_planned :: "'k DepositReserveValidatorParam list \<Rightarrow> ('k \<times> int) list \<Rightarrow> bool" where
  "as_planned ds ps \<longleftrightarrow> map (\<lambda>d. (address d, dr_amount d)) ds = map (\<lambda>(k, a). (k, of_int a)) ps"

lemma batchLoop_delegates:
  assumes "balance v = of_int b" "0 \<le> b" "b < t" "1 \<le> l" "l \<le> MAX_SAFE" "t \<le> MAX_SAFE" "share t b l = (d, l')"
    "batchLoop K C P (of_int t) (v # vs) (of_int l) s = (Inr (ds, r), s')"
  obtains i u ds' where "chooseStake K C P v s = (Inr i, u)"
    "batchLoop K C P (of_int t) vs (of_int l') u = (Inr (ds', r), s')"
    "ds = \<lparr>address = votePubkey v, dr_amount = of_int d, dr_stakeIndex = i\<rparr> # ds'"
proof -
  have "shareOf (of_int t) (balance v) (of_int l) = (of_int d, of_int l')"
    using assms(2-7) shareOf_int [of b t l d l'] unfolding assms(1) by simp
  moreover have "\<not> balance v \<ge> of_int t" "\<not> (of_int l :: rat) < 1"
    using assms(1,3,4) by simp_all
  ultimately show thesis
    using assms(8) by (auto simp: io_simps split: prod.splits intro: that)
qed

lemma batchLoop_plan:
  assumes "list_all whole vs" "0 \<le> l" "l \<le> MAX_SAFE" "t \<le> MAX_SAFE"
    "batchLoop K C P (of_int t) vs (of_int l) s = (Inr (ds, r), s')"
  shows "\<exists>ps r'. plan t (holdings vs) l = (ps, r') \<and> r = of_int r' \<and> as_planned ds ps \<and> list_all (index_known vs) ds"
  using assms
proof (induction vs arbitrary: l s ds r)
  case Nil
  then show ?case
    by (simp add: holdings_def as_planned_def)
next
  case (Cons v vs)
  let ?b = "\<lfloor>balance v\<rfloor>"
  have b: "balance v = of_int ?b" "0 \<le> ?b"
    using Cons.prems(1) by (auto simp: whole_def)
  have h: "holdings (v # vs) = (votePubkey v, ?b) # holdings vs"
    by (simp add: holdings_def)
  have tb: "(balance v \<ge> of_int t) = (?b \<ge> t)"
    using b(1) of_int_le_iff [of t ?b, where 'a = rat] by argo
  have l1: "((of_int l :: rat) < 1) = (l < 1)"
    by simp
  consider "l < 1" | "1 \<le> l" "?b \<ge> t" | "1 \<le> l" "?b < t"
    by linarith
  then show ?case
  proof cases
    case 1
    then show ?thesis
      using Cons.prems(5) by (simp add: h as_planned_def)
  next
    case 2
    then have "batchLoop K C P (of_int t) vs (of_int l) s = (Inr (ds, r), s')"
      using Cons.prems(5) tb by simp
    then obtain ps r' where "plan t (holdings vs) l = (ps, r')" "r = of_int r'" "as_planned ds ps"
      "list_all (index_known vs) ds"
      using Cons.IH Cons.prems(1-4) by fastforce
    then show ?thesis
      using 2 by (auto simp: h index_known_def list_all_iff)
  next
    case 3
    obtain d l' where sh: "share t ?b l = (d, l')"
      by fastforce
    from 3 b Cons.prems(3-5) sh obtain i u ds' where
      i: "chooseStake K C P v s = (Inr i, u)" and
      rest: "batchLoop K C P (of_int t) vs (of_int l') u = (Inr (ds', r), s')" and
      ds: "ds = \<lparr>address = votePubkey v, dr_amount = of_int d, dr_stakeIndex = i\<rparr> # ds'"
      by (elim batchLoop_delegates [rotated -1])
    have l': "0 \<le> l'" "l' \<le> MAX_SAFE"
      using share_facts [OF sh 3(2,1)] Cons.prems(3) by simp_all
    obtain ps r' where "plan t (holdings vs) l' = (ps, r')" "r = of_int r'" "as_planned ds' ps"
      "list_all (index_known vs) ds'"
      using Cons.IH [OF _ l' Cons.prems(4) rest] Cons.prems(1) by fastforce
    then show ?thesis
      using 3 sh chooseStake_bound [OF i] by (auto simp: h ds as_planned_def index_known_def list_all_iff)
  qed
qed

section \<open>The instructions of a batch\<close>

lemma as_planned_facts:
  assumes "as_planned ds ps"
  shows "map address ds = map fst ps" "sum_list (map dr_amount ds) = of_int (sum_list (map snd ps))"
    "list_all (\<lambda>d. \<exists>a. (address d, a) \<in> set ps \<and> dr_amount d = of_int a) ds"
proof -
  show "map address ds = map fst ps"
    using arg_cong [OF assms [unfolded as_planned_def], of "map fst"] by (simp add: o_def case_prod_unfold)
  have "map dr_amount ds = map (\<lambda>p. of_int (snd p)) ps"
    using arg_cong [OF assms [unfolded as_planned_def], of "map snd"] by (simp add: o_def case_prod_unfold)
  moreover have "sum_list (map (\<lambda>p. of_int (snd p)) ps) = (of_int (sum_list (map snd ps)) :: rat)"
    by (induction ps) simp_all
  ultimately show "sum_list (map dr_amount ds) = of_int (sum_list (map snd ps))"
    by simp
  have "(address d, dr_amount d) \<in> set (map (\<lambda>(k, a). (k, of_int a)) ps)" if "d \<in> set ds" for d
    using that unfolding assms [unfolded as_planned_def, symmetric] by simp
  then show "list_all (\<lambda>d. \<exists>a. (address d, a) \<in> set ps \<and> dr_amount d = of_int a) ds"
    by (fastforce simp: list_all_iff)
qed

text \<open>
  The shape of a correct batch: the amounts add up to the total, at most one delegation for each
  validator and in their order, to a stake index the program accepts, and no validator gets a
  full SOL above the even share.
\<close>

definition correct_batch :: "'k ValidatorInfo list \<Rightarrow> int \<Rightarrow> 'k DepositReserveValidatorParam list \<Rightarrow> bool" where
  "correct_batch vs T ds \<longleftrightarrow>
     sum_list (map dr_amount ds) = of_int T \<and>
     subseq (map address ds) (map votePubkey vs) \<and>
     list_all (index_known vs) ds \<and>
     list_all (\<lambda>d. dr_amount d > 0 \<and> (\<exists>v\<in>set vs. address d = votePubkey v \<and>
       balance v + dr_amount d < targetOf vs (of_int T) + MIN_STAKE_ACCOUNT_BALANCE)) ds"

definition batch_ready :: "'k ValidatorInfo list \<Rightarrow> int \<Rightarrow> bool" where
  "batch_ready vs T \<longleftrightarrow> vs \<noteq> [] \<and> list_all whole vs \<and> list_all (\<lambda>v. stakeCount v < 2 ^ 32) vs \<and>
     1000000000 \<le> T \<and> sum_list (map snd (holdings vs)) + T < MAX_SAFE"

lemma batch_planned:
  assumes "batch_ready vs T" "batchLoop K C P (targetOf vs (of_int T)) vs (of_int T) s = (Inr (ds, r), s')"
  obtains ps where "plan (fair_target (sum_list (map snd (holdings vs))) T (length vs)) (holdings vs) T = (ps, 0)"
    "r = 0" "as_planned ds ps" "list_all (index_known vs) ds"
    "targetOf vs (of_int T) = of_int (fair_target (sum_list (map snd (holdings vs))) T (length vs))"
proof -
  let ?S = "sum_list (map snd (holdings vs))" and ?t = "fair_target (sum_list (map snd (holdings vs))) T (length vs)"
  have r: "vs \<noteq> []" "list_all whole vs" "1000000000 \<le> T" "?S + T < MAX_SAFE"
    using assms(1) by (simp_all add: batch_ready_def)
  have S: "0 \<le> ?S"
    using r(2) by (intro sum_list_nonneg) (auto simp: holdings_def whole_def list_all_iff)
  have t: "targetOf vs (of_int T) = of_int ?t"
    using r by (intro targetOf_int) simp_all
  have "?t \<le> MAX_SAFE"
    using r S by (intro fair_target_bound) simp_all
  then obtain ps r' where ps: "plan ?t (holdings vs) T = (ps, r')" "r = of_int r'" "as_planned ds ps"
    "list_all (index_known vs) ds"
    using batchLoop_plan [OF r(2) _ _ _ assms(2) [unfolded t]] r S by fastforce
  have "r' = 0"
    using plan_complete(1) [of "holdings vs" T ps r'] ps(1) r by (simp add: holdings_def)
  then show thesis
    using that ps t by simp
qed

lemma batchLoop_correct:
  assumes "batch_ready vs T" "batchLoop K C P (targetOf vs (of_int T)) vs (of_int T) s = (Inr (ds, r), s')"
  shows "r = 0" "correct_batch vs T ds"
proof -
  let ?t = "fair_target (sum_list (map snd (holdings vs))) T (length vs)"
  obtain ps where ps: "plan ?t (holdings vs) T = (ps, 0)" "r = 0" "as_planned ds ps" "list_all (index_known vs) ds"
    and t: "targetOf vs (of_int T) = of_int ?t"
    using batch_planned [OF assms] .
  show "r = 0"
    by (rule ps(2))
  have "sum_list (map snd ps) = T"
    using plan_total [OF ps(1)] by simp
  moreover have "subseq (map address ds) (map votePubkey vs)"
    using plan_order [OF ps(1)] by (simp add: as_planned_facts(1) [OF ps(3)] holdings_def o_def)
  moreover have "dr_amount d > 0 \<and> (\<exists>v\<in>set vs. address d = votePubkey v \<and>
      balance v + dr_amount d < of_int ?t + MIN_STAKE_ACCOUNT_BALANCE)" if d: "d \<in> set ds" for d
  proof -
    obtain a where a: "(address d, a) \<in> set ps" "dr_amount d = of_int a"
      using as_planned_facts(3) [OF ps(3)] d by (auto simp: list_all_iff)
    obtain b where b: "(address d, b) \<in> set (holdings vs)" "0 < a" "b + a < ?t + 1000000000"
      using plan_entries [OF ps(1) a(1)] by blast
    obtain v where v: "v \<in> set vs" "address d = votePubkey v" "balance v = of_int b"
      using b(1) assms(1) by (auto simp: holdings_def batch_ready_def whole_def list_all_iff)
    have "(of_int (b + a) :: rat) < of_int (?t + 1000000000)"
      using b(3) by (simp only: of_int_less_iff)
    then show ?thesis
      using v a(2) b(2) by (auto simp: MIN_STAKE_ACCOUNT_BALANCE_def intro!: bexI [of _ v])
  qed
  ultimately show "correct_batch vs T ds"
    using ps(3,4) by (simp add: correct_batch_def t as_planned_facts(2) list_all_iff)
qed

lemma batchLoop_encodable:
  assumes "batch_ready vs T" "batchLoop K C P (targetOf vs (of_int T)) vs (of_int T) s = (Inr (ds, r), s')"
  shows "list_all delegate_ok ds"
proof -
  obtain ps where ps: "plan (fair_target (sum_list (map snd (holdings vs))) T (length vs)) (holdings vs) T = (ps, 0)"
    "as_planned ds ps" "list_all (index_known vs) ds"
    using batch_planned [OF assms] .
  have nonneg: "0 \<le> sum_list (map snd (holdings vs))"
    using assms(1) by (intro sum_list_nonneg) (auto simp: batch_ready_def holdings_def whole_def list_all_iff)
  have "delegate_ok d" if d: "d \<in> set ds" for d
  proof -
    obtain a where a: "(address d, a) \<in> set ps" "dr_amount d = of_int a"
      using as_planned_facts(3) [OF ps(2)] d by (auto simp: list_all_iff)
    have "0 < a" "a \<le> T"
      using plan_entries [OF ps(1) a(1)] plan_le [OF ps(1) a(1)] by auto
    moreover have "T < 2 ^ 64"
      using assms(1) nonneg by (simp add: batch_ready_def MAX_SAFE_def)
    ultimately have "0 < a" "a < 2 ^ 64"
      by simp_all
    then have "0 \<le> dr_amount d" "dr_amount d < 2 ^ 64"
      unfolding a(2) by simp_all
    moreover have "dr_stakeIndex d < 2 ^ 32"
      using ps(3) d assms(1) by (fastforce simp: list_all_iff index_known_def batch_ready_def)
    ultimately show ?thesis
      by (simp add: delegate_ok_def a(2))
  qed
  then show ?thesis
    by (simp add: list_all_iff)
qed

lemma chunks_ready:
  assumes "derivable K" "lodash_chunk chunk" "list_all delegate_ok ds"
  shows "list_all (delegate_ready K) (chunk ds 4)"
  using assms(1) chunk_all [OF assms(2) _ assms(3), of 4] lodash_chunkD(2) [OF assms(2), of 4 ds]
  by (auto simp: list_all_iff delegate_ready_def)

abbreviation delegate_tx :: "'k keylib \<Rightarrow> 'k TenderizeProgram \<Rightarrow> 'k DepositReserveValidatorParam list \<Rightarrow> 'k sent_tx" where
  "delegate_tx K P ds \<equiv> tx_of (projr (delegateReserveInstruction K P ds)) [payerAccount P, owner P]"

lemma MIN_le [simp]: "1000000000 \<le> T \<Longrightarrow> \<not> of_int T < MIN_STAKE_ACCOUNT_BALANCE"
  unfolding MIN_STAKE_ACCOUNT_BALANCE_def by (metis not_less of_int_le_iff of_int_numeral)

text \<open>What the code takes for a free stake index, when the accounts are those of \<open>A\<close>.\<close>

definition free_stake :: "'k keylib \<Rightarrow> ('k \<Rightarrow> 'k account_info option) \<Rightarrow> 'k \<Rightarrow> bool" where
  "free_stake K A addr \<longleftrightarrow>
     (case A addr of None \<Rightarrow> True | Some acc \<Rightarrow> ref_eq (acc_owner acc) (SystemProgram_programId K))"

lemma firstFree_filter:
  assumes "derivable K" "\<forall>k. getAccountInfo C k s = (Inr (A k), s)" "\<forall>i\<in>set is. i < 2 ^ 32"
  shows "firstFree K C P v is a s = (Inr (last (a # filter (\<lambda>i. free_stake K A (stakeAddr K P v i)) is)), s)"
  using assms(3)
proof (induction "is" arbitrary: a)
  case (Cons i js)
  then show ?case
    using assms(2) stakeFor_ok [OF assms(1), of i P v]
    by (simp add: bindIO_eval free_stake_def split: option.splits)
qed simp

lemma batch_ready_sample: "batch_ready sample_infos 2000000000"
  by (simp add: batch_ready_def sample_infos_def whole_def holdings_def MAX_SAFE_def)

lemma answers_sample [simp]: "answers sample_connection"
  by (simp add: answers_def sample_connection_def)

abbreviation sample_start :: "(key, sample_world) sys" where
  "sample_start \<equiv> sample_sys ([14 \<mapsto> sample_account sample_validators], \<lambda>_. sample_stake)"

lemma sample_start_validators:
  "readValidators sample_keys sample_connection sample_program sample_start = (Inr sample_infos, sample_start)"
  by (intro sample_readValidators) (simp add: sample_sys_def)

section \<open>Properties\<close>





text \<open>
  \<open>delegateReserveBatch\<close> refuses what it cannot delegate before it sends anything: less than one
  SOL is refused before the cluster is asked, and a pool without validators right after.
\<close>

lemma delegateReserveBatch_guards:
  shows "(T < MIN_STAKE_ACCOUNT_BALANCE \<longrightarrow>
      delegateReserveBatch chunk K C P T s = (Inl (Error ''Too low delegation''), s)) \<and>
    (T \<ge> MIN_STAKE_ACCOUNT_BALANCE \<and> readValidators K C P s = (Inr [], s1) \<longrightarrow>
      delegateReserveBatch chunk K C P T s = (Inl (Error ''No validator added''), s1) \<and> sent s1 = sent s)"
  using quietD [OF quiet_readers(2)] by (auto simp: delegateReserveBatch_def bindIO_eval)

lemma delegateReserveBatch_guards_witness:
  "delegateReserveBatch sample_chunk sample_keys sample_connection sample_program 999999999 sample_start =
    (Inl (Error ''Too low delegation''), sample_start)"
  using delegateReserveBatch_guards [of 999999999 sample_chunk sample_keys sample_connection sample_program sample_start]
  by (simp add: MIN_STAKE_ACCOUNT_BALANCE_def)

text \<open>
  The even share of a validator can be a single lamport, however much is left: the batch then
  delegates less than the minimum the program demands for a new stake account.
\<close>

lemma share_below_minimum:
  assumes "1 \<le> t" "t \<le> MAX_SAFE" "1000000001 \<le> l" "l \<le> MAX_SAFE"
  shows "shareOf (of_int t) (of_int (t - 1)) (of_int l) = (1, of_int (l - 1)) \<and> 1 < onchain_MIN_STAKE_ACCOUNT_BALANCE"
proof -
  have "share t (t - 1) l = (1, l - 1)"
    using assms(3) by (simp add: share_def Let_def)
  then show ?thesis
    using shareOf_int [of "t - 1" t l 1 "l - 1"] assms by (simp add: onchain_MIN_STAKE_ACCOUNT_BALANCE_def)
qed

lemma share_below_minimum_witness:
  "shareOf (of_int 5000000000) (of_int (5000000000 - 1)) (of_int 5000000001) = (1, of_int (5000000001 - 1))"
  using share_below_minimum [of 5000000000 5000000001] by (simp add: MAX_SAFE_def)

text \<open>
  \<open>firstFreeIndex\<close> is the last free index, not the first: the search does not stop at the first
  account that is missing.
\<close>

lemma firstFree_is_last:
  assumes "derivable K" "\<forall>k. getAccountInfo C k s = (Inr (A k), s)" "n < 2 ^ 32"
    "free_stake K A (stakeAddr K P v j)" "j < n" "\<forall>i. j < i \<and> i < n \<longrightarrow> \<not> free_stake K A (stakeAddr K P v i)"
  shows "firstFree K C P v [0..<n] n s = (Inr j, s)"
proof -
  have "[0..<n] = [0..<j] @ j # [Suc j..<n]"
    using assms(5) by (metis less_imp_le_nat upt_add_eq_append upt_conv_Cons le_add_diff_inverse zero_le)
  moreover have "filter (\<lambda>i. free_stake K A (stakeAddr K P v i)) [Suc j..<n] = []"
    using assms(6) by (auto simp: filter_empty_conv)
  ultimately have "last (n # filter (\<lambda>i. free_stake K A (stakeAddr K P v i)) [0..<n]) = j"
    using assms(4) by simp
  then show ?thesis
    using assms(3) firstFree_filter [OF assms(1,2), of "[0..<n]" P v n] by simp
qed

lemma firstFree_is_last_witness:
  "firstFree sample_keys sample_connection sample_program 7 [0..<3] 3 (sample_sys (\<lambda>_. None, \<lambda>_. sample_stake)) =
    (Inr 2, sample_sys (\<lambda>_. None, \<lambda>_. sample_stake))"
  using firstFree_is_last [OF derivable_sample, of sample_connection "sample_sys (\<lambda>_. None, \<lambda>_. sample_stake)"
    "\<lambda>_. None" 3 sample_program 7 2]
  by (simp add: sample_sys_def free_stake_def)

text \<open>
  An account that went back to the system program is never taken for free: its owner is compared
  by object identity, and every answer of the cluster carries a new object. All indices then count
  as used and the search returns the stake count.
\<close>

lemma returned_stakes_not_reused:
  assumes "derivable K" "\<forall>k. getAccountInfo C k s = (Inr (A k), s)" "n < 2 ^ 32"
    "\<forall>i<n. \<exists>acc. A (stakeAddr K P v i) = Some acc \<and> ref_key (acc_owner acc) = ref_key (SystemProgram_programId K) \<and>
      ref_id (acc_owner acc) \<noteq> ref_id (SystemProgram_programId K)"
  shows "firstFree K C P v [0..<n] n s = (Inr n, s)"
proof -
  have "filter (\<lambda>i. free_stake K A (stakeAddr K P v i)) [0..<n] = []"
    using assms(4) by (auto simp: filter_empty_conv free_stake_def ref_eq_def split: option.splits)
  then show ?thesis
    using assms(3) firstFree_filter [OF assms(1,2), of "[0..<n]" P v n] by simp
qed

lemma returned_stakes_not_reused_witness:
  "firstFree sample_keys sample_connection sample_program 7 [0..<2] 2
      (sample_sys (\<lambda>_. Some \<lparr>acc_owner = KeyRef 5 4, lamports = 1, acc_data = []\<rparr>, \<lambda>_. sample_stake)) =
    (Inr 2, sample_sys (\<lambda>_. Some \<lparr>acc_owner = KeyRef 5 4, lamports = 1, acc_data = []\<rparr>, \<lambda>_. sample_stake))"
  using returned_stakes_not_reused [OF derivable_sample, of sample_connection
    "sample_sys (\<lambda>_. Some \<lparr>acc_owner = KeyRef 5 4, lamports = 1, acc_data = []\<rparr>, \<lambda>_. sample_stake)"
    "\<lambda>_. Some \<lparr>acc_owner = KeyRef 5 4, lamports = 1, acc_data = []\<rparr>" 2 sample_program 7]
  by (simp add: sample_sys_def)

end
