(* ===== verification/Stake_Merging.thy ===== *)
theory Stake_Merging
  imports Reserve_Delegation
begin

text \<open>
  \<open>mergeAllStakes\<close> of \<open>experiment/tenderize.ts\<close>: the active stakes of a validator are merged into the
  one with the lowest index. The program side, \<open>process_merge_stakes\<close> of \<open>processor.rs\<close>, is a run
  relation over the stake counts: an instruction is refused unless its indices are in range, and
  merging away the last stake lowers the count. Whether a merge happens or is passed over depends
  on the stakes' credits and is left open.
\<close>

section \<open>Merging stakes\<close>

fun mergeIndices ::
  "'k keylib \<Rightarrow> ('k, 'w) connection \<Rightarrow> 'k TenderizeProgram \<Rightarrow> 'k \<Rightarrow> nat list \<Rightarrow> ('k, 'w, nat list) client" where
  "mergeIndices K C P v [] = returnIO []"
| "mergeIndices K C P v (i # is) =
     bindIO (liftE (getStakeForValidator K P v i)) (\<lambda>stakeAddress.
     bindIO (catchIO
       (bindIO (getStakeActivation C stakeAddress) (\<lambda>stakeData. returnIO (sa_state stakeData = Active)))
       (\<lambda>e. returnIO False)) (\<lambda>active.
     bindIO (mergeIndices K C P v is) (\<lambda>rest. returnIO (if active then i # rest else rest))))"

text \<open>All but the first index, from the last to the second, each merged into the first.\<close>

definition pairsOf :: "'k \<Rightarrow> nat list \<Rightarrow> 'k StakePair list" where
  "pairsOf v is =
     (case is of
        [] \<Rightarrow> []
      | m # as \<Rightarrow> map (\<lambda>a. \<lparr>sp_validator = v, mainIndex = m, additionalIndex = a\<rparr>) (rev as))"

fun mergePairs ::
  "'k keylib \<Rightarrow> ('k, 'w) connection \<Rightarrow> 'k TenderizeProgram \<Rightarrow> 'k ValidatorInfo list \<Rightarrow> ('k, 'w, 'k StakePair list) client" where
  "mergePairs K C P [] = returnIO []"
| "mergePairs K C P (v # vs) =
     bindIO (mergeIndices K C P (votePubkey v) [0..<stakeCount v]) (\<lambda>is.
     bindIO (mergePairs K C P vs) (\<lambda>rest. returnIO (pairsOf (votePubkey v) is @ rest)))"

definition mergeAllStakes ::
  "('k StakePair list \<Rightarrow> nat \<Rightarrow> 'k StakePair list list) \<Rightarrow>
   'k keylib \<Rightarrow> ('k, 'w) connection \<Rightarrow> 'k TenderizeProgram \<Rightarrow> ('k, 'w, unit) client" where
  "mergeAllStakes chunk K C P =
     bindIO (readValidators K C P) (\<lambda>vs.
     if length vs = 0 then returnIO ()
     else
       bindIO (mergePairs K C P vs) (\<lambda>stakePairs.
       forIO (mergeStakes K C P) (chunk stakePairs 4)))"

section \<open>The program's side\<close>

definition merge_guard :: "'k StakePair \<Rightarrow> ('k \<rightharpoonup> nat) \<Rightarrow> bool" where
  "merge_guard sp cnt =
     (case cnt (sp_validator sp) of
        None \<Rightarrow> False
      | Some n \<Rightarrow>
          \<not> (mainIndex sp \<ge> n \<or> additionalIndex sp \<ge> n \<or> mainIndex sp \<ge> additionalIndex sp))"

definition shrink :: "'k StakePair \<Rightarrow> ('k \<rightharpoonup> nat) \<Rightarrow> ('k \<rightharpoonup> nat)" where
  "shrink sp cnt =
     (if cnt (sp_validator sp) = Some (additionalIndex sp + 1)
      then cnt(sp_validator sp \<mapsto> additionalIndex sp) else cnt)"

inductive merge_run :: "'k StakePair list \<Rightarrow> ('k \<rightharpoonup> nat) \<Rightarrow> ('k \<rightharpoonup> nat) \<Rightarrow> bool" where
  done_run: "merge_run [] c c"
| merged: "merge_guard sp c \<Longrightarrow> merge_run sps (shrink sp c) c' \<Longrightarrow> merge_run (sp # sps) c c'"
| passed_over: "merge_guard sp c \<Longrightarrow> merge_run sps c c' \<Longrightarrow> merge_run (sp # sps) c c'"

inductive_cases merge_run_ConsE: "merge_run (sp # sps) c c'"
inductive_simps merge_run_Nil [simp]: "merge_run [] c c'"

text \<open>However the merges before it went, no instruction of the list is refused.\<close>

definition never_refused :: "'k StakePair list \<Rightarrow> ('k \<rightharpoonup> nat) \<Rightarrow> bool" where
  "never_refused sps c \<longleftrightarrow> (\<forall>xs sp ys c'. sps = xs @ sp # ys \<and> merge_run xs c c' \<longrightarrow> merge_guard sp c')"

definition counts_of :: "'k ValidatorInfo list \<Rightarrow> ('k \<rightharpoonup> nat) \<Rightarrow> bool" where
  "counts_of vs c \<longleftrightarrow> (\<forall>v\<in>set vs. c (votePubkey v) = Some (stakeCount v))"

text \<open>The order that makes a list safe: for one validator, from the highest index down.\<close>

definition descending :: "'k StakePair \<Rightarrow> 'k StakePair \<Rightarrow> bool" where
  "descending p q \<longleftrightarrow> (sp_validator p = sp_validator q \<longrightarrow> additionalIndex q < additionalIndex p)"

definition mergeable :: "'k StakePair list \<Rightarrow> ('k \<rightharpoonup> nat) \<Rightarrow> bool" where
  "mergeable sps c \<longleftrightarrow> list_all (\<lambda>sp. merge_guard sp c) sps \<and> sorted_wrt descending sps"

lemma mergeable_Cons:
  assumes "mergeable (sp # sps) c"
  shows "merge_guard sp c" "mergeable sps c" "mergeable sps (shrink sp c)"
proof -
  show "merge_guard sp c" "mergeable sps c"
    using assms by (simp_all add: mergeable_def)
  have "merge_guard q (shrink sp c)" if "merge_guard q c" "descending sp q" for q
    using that by (auto simp: merge_guard_def shrink_def descending_def split: option.splits)
  then show "mergeable sps (shrink sp c)"
    using assms by (auto simp: mergeable_def list_all_iff)
qed

lemma mergeable_run:
  assumes "merge_run xs c c'" "mergeable (xs @ ys) c"
  shows "mergeable ys c'"
  using assms by (induction rule: merge_run.induct) (auto dest: mergeable_Cons)

lemma mergeable_never_refused: "mergeable sps c \<Longrightarrow> never_refused sps c"
  unfolding never_refused_def using mergeable_run mergeable_Cons(1) by blast

section \<open>The pairs the client builds\<close>

lemma subseq_in: "subseq xs ys \<Longrightarrow> x \<in> set xs \<Longrightarrow> x \<in> set ys"
  by (auto dest: list_emb_set)

lemma sorted_wrt_subseq: "subseq xs ys \<Longrightarrow> sorted_wrt R ys \<Longrightarrow> sorted_wrt R xs"
  by (induction rule: list_emb.induct) (auto dest: subseq_in)

lemma mergeIndices_subseq: "mergeIndices K C P v is s = (Inr js, s') \<Longrightarrow> subseq js is"
  by (induction "is" arbitrary: s js) (auto simp: io_simps split: if_splits)

lemma pairsOf_mergeable:
  assumes "sorted_wrt (<) is" "\<forall>i\<in>set is. i < n" "c v = Some n"
  shows "mergeable (pairsOf v is) c"
proof (cases "is")
  case (Cons m as)
  have "sorted_wrt (\<lambda>x y. y < x) (rev as)"
    using assms(1) Cons by (simp add: sorted_wrt_rev)
  then have "sorted_wrt descending (pairsOf v is)"
    using Cons by (auto simp: pairsOf_def sorted_wrt_map descending_def elim: sorted_wrt_mono_rel [rotated])
  then show ?thesis
    using assms Cons by (auto simp: mergeable_def pairsOf_def list_all_iff merge_guard_def)
qed (simp add: pairsOf_def mergeable_def)

lemma pairsOf_validator: "sp \<in> set (pairsOf v is) \<Longrightarrow> sp_validator sp = v"
  by (auto simp: pairsOf_def split: list.splits)

lemma mergePairs_mergeable:
  assumes "mergePairs K C P vs s = (Inr sps, s')" "distinct (map votePubkey vs)" "counts_of vs c"
  shows "mergeable sps c \<and> sp_validator ` set sps \<subseteq> votePubkey ` set vs"
  using assms
proof (induction vs arbitrary: s sps)
  case (Cons v vs)
  obtain "is" t rest where 1: "mergeIndices K C P (votePubkey v) [0..<stakeCount v] s = (Inr is, t)"
    and 2: "mergePairs K C P vs t = (Inr rest, s')" and 3: "sps = pairsOf (votePubkey v) is @ rest"
    using Cons.prems(1) by (auto simp: io_simps)
  have IH: "mergeable rest c" "sp_validator ` set rest \<subseteq> votePubkey ` set vs"
    using Cons.IH [OF 2] Cons.prems(2,3) by (simp_all add: counts_of_def)
  have sub: "subseq is [0..<stakeCount v]"
    using mergeIndices_subseq [OF 1] .
  then have "sorted_wrt (<) is" "\<forall>i\<in>set is. i < stakeCount v"
    using sorted_wrt_subseq [OF sub] by (auto dest: subseq_in)
  then have "mergeable (pairsOf (votePubkey v) is) c"
    using Cons.prems(3) by (intro pairsOf_mergeable) (simp_all add: counts_of_def)
  moreover have "sp_validator q \<noteq> votePubkey v" if "q \<in> set rest" for q
    using subsetD [OF IH(2) imageI [OF that]] Cons.prems(2) by auto
  then have "sorted_wrt descending (pairsOf (votePubkey v) is @ rest)"
    using calculation IH(1)
    by (auto simp: sorted_wrt_append mergeable_def descending_def dest!: pairsOf_validator)
  ultimately show ?case
    using IH by (auto simp: 3 mergeable_def dest: pairsOf_validator)
qed (simp add: mergeable_def)

lemma mergeIndices_returns:
  assumes "derivable K" "\<forall>i\<in>set is. i < 2 ^ 32"
  shows "\<exists>js s'. mergeIndices K C P v is s = (Inr js, s')"
  using assms(2)
proof (induction "is" arbitrary: s)
  case (Cons i js)
  let ?probe = "catchIO (bindIO (getStakeActivation C (stakeAddr K P v i))
    (\<lambda>sd. returnIO (sa_state sd = Active))) (\<lambda>e. returnIO False)"
  obtain b t where "?probe s = (Inr b, t)"
    using catchIO_total by fastforce
  then show ?case
    using Cons.IH [of t] Cons.prems stakeFor_ok [OF assms(1), of i P v] by (auto simp: bindIO_eval)
qed simp

lemma mergePairs_returns:
  assumes "derivable K" "list_all (\<lambda>v. stakeCount v < 2 ^ 32) vs"
  shows "\<exists>sps s'. mergePairs K C P vs s = (Inr sps, s')"
  using assms(2)
proof (induction vs arbitrary: s)
  case (Cons v vs)
  obtain js t where 1: "mergeIndices K C P (votePubkey v) [0..<stakeCount v] s = (Inr js, t)"
    using mergeIndices_returns [OF assms(1), of "[0..<stakeCount v]"] Cons.prems by fastforce
  then obtain sps u where "mergePairs K C P vs t = (Inr sps, u)"
    using Cons by fastforce
  with 1 show ?case
    by (simp add: bindIO_eval)
qed simp

lemma mergePairs_encodable:
  assumes "wf_keys K" "mergePairs K C P vs s = (Inr sps, s')" "list_all (\<lambda>v. stakeCount v < 2 ^ 32) vs"
  shows "list_all (merge_ok K) sps"
  using assms(2,3)
proof (induction vs arbitrary: s sps)
  case (Cons v vs)
  obtain js t rest where 1: "mergeIndices K C P (votePubkey v) [0..<stakeCount v] s = (Inr js, t)"
    and 2: "mergePairs K C P vs t = (Inr rest, s')" and 3: "sps = pairsOf (votePubkey v) js @ rest"
    using Cons.prems(1) by (auto simp: io_simps)
  have "\<forall>i\<in>set js. i < 2 ^ 32"
    using mergeIndices_subseq [OF 1] Cons.prems(2) by (auto dest!: subseq_in)
  then have "list_all (merge_ok K) (pairsOf (votePubkey v) js)"
    using assms(1) by (auto simp: pairsOf_def list_all_iff merge_ok_def wf_keys_def split: list.splits)
  then show ?case
    using Cons.IH [OF 2] Cons.prems(2) 3 by simp
qed simp

lemma quiet_mergeIndices [quiet_intros]: "quiet (mergeIndices K C P v is)"
  by (induction "is") (auto intro!: quiet_intros)

lemma quiet_mergePairs: "quiet (mergePairs K C P vs)"
  by (induction vs) (auto intro!: quiet_intros)

lemma merge_chunks_ready:
  assumes "derivable K" "lodash_chunk chunk" "list_all (merge_ok K) sps"
  shows "list_all (merge_ready K) (chunk sps 4)"
  using assms(1) chunk_all [OF assms(2) _ assms(3), of 4] lodash_chunkD(2) [OF assms(2), of 4 sps]
  by (auto simp: list_all_iff merge_ready_def)

abbreviation merge_tx :: "'k keylib \<Rightarrow> 'k TenderizeProgram \<Rightarrow> 'k StakePair list \<Rightarrow> 'k sent_tx" where
  "merge_tx K P sps \<equiv> tx_of (projr (mergeStakesInstruction K P sps)) [payerAccount P]"

text \<open>With stakes that do not change while they are read, the active indices are a filter.\<close>

definition active_stake :: "('k \<Rightarrow> stake_activation res) \<Rightarrow> 'k \<Rightarrow> bool" where
  "active_stake A k \<longleftrightarrow> (case A k of Inr sd \<Rightarrow> sa_state sd = Active | Inl _ \<Rightarrow> False)"

lemma mergeIndices_filter:
  assumes "derivable K" "\<forall>k. getStakeActivation C k s = (A k, s)" "\<forall>i\<in>set is. i < 2 ^ 32"
  shows "mergeIndices K C P v is s = (Inr (filter (\<lambda>i. active_stake A (stakeAddr K P v i)) is), s)"
  using assms(3)
proof (induction "is")
  case (Cons i js)
  have "catchIO (bindIO (getStakeActivation C (stakeAddr K P v i)) (\<lambda>sd. returnIO (sa_state sd = Active)))
      (\<lambda>e. returnIO False) s = (Inr (active_stake A (stakeAddr K P v i)), s)"
    using assms(2) by (cases "A (stakeAddr K P v i)") (simp_all add: catchIO_def bindIO_def active_stake_def)
  then show ?case
    using Cons stakeFor_ok [OF assms(1), of i P v] by (simp add: bindIO_eval)
qed simp

lemma upt_3: "[0..<3] = [0, 1, 2]"
  by (simp add: numeral_3_eq_3 numeral_2_eq_2)

section \<open>Properties\<close>

text \<open>
  C9. \<open>mergeAllStakes\<close> asks for nothing the program refuses. On an accepting cluster it returns,
  having sent transactions of one to four pairs; for distinct validators with the stake counts
  read, the program's guard holds for every pair in turn, whichever of the earlier merges the
  program carried out or passed over.
\<close>

theorem mergeAllStakes_accepted:
  assumes "derivable K" "wf_keys K" "accepts C" "lodash_chunk chunk"
    "readValidators K C P s = (Inr vs, s1)" "vs \<noteq> []" "list_all (\<lambda>v. stakeCount v < 2 ^ 32) vs"
    "distinct (map votePubkey vs)" "counts_of vs c"
  shows "\<exists>s' spss. mergeAllStakes chunk K C P s = (Inr (), s') \<and>
    sent s' = sent s @ map (merge_tx K P) spss \<and>
    list_all (\<lambda>sps. sps \<noteq> [] \<and> length sps \<le> 4) spss \<and> never_refused (concat spss) c"
proof -
  obtain sps s2 where m: "mergePairs K C P vs s1 = (Inr sps, s2)"
    using mergePairs_returns [OF assms(1,7)] by blast
  obtain s' where f: "forIO (mergeStakes K C P) (chunk sps 4) s2 = (Inr (), s')"
    "sent s' = sent s2 @ map (merge_tx K P) (chunk sps 4)"
    using merge_sender.forIO_succeeds [OF assms(3) merge_chunks_ready [OF assms(1,4) mergePairs_encodable [OF assms(2) m assms(7)]]]
    by blast
  have "sent s2 = sent s"
    using quietD [OF quiet_readers(2) assms(5)] quietD [OF quiet_mergePairs m] by simp
  moreover have "mergeAllStakes chunk K C P s = (Inr (), s')"
    using assms(5,6) m f(1) by (simp add: mergeAllStakes_def bindIO_eval)
  moreover have "never_refused sps c"
    using mergePairs_mergeable [OF m assms(8,9)] by (intro mergeable_never_refused) simp
  ultimately show ?thesis
    using f(2) lodash_chunkD [OF assms(4), of 4 sps] by auto
qed

theorem mergeAllStakes_accepted_witness:
  "\<exists>s'. mergeAllStakes sample_chunk sample_keys sample_connection sample_program sample_start = (Inr (), s')"
  using mergeAllStakes_accepted [OF derivable_sample sample_keys_wf accepts_sample lodash_sample sample_start_validators,
    of "\<lambda>k. if k = 0 then Some 1 else Some 0"]
  by (auto simp: sample_infos_def counts_of_def)

text \<open>
  All active stakes of a validator end up in the one with the lowest index: the pairs for a
  validator are one for each other active index, from the highest down, and stakes that are not
  active or cannot be read are left alone.
\<close>

lemma mergePairs_all_active:
  assumes "derivable K" "\<forall>k. getStakeActivation C k s = (A k, s)" "list_all (\<lambda>v. stakeCount v < 2 ^ 32) vs"
  shows "mergePairs K C P vs s =
    (Inr (concat (map (\<lambda>v. pairsOf (votePubkey v)
      (filter (\<lambda>i. active_stake A (stakeAddr K P (votePubkey v) i)) [0..<stakeCount v])) vs)), s)"
  using assms(3)
proof (induction vs)
  case (Cons v vs)
  then show ?case
    using mergeIndices_filter [OF assms(1,2), of "[0..<stakeCount v]" P "votePubkey v"] by (simp add: bindIO_eval)
qed simp

lemma mergePairs_all_active_witness:
  "fst (mergePairs sample_keys sample_connection sample_program
      [\<lparr>votePubkey = 7, balance = 0, lastUpdateEpoch = 0, stakeCount = 3\<rparr>] (sample_sys (\<lambda>_. None, \<lambda>_. sample_stake))) =
    Inr [\<lparr>sp_validator = 7, mainIndex = 0, additionalIndex = 2\<rparr>, \<lparr>sp_validator = 7, mainIndex = 0, additionalIndex = 1\<rparr>]"
  using mergePairs_all_active [OF derivable_sample, of sample_connection "sample_sys (\<lambda>_. None, \<lambda>_. sample_stake)"
    "\<lambda>_. Inr sample_stake" "[\<lparr>votePubkey = 7, balance = 0, lastUpdateEpoch = 0, stakeCount = 3\<rparr>]" sample_program]
  by (simp add: sample_sys_def active_stake_def sample_stake_def pairsOf_def upt_3 del: mergePairs.simps)

end
