(* ===== verification/Unstaking.thy ===== *)
theory Unstaking
  imports Stake_Merging
begin

text \<open>
  \<open>unstake\<close> and \<open>unstakeAll\<close> of \<open>experiment/tenderize.ts\<close>: which stakes of a validator are
  deactivated, whole or in part. With stakes that do not change while they are read the loop is the
  pure function \<open>scan\<close>. The program side, \<open>process_unstake\<close> of \<open>processor.rs\<close>, is its guard and its
  effect on the stake count.
\<close>

section \<open>The operations\<close>

text \<open>Both lookups of one stake; any failure, also of a missing account, skips the stake.\<close>

definition probeStake ::
  "('k, 'w) connection \<Rightarrow> 'k \<Rightarrow> ('k, 'w, (stake_activation \<times> number) option) client" where
  "probeStake C stakeAddress =
     catchIO
       (bindIO (getStakeActivation C stakeAddress) (\<lambda>stakeData.
        bindIO (getAccountInfo C stakeAddress) (\<lambda>acc.
        case acc of None \<Rightarrow> throwIO TypeError | Some a \<Rightarrow> returnIO (Some (stakeData, lamports a)))))
       (\<lambda>e. returnIO None)"

definition wholeStake :: "stake_activation \<Rightarrow> bool" where
  "wholeStake sd \<longleftrightarrow> sa_active sd > 0 \<and> (sa_state sd = Active \<or> sa_state sd = Activating)"

definition splitStake :: "stake_activation \<Rightarrow> bool" where
  "splitStake sd \<longleftrightarrow> sa_active sd > 0 \<and> sa_state sd = Active"

fun unstakeScan ::
  "'k keylib \<Rightarrow> ('k, 'w) connection \<Rightarrow> 'k TenderizeProgram \<Rightarrow> 'k \<Rightarrow> nat \<Rightarrow> nat list \<Rightarrow> number option \<Rightarrow>
   ('k, 'w, 'k Unstake list) client" where
  "unstakeScan K C P v free [] amountLeft = returnIO []"
| "unstakeScan K C P v free (i # is) amountLeft =
     bindIO (liftE (getStakeForValidator K P v i)) (\<lambda>stakeAddress.
     bindIO (probeStake C stakeAddress) (\<lambda>r.
     case r of
       None \<Rightarrow> unstakeScan K C P v free is amountLeft
     | Some (stakeData, stakeAmount) \<Rightarrow>
         (case amountLeft of
            None \<Rightarrow>
              bindIO (unstakeScan K C P v free is None) (\<lambda>us.
              returnIO (if wholeStake stakeData
                then \<lparr>us_validator = v, sourceIndex = i, splitIndex = None, us_amount = None\<rparr> # us else us))
          | Some l \<Rightarrow>
              if l \<ge> stakeAmount then
                bindIO (unstakeScan K C P v free is (Some (js_sub l stakeAmount))) (\<lambda>us.
                returnIO (if wholeStake stakeData
                  then \<lparr>us_validator = v, sourceIndex = i, splitIndex = None, us_amount = None\<rparr> # us else us))
              else
                returnIO (if splitStake stakeData
                  then [\<lparr>us_validator = v, sourceIndex = i, splitIndex = Some free, us_amount = Some l\<rparr>] else []))))"

definition sendUnstakes ::
  "'k keylib \<Rightarrow> ('k, 'w) connection \<Rightarrow> 'k TenderizeProgram \<Rightarrow> 'k Unstake list \<Rightarrow> ('k, 'w, unit) client" where
  "sendUnstakes K C P us = sendOne C (unstakeInstruction K P us) [payerAccount P, owner P]"

definition unstake ::
  "('k Unstake list \<Rightarrow> nat \<Rightarrow> 'k Unstake list list) \<Rightarrow>
   'k keylib \<Rightarrow> ('k, 'w) connection \<Rightarrow> 'k TenderizeProgram \<Rightarrow> 'k ValidatorInfo \<Rightarrow> number option \<Rightarrow> ('k, 'w, unit) client" where
  "unstake chunk K C P v amount =
     bindIO (firstFree K C P (votePubkey v) [0..<stakeCount v] (stakeCount v)) (\<lambda>firstFreeIndex.
     bindIO (unstakeScan K C P (votePubkey v) firstFreeIndex [0..<stakeCount v] amount) (\<lambda>unstakes.
     forIO (sendUnstakes K C P) (chunk unstakes 4)))"

definition unstakeAll ::
  "('k Unstake list \<Rightarrow> nat \<Rightarrow> 'k Unstake list list) \<Rightarrow>
   'k keylib \<Rightarrow> ('k, 'w) connection \<Rightarrow> 'k TenderizeProgram \<Rightarrow> ('k, 'w, unit) client" where
  "unstakeAll chunk K C P =
     bindIO (readValidators K C P) (\<lambda>vs. forIO (\<lambda>v. unstake chunk K C P v None) vs)"

section \<open>The program's side\<close>

definition unstake_guard :: "nat \<Rightarrow> 'k Unstake \<Rightarrow> bool" where
  "unstake_guard n u \<longleftrightarrow> \<not> sourceIndex u \<ge> n \<and> \<not> encodedSplitIndex u > n"

definition unstake_count :: "nat \<Rightarrow> 'k Unstake \<Rightarrow> nat" where
  "unstake_count n u =
     (if encodedSplitIndex u = sourceIndex u then n else if encodedSplitIndex u = n then n + 1 else n)"

fun unstakes_accepted :: "nat \<Rightarrow> 'k Unstake list \<Rightarrow> bool" where
  "unstakes_accepted n [] = True"
| "unstakes_accepted n (u # us) = (unstake_guard n u \<and> unstakes_accepted (unstake_count n u) us)"

section \<open>The pure loop\<close>

fun scan :: "'k \<Rightarrow> nat \<Rightarrow> (nat \<times> (stake_activation \<times> number) option) list \<Rightarrow> number option \<Rightarrow> 'k Unstake list" where
  "scan v free [] left = []"
| "scan v free ((i, None) # ps) left = scan v free ps left"
| "scan v free ((i, Some (sd, a)) # ps) None =
     (if wholeStake sd then [\<lparr>us_validator = v, sourceIndex = i, splitIndex = None, us_amount = None\<rparr>] else []) @
     scan v free ps None"
| "scan v free ((i, Some (sd, a)) # ps) (Some l) =
     (if l \<ge> a then
        (if wholeStake sd then [\<lparr>us_validator = v, sourceIndex = i, splitIndex = None, us_amount = None\<rparr>] else []) @
        scan v free ps (Some (js_sub l a))
      else if splitStake sd then [\<lparr>us_validator = v, sourceIndex = i, splitIndex = Some free, us_amount = Some l\<rparr>]
      else [])"

text \<open>What the cluster says of the stake at an address.\<close>

definition probed ::
  "('k \<Rightarrow> stake_activation res) \<Rightarrow> ('k \<Rightarrow> 'k account_info option) \<Rightarrow> 'k \<Rightarrow> (stake_activation \<times> number) option" where
  "probed A B k = (case A k of Inl e \<Rightarrow> None | Inr sd \<Rightarrow> map_option (\<lambda>acc. (sd, lamports acc)) (B k))"

definition steady :: "('k, 'w) connection \<Rightarrow> ('k, 'w) sys \<Rightarrow> ('k \<Rightarrow> stake_activation res) \<Rightarrow> ('k \<Rightarrow> 'k account_info option) \<Rightarrow> bool" where
  "steady C s A B \<longleftrightarrow> (\<forall>k. getStakeActivation C k s = (A k, s) \<and> getAccountInfo C k s = (Inr (B k), s))"

lemma probeStake_steady: "steady C s A B \<Longrightarrow> probeStake C k s = (Inr (probed A B k), s)"
  by (cases "A k"; cases "B k") (simp_all add: steady_def probeStake_def probed_def catchIO_def bindIO_def)

lemma unstakeScan_steady:
  assumes "derivable K" "steady C s A B" "\<forall>i\<in>set is. i < 2 ^ 32"
  shows "unstakeScan K C P v free is left s =
    (Inr (scan v free (map (\<lambda>i. (i, probed A B (stakeAddr K P v i))) is) left), s)"
  using assms(3)
proof (induction "is" arbitrary: left)
  case (Cons i js)
  then show ?case
    using stakeFor_ok [OF assms(1), of i P v] probeStake_steady [OF assms(2)]
    by (cases "probed A B (stakeAddr K P v i)"; cases left) (auto simp: bindIO_eval)
qed simp

text \<open>Lamports are whole numbers, below \<open>2 ^ 53\<close>.\<close>

definition whole_lamports :: "('k \<Rightarrow> 'k account_info option) \<Rightarrow> bool" where
  "whole_lamports B \<longleftrightarrow>
     (\<forall>k acc. B k = Some acc \<longrightarrow> (\<exists>n. lamports acc = of_int n \<and> 0 \<le> n \<and> n \<le> MAX_SAFE))"

definition whole_probes :: "(nat \<times> (stake_activation \<times> number) option) list \<Rightarrow> bool" where
  "whole_probes ps \<longleftrightarrow> (\<forall>i sd a. (i, Some (sd, a)) \<in> set ps \<longrightarrow> (\<exists>n. a = of_int n \<and> 0 \<le> n \<and> n \<le> MAX_SAFE))"

lemma whole_probed: "whole_lamports B \<Longrightarrow> whole_probes (map (\<lambda>i. (i, probed A B (f i))) is)"
  by (auto simp: whole_probes_def probed_def whole_lamports_def eq_commute [of "Some x" "map_option f y" for x f y]
      split: sum.splits)

lemma whole_probes_Cons: "whole_probes (p # ps) \<Longrightarrow> whole_probes ps"
  by (auto simp: whole_probes_def)

definition whole_left :: "number option \<Rightarrow> bool" where
  "whole_left left \<longleftrightarrow> (case left of None \<Rightarrow> True | Some l \<Rightarrow> (\<exists>n. l = of_int n \<and> 0 \<le> n \<and> n \<le> MAX_SAFE))"

lemma whole_left_sub:
  assumes "whole_left (Some l)" "whole_probes ((i, Some (sd, a)) # ps)" "a \<le> l"
  shows "whole_left (Some (js_sub l a))" "js_sub l a = l - a"
proof -
  obtain m n where "l = of_int m" "a = of_int n" "0 \<le> n" "n \<le> m" "m \<le> MAX_SAFE"
    using assms by (fastforce simp: whole_left_def whole_probes_def)
  moreover from this have "js_sub l a = of_int (m - n)"
    using js_sub_int [of m n] by simp
  ultimately show "whole_left (Some (js_sub l a))" "js_sub l a = l - a"
    by (auto simp: whole_left_def intro!: exI [of _ "m - n"])
qed

lemma scan_shape:
  assumes "u \<in> set (scan v free ps left)" "whole_probes ps" "whole_left left"
  shows "us_validator u = v \<and> sourceIndex u \<in> fst ` set ps \<and>
    (splitIndex u = None \<and> us_amount u = None \<or>
     splitIndex u = Some free \<and> (\<exists>n. us_amount u = Some (of_int n) \<and> 0 \<le> n \<and> n \<le> MAX_SAFE))"
  using assms
proof (induction v free ps left rule: scan.induct)
  case (4 v free i sd a ps l)
  then show ?case
    using whole_left_sub(1) [OF 4(4,3)] whole_probes_Cons [OF 4(3)]
    by (auto simp: whole_left_def split: if_splits)
qed (auto dest: whole_probes_Cons split: if_splits)

definition stake_value :: "(nat \<times> (stake_activation \<times> number) option) list \<Rightarrow> 'k Unstake \<Rightarrow> number" where
  "stake_value ps u =
     (case us_amount u of
        Some a \<Rightarrow> a
      | None \<Rightarrow> (case map_of ps (sourceIndex u) of Some (Some (sd, a)) \<Rightarrow> a | _ \<Rightarrow> 0))"

lemma stake_value_Cons:
  assumes "distinct (map fst ((i, p) # ps))" "whole_probes ps" "whole_left left"
  shows "sum_list (map (stake_value ((i, p) # ps)) (scan v free ps left)) = sum_list (map (stake_value ps) (scan v free ps left))"
proof -
  have "stake_value ((i, p) # ps) u = stake_value ps u" if "u \<in> set (scan v free ps left)" for u
    using scan_shape [OF that assms(2,3)] assms(1) by (auto simp: stake_value_def split: option.splits)
  then have "map (stake_value ((i, p) # ps)) (scan v free ps left) = map (stake_value ps) (scan v free ps left)"
    by simp
  then show ?thesis
    by (rule arg_cong)
qed

lemma scan_bounded:
  assumes "distinct (map fst ps)" "whole_probes ps" "whole_left (Some l)"
  shows "sum_list (map (stake_value ps) (scan v free ps (Some l))) \<le> l"
  using assms
proof (induction ps arbitrary: l)
  case Nil
  then show ?case
    by (auto simp: whole_left_def)
next
  case (Cons p ps)
  obtain i q where p: "p = (i, q)"
    by fastforce
  note tail = stake_value_Cons [OF Cons.prems(1) [unfolded p] whole_probes_Cons [OF Cons.prems(2)],
    where v = v and free = free]
  have nonneg: "0 \<le> l"
    using Cons.prems(3) by (auto simp: whole_left_def)
  show ?case
  proof (cases q)
    case None
    then show ?thesis
      using Cons tail [OF Cons.prems(3)] by (simp add: p whole_probes_Cons)
  next
    case (Some r)
    obtain sd a where r: "r = (sd, a)"
      by fastforce
    have a: "0 \<le> a"
      using Cons.prems(2) by (fastforce simp: p Some r whole_probes_def)
    show ?thesis
    proof (cases "a \<le> l")
      case True
      note sub = whole_left_sub [OF Cons.prems(3) Cons.prems(2) [unfolded p Some r] True]
      have "sum_list (map (stake_value (p # ps)) (scan v free ps (Some (js_sub l a)))) \<le> l - a"
        using Cons.IH [OF _ _ sub(1)] Cons.prems(1,2) sub(2) tail [OF sub(1)]
        by (simp add: p whole_probes_Cons)
      moreover have "stake_value (p # ps) \<lparr>us_validator = v, sourceIndex = i, splitIndex = None, us_amount = None\<rparr> = a"
        by (simp add: p Some r stake_value_def)
      ultimately show ?thesis
        using True a by (simp add: p Some r)
    next
      case False
      then show ?thesis
        using nonneg by (simp add: p Some r stake_value_def)
    qed
  qed
qed

lemma scan_everything:
  "scan v free ps None =
     map (\<lambda>(i, p). \<lparr>us_validator = v, sourceIndex = i, splitIndex = None, us_amount = None\<rparr>)
       (filter (\<lambda>(i, p). case p of Some (sd, a) \<Rightarrow> wholeStake sd | None \<Rightarrow> False) ps)"
  by (induction v free ps "None :: number option" rule: scan.induct) simp_all

lemma unstakes_accepted_all:
  assumes "list_all (\<lambda>u. sourceIndex u < n \<and> encodedSplitIndex u \<le> n) us" "n \<le> m"
  shows "unstakes_accepted m us"
  using assms
proof (induction us arbitrary: m)
  case (Cons u us)
  have "m \<le> unstake_count m u"
    by (simp add: unstake_count_def)
  then show ?case
    using Cons by (auto simp: unstake_guard_def)
qed simp

section \<open>Sending the requests\<close>

definition unstake_ready :: "'k keylib \<Rightarrow> 'k Unstake list \<Rightarrow> bool" where
  "unstake_ready K us \<longleftrightarrow> derivable K \<and> list_all (unstake_ok K) us \<and> length us < 2 ^ 32"

interpretation unstake_sender: sender C "sendUnstakes K C P" "unstake_ready K"
    "\<lambda>us. projr (unstakeInstruction K P us)" "[payerAccount P, owner P]" for K C P
proof unfold_locales
  fix us :: "'a Unstake list"
  assume "unstake_ready K us"
  then obtain ix where "unstakeInstruction K P us = Inr ix"
    using unstakeInstruction_ok [of K us P] by (auto simp: unstake_ready_def)
  then show "sendUnstakes K C P us = sendAndConfirmTransaction C
      [Instr (projr (unstakeInstruction K P us))] [payerAccount P, owner P]"
    by (simp add: sendUnstakes_def sendOne_Inr)
qed

abbreviation unstake_tx :: "'k keylib \<Rightarrow> 'k TenderizeProgram \<Rightarrow> 'k Unstake list \<Rightarrow> 'k sent_tx" where
  "unstake_tx K P us \<equiv> tx_of (projr (unstakeInstruction K P us)) [payerAccount P, owner P]"

definition unstake_probes ::
  "'k keylib \<Rightarrow> 'k TenderizeProgram \<Rightarrow> ('k \<Rightarrow> stake_activation res) \<Rightarrow> ('k \<Rightarrow> 'k account_info option) \<Rightarrow> 'k ValidatorInfo \<Rightarrow>
   (nat \<times> (stake_activation \<times> number) option) list" where
  "unstake_probes K P A B v = map (\<lambda>i. (i, probed A B (stakeAddr K P (votePubkey v) i))) [0..<stakeCount v]"

lemma scan_ok:
  assumes "wf_keys K" "whole_lamports B" "whole_left left" "stakeCount v < 2 ^ 32" "free \<le> stakeCount v"
    "u \<in> set (scan (votePubkey v) free (unstake_probes K P A B v) left)"
  shows "unstake_ok K u" "sourceIndex u < stakeCount v" "encodedSplitIndex u \<le> stakeCount v"
proof -
  have sh: "us_validator u = votePubkey v" "sourceIndex u < stakeCount v"
    "splitIndex u = None \<and> us_amount u = None \<or>
     splitIndex u = Some free \<and> (\<exists>n. us_amount u = Some (of_int n) \<and> 0 \<le> n \<and> n \<le> MAX_SAFE)"
    using scan_shape [OF assms(6) _ assms(3)] whole_probed [OF assms(2)] by (auto simp: unstake_probes_def)
  show "sourceIndex u < stakeCount v"
    by (rule sh(2))
  show split: "encodedSplitIndex u \<le> stakeCount v"
    using sh(2,3) assms(5) by (auto simp: encodedSplitIndex_def truthyIndex_def split: nat.splits)
  have "\<exists>n. encodedAmount u = of_int n \<and> 0 \<le> n \<and> n < 2 ^ 64"
  proof (cases "us_amount u")
    case None
    then show ?thesis
      by (auto simp: encodedAmount_def intro!: exI [of _ 0])
  next
    case (Some a)
    then obtain n where "a = of_int n" "0 \<le> n" "n \<le> MAX_SAFE"
      using sh(3) by auto
    then show ?thesis
      using Some by (auto simp: encodedAmount_def MAX_SAFE_def intro!: exI [of _ n])
  qed
  then show "unstake_ok K u"
    using assms(1,4) sh(1,2) split by (auto simp: unstake_ok_def wf_keys_def)
qed

lemma unstake_runs:
  assumes "derivable K" "wf_keys K" "accepts C" "lodash_chunk chunk" "steady C s A B" "whole_lamports B"
    "whole_left amount" "stakeCount v < 2 ^ 32"
  shows "\<exists>s' free us. firstFree K C P (votePubkey v) [0..<stakeCount v] (stakeCount v) s = (Inr free, s) \<and>
    free \<le> stakeCount v \<and> us = scan (votePubkey v) free (unstake_probes K P A B v) amount \<and>
    unstake chunk K C P v amount s = (Inr (), s') \<and> sent s' = sent s @ map (unstake_tx K P) (chunk us 4)"
proof -
  let ?is = "[0..<stakeCount v]"
  have small: "\<forall>i\<in>set ?is. i < 2 ^ 32" and reads: "\<forall>k. getAccountInfo C k s = (Inr (B k), s)"
    using assms(5,8) by (auto simp: steady_def)
  obtain free where free: "firstFree K C P (votePubkey v) ?is (stakeCount v) s = (Inr free, s)"
    using firstFree_filter [OF assms(1) reads small] by blast
  then have le: "free \<le> stakeCount v"
    using firstFree_in [OF free] by auto
  let ?us = "scan (votePubkey v) free (unstake_probes K P A B v) amount"
  have sc: "unstakeScan K C P (votePubkey v) free ?is amount s = (Inr ?us, s)"
    using unstakeScan_steady [OF assms(1,5) small] by (simp add: unstake_probes_def)
  have "list_all (unstake_ok K) ?us"
    using scan_ok(1) [OF assms(2,6,7,8) le] by (auto simp: list_all_iff)
  then have "list_all (unstake_ready K) (chunk ?us 4)"
    using assms(1) chunk_all [OF assms(4), of 4 "unstake_ok K" ?us] lodash_chunkD(2) [OF assms(4), of 4 ?us]
    by (auto simp: list_all_iff unstake_ready_def)
  then obtain s' where "forIO (sendUnstakes K C P) (chunk ?us 4) s = (Inr (), s')"
    "sent s' = sent s @ map (unstake_tx K P) (chunk ?us 4)"
    using unstake_sender.forIO_succeeds [OF assms(3)] by blast
  then show ?thesis
    using free le sc by (auto simp: unstake_def bindIO_eval)
qed

lemma steady_sample: "steady sample_connection (sample_sys (f, g)) (\<lambda>k. Inr (g k)) f"
  by (simp add: steady_def sample_sys_def)

lemma whole_lamports_sample: "whole_lamports [k \<mapsto> sample_account d]"
  by (auto simp: whole_lamports_def sample_account_def MAX_SAFE_def intro!: exI [of _ 1] split: if_splits)

section \<open>Properties\<close>



text \<open>
  Without an amount, \<open>unstake\<close> deactivates everything that is delegated: one whole-stake request
  for each readable stake with active lamports that is active or activating, in the order of
  the indices, and no split.
\<close>

lemma unstake_everything:
  assumes "derivable K" "wf_keys K" "accepts C" "lodash_chunk chunk" "steady C s A B" "whole_lamports B"
    "stakeCount v < 2 ^ 32"
  shows "\<exists>s' uss. unstake chunk K C P v None s = (Inr (), s') \<and>
    sent s' = sent s @ map (unstake_tx K P) uss \<and>
    concat uss = map (\<lambda>i. \<lparr>us_validator = votePubkey v, sourceIndex = i, splitIndex = None, us_amount = None\<rparr>)
      (filter (\<lambda>i. case probed A B (stakeAddr K P (votePubkey v) i) of Some (sd, a) \<Rightarrow> wholeStake sd | None \<Rightarrow> False)
        [0..<stakeCount v])"
proof -
  have left: "whole_left None"
    by (simp add: whole_left_def)
  obtain s' free us where run: "us = scan (votePubkey v) free (unstake_probes K P A B v) None"
    "unstake chunk K C P v None s = (Inr (), s')" "sent s' = sent s @ map (unstake_tx K P) (chunk us 4)"
    using unstake_runs [OF assms(1-6) left assms(7)] by blast
  have "us = map (\<lambda>i. \<lparr>us_validator = votePubkey v, sourceIndex = i, splitIndex = None, us_amount = None\<rparr>)
      (filter (\<lambda>i. case probed A B (stakeAddr K P (votePubkey v) i) of Some (sd, a) \<Rightarrow> wholeStake sd | None \<Rightarrow> False)
        [0..<stakeCount v])"
    unfolding run(1) scan_everything unstake_probes_def by (simp add: filter_map o_def)
  then show ?thesis
    using run(2,3) lodash_chunkD(1) [OF assms(4), of 4 us] by auto
qed

lemma unstake_everything_witness:
  "\<exists>s'. unstake sample_chunk sample_keys sample_connection sample_program
      \<lparr>votePubkey = 7, balance = 0, lastUpdateEpoch = 0, stakeCount = 2\<rparr> None (sample_sys ([19 \<mapsto> sample_account []], \<lambda>_. sample_stake)) = (Inr (), s')"
  using unstake_everything [OF derivable_sample sample_keys_wf accepts_sample lodash_sample steady_sample whole_lamports_sample,
    of "\<lparr>votePubkey = 7, balance = 0, lastUpdateEpoch = 0, stakeCount = 2\<rparr>"]
  by simp blast

text \<open>
  A split into stake index 0 unstakes the whole stake: \<open>0\<close> is falsy, so the request is written with
  the source index as split index and without the account to split into, which the program reads
  as the deactivation of the whole source stake.
\<close>

lemma split_into_zero_unstakes_all:
  assumes "derivable K" "length (toBuffer K v) = 32" "i < 2 ^ 32" "0 \<le> a" "a < 2 ^ 64"
  shows "\<exists>ix. unstakeInstruction K P [\<lparr>us_validator = v, sourceIndex = i, splitIndex = Some 0, us_amount = Some (of_int a)\<rparr>] = Inr ix \<and>
    deserialize_instruction (data ix) = Inr (UnstakeStakes
      [\<lparr>usi_validator_address = toBuffer K v, usi_source_index = i, usi_split_index = i, usi_amount = nat a\<rparr>]) \<and>
    drop 9 (keys ix) = [meta (stakeAddr K P v i) False True]"
proof -
  let ?u = "\<lparr>us_validator = v, sourceIndex = i, splitIndex = Some 0, us_amount = Some (of_int a)\<rparr>"
  have enc: "encodedSplitIndex ?u = i" "encodedAmount ?u = of_int a"
    by (simp_all add: encodedSplitIndex_def truthyIndex_def encodedAmount_def)
  have "(of_int a :: rat) < of_int (2 ^ 64)"
    using assms(5) by (simp only: of_int_less_iff)
  then have ok: "list_all (unstake_ok K) [?u]"
    using assms enc by (simp add: unstake_ok_def)
  show ?thesis
    using unstakeInstruction_ok [OF assms(1) ok, of P] unstake.read_list_written [OF ok, of 14] enc
    by (auto simp: deserialize_instruction_def unstake_view_def unstake_metas_def truthyIndex_def)
qed

lemma split_into_zero_unstakes_all_witness:
  "\<exists>ix. unstakeInstruction sample_keys sample_program
      [\<lparr>us_validator = 7, sourceIndex = 2, splitIndex = Some 0, us_amount = Some (of_int 500)\<rparr>] = Inr ix \<and>
    deserialize_instruction (data ix) = Inr (UnstakeStakes
      [\<lparr>usi_validator_address = le_bytes 32 7, usi_source_index = 2, usi_split_index = 2, usi_amount = 500\<rparr>])"
  using split_into_zero_unstakes_all [OF derivable_sample, of 7 2 500 sample_program] by auto

text \<open>
  An amount that is used up exactly still costs a request: when nothing is left, the next active
  stake is split with an amount of zero lamports.
\<close>

lemma zero_amount_split:
  assumes "derivable K" "steady C s A B" "i < 2 ^ 32" "probed A B (stakeAddr K P v i) = Some (sd, a)" "0 < a" "splitStake sd"
  shows "unstakeScan K C P v free (i # is) (Some 0) s =
    (Inr [\<lparr>us_validator = v, sourceIndex = i, splitIndex = Some free, us_amount = Some 0\<rparr>], s)"
  using assms(4-6) stakeFor_ok [OF assms(1,3), of P v] probeStake_steady [OF assms(2), of "stakeAddr K P v i"]
  by (simp add: bindIO_eval)

lemma zero_amount_split_witness:
  "unstakeScan sample_keys sample_connection sample_program 7 3 [1] (Some 0) (sample_sys (\<lambda>_. Some (sample_account []), \<lambda>_. sample_stake)) =
    (Inr [\<lparr>us_validator = 7, sourceIndex = 1, splitIndex = Some 3, us_amount = Some 0\<rparr>],
     sample_sys (\<lambda>_. Some (sample_account []), \<lambda>_. sample_stake))"
  using zero_amount_split [OF derivable_sample steady_sample, of 1 "\<lambda>_. sample_stake" "\<lambda>_. Some (sample_account [])" sample_program 7
    sample_stake 1 3 "[]"]
  by (simp add: probed_def sample_account_def sample_stake_def splitStake_def)

end
