(* ===== verification/Creditor_Payment.thy ===== *)
theory Creditor_Payment
  imports Unstaking
begin

text \<open>
  \<open>payCreditors\<close> and \<open>payAllCreditors\<close> of \<open>experiment/tenderize.ts\<close>. The paying loop ends only when
  the list is empty or stays as long as it was, so it is a partial function: \<open>None\<close> is a run that
  never ends. It is shown to end whenever the list does not grow from one round to the next.
\<close>

section \<open>The operations\<close>

definition paidCreditors :: "int \<Rightarrow> 'k Creditor list \<Rightarrow> 'k Creditor list" where
  "paidCreditors maxCount cs = (if maxCount \<le> 0 then cs else take (nat maxCount) cs)"

definition payCreditorsInstruction ::
  "'k keylib \<Rightarrow> ('k, 'w) connection \<Rightarrow> 'k TenderizeProgram \<Rightarrow> int \<Rightarrow> ('k, 'w, 'k instruction) client" where
  "payCreditorsInstruction K C P maxCount =
     bindIO (liftE (writeUInt8 (alloc 1) 15 0)) (\<lambda>(d, p).
     bindIO (readState K C P False) (\<lambda>state.
     bindIO (liftE (getWithdrawAuthority K P)) (\<lambda>withdrawAuthority.
     bindIO (liftE (getReserveAddress K P)) (\<lambda>reserve.
     case state of
       None \<Rightarrow> throwIO TypeError
     | Some st \<Rightarrow>
         bindIO (readCreditors K C P) (\<lambda>creditors.
         returnIO
           \<lparr>keys =
              [meta (stakePool P) False True,
               meta (creditListAccount P) False True,
               meta withdrawAuthority False False,
               meta reserve False True,
               meta (st_creditReserve st) False True,
               meta (poolMintToken P) False True,
               meta (SYSVAR_RENT_PUBKEY K) False False,
               meta (SYSVAR_CLOCK_PUBKEY K) False False,
               meta (ref_key (SystemProgram_programId K)) False False,
               meta (SPL_TOKEN_PROGRAM_ID K) False False] @
              map (\<lambda>c. meta (target c) False True) (paidCreditors maxCount creditors),
            programId = programAccount P, data = d\<rparr>)))))"

definition payCreditors ::
  "'k keylib \<Rightarrow> ('k, 'w) connection \<Rightarrow> 'k TenderizeProgram \<Rightarrow> int \<Rightarrow> ('k, 'w, unit) client" where
  "payCreditors K C P maxCount =
     bindIO (payCreditorsInstruction K C P maxCount) (\<lambda>ix.
     sendAndConfirmTransaction C [Instr ix] [payerAccount P])"

text \<open>One round: pay thirty, read the list again.\<close>

definition payRound ::
  "'k keylib \<Rightarrow> ('k, 'w) connection \<Rightarrow> 'k TenderizeProgram \<Rightarrow> ('k, 'w, 'k Creditor list) client" where
  "payRound K C P = bindIO (payCreditors K C P 30) (\<lambda>_. readCreditors K C P)"

partial_function (option) payLoop ::
  "'k keylib \<Rightarrow> ('k, 'w) connection \<Rightarrow> 'k TenderizeProgram \<Rightarrow> 'k Creditor list \<Rightarrow> ('k, 'w) sys \<Rightarrow>
   (unit res \<times> ('k, 'w) sys) option" where
  "payLoop K C P creditors s =
     (if length creditors > 0 then
        (case payRound K C P s of
           (Inl e, s') \<Rightarrow> Some (Inl e, s')
         | (Inr creditors', s') \<Rightarrow>
             if length creditors' = length creditors then Some (Inr (), s')
             else payLoop K C P creditors' s')
      else Some (Inr (), s))"

definition payAllCreditors ::
  "'k keylib \<Rightarrow> ('k, 'w) connection \<Rightarrow> 'k TenderizeProgram \<Rightarrow> ('k, 'w) sys \<Rightarrow> (unit res \<times> ('k, 'w) sys) option" where
  "payAllCreditors K C P s =
     (case readCreditors K C P s of
        (Inl e, s') \<Rightarrow> Some (Inl e, s')
      | (Inr creditors, s') \<Rightarrow> payLoop K C P creditors s')"

declare payLoop.simps [code]

section \<open>Rounds of payment\<close>

text \<open>The list never gets longer from one round to the next, as when nobody adds a credit meanwhile.\<close>

definition never_grows :: "'k keylib \<Rightarrow> ('k, 'w) connection \<Rightarrow> 'k TenderizeProgram \<Rightarrow> bool" where
  "never_grows K C P \<longleftrightarrow>
     (\<forall>t cs s cs' s'. readCreditors K C P t = (Inr cs, s) \<and> payRound K C P s = (Inr cs', s') \<longrightarrow>
        length cs' \<le> length cs)"

lemma payRound_reads: "payRound K C P s = (Inr cs, s') \<Longrightarrow> \<exists>t. readCreditors K C P t = (Inr cs, s')"
  by (auto simp: payRound_def io_simps)

lemma quiet_payCreditorsInstruction: "quiet (payCreditorsInstruction K C P n)"
  by (auto simp: payCreditorsInstruction_def intro!: quiet_intros split: option.splits)

lemma payCreditors_sent:
  assumes "payCreditors K C P n s = (r, s')"
  shows "length (sent s') \<le> Suc (length (sent s))"
proof (cases "payCreditorsInstruction K C P n s")
  case (Pair q t)
  have "sent t = sent s"
    using quietD [OF quiet_payCreditorsInstruction Pair] .
  then show ?thesis
    using assms Pair by (cases q) (auto simp: payCreditors_def bindIO_def dest: sent_sendAndConfirm)
qed

lemma payRound_sent:
  assumes "payRound K C P s = (r, s')"
  shows "length (sent s') \<le> Suc (length (sent s))"
proof (cases "payCreditors K C P 30 s")
  case (Pair q t)
  have "sent s' = sent t"
    using assms Pair quietD [OF quiet_readers(3)] by (cases q) (auto simp: payRound_def bindIO_def)
  then show ?thesis
    using payCreditors_sent [OF Pair] by simp
qed

text \<open>The list at the end of a run is empty, or the last round did not shorten it.\<close>

definition settled :: "'k keylib \<Rightarrow> ('k, 'w) connection \<Rightarrow> 'k TenderizeProgram \<Rightarrow> ('k, 'w) sys \<Rightarrow> bool" where
  "settled K C P s' \<longleftrightarrow>
     (\<exists>t cs. readCreditors K C P t = (Inr cs, s') \<and>
       (cs = [] \<or> (\<exists>t0 cs0 s0. readCreditors K C P t0 = (Inr cs0, s0) \<and> payRound K C P s0 = (Inr cs, s') \<and>
          length cs = length cs0)))"

definition good_end :: "'k keylib \<Rightarrow> ('k, 'w) connection \<Rightarrow> 'k TenderizeProgram \<Rightarrow> nat \<Rightarrow> ('k, 'w) sys \<Rightarrow>
    (unit res \<times> ('k, 'w) sys) option \<Rightarrow> bool" where
  "good_end K C P n s out \<longleftrightarrow>
     (\<exists>r s'. out = Some (r, s') \<and> length (sent s') \<le> length (sent s) + n \<and> (r = Inr () \<longrightarrow> settled K C P s'))"

lemma payLoop_stops:
  assumes "readCreditors K C P t = (Inr cs, s)" "payRound K C P s = (q, u)"
    "cs = [] \<or> (\<exists>e. q = Inl e) \<or> (\<exists>cs'. q = Inr cs' \<and> length cs' = length cs)"
  shows "good_end K C P (length cs) s (payLoop K C P cs s)"
proof (cases "cs = []")
  case True
  then show ?thesis
    using assms(1) by (auto simp: good_end_def settled_def payLoop.simps [of K C P "[]" s])
next
  case False
  then have n: "1 \<le> length cs"
    by (cases cs) simp_all
  show ?thesis
  proof (cases q)
    case (Inl e)
    then show ?thesis
      using False n assms(2) payRound_sent [OF assms(2)]
      by (simp add: good_end_def payLoop.simps [of K C P cs s])
  next
    case (Inr cs')
    then have "length cs' = length cs" "\<exists>t'. readCreditors K C P t' = (Inr cs', u)"
      using assms(2,3) False payRound_reads by auto
    moreover from this have "settled K C P u"
      using Inr assms(1,2) unfolding settled_def by blast
    ultimately show ?thesis
      using Inr False n assms(2) payRound_sent [OF assms(2)]
      by (auto simp: good_end_def payLoop.simps [of K C P cs s])
  qed
qed

lemma payLoop_ends:
  assumes "never_grows K C P" "readCreditors K C P t = (Inr cs, s)"
  shows "good_end K C P (length cs) s (payLoop K C P cs s)"
  using assms(2)
proof (induction "length cs" arbitrary: cs s t rule: less_induct)
  case less
  obtain q u where q: "payRound K C P s = (q, u)"
    by fastforce
  show ?case
  proof (cases "cs = [] \<or> (\<exists>e. q = Inl e) \<or> (\<exists>cs'. q = Inr cs' \<and> length cs' = length cs)")
    case True
    then show ?thesis
      using payLoop_stops [OF less.prems q] by blast
  next
    case False
    then obtain cs' where cs': "q = Inr cs'" "cs \<noteq> []" "length cs' \<noteq> length cs"
      by (cases q) auto
    have shorter: "length cs' < length cs"
      using assms(1) less.prems q cs' by (fastforce simp: never_grows_def)
    moreover obtain t' where "readCreditors K C P t' = (Inr cs', u)"
      using payRound_reads q cs'(1) by blast
    ultimately have "good_end K C P (length cs') u (payLoop K C P cs' u)"
      using less.hyps by blast
    moreover have "payLoop K C P cs s = payLoop K C P cs' u"
      using q cs' by (simp add: payLoop.simps [of K C P cs s])
    ultimately show ?thesis
      using payRound_sent [OF q] shorter by (fastforce simp: good_end_def)
  qed
qed

text \<open>On the sample cluster a payment changes nothing that is read.\<close>

lemma sample_readCreditors:
  assumes "readCreditors sample_keys sample_connection sample_program s = (r, s')" "world t = world s"
  shows "s' = s" "readCreditors sample_keys sample_connection sample_program t = (r, t)"
  using assms
  by (auto simp: readCreditors_def readState_def bindIO_def split: option.splits sum.splits prod.splits if_splits)

lemma sample_payCreditors_world:
  assumes "payCreditors sample_keys sample_connection sample_program n s = (r, s')"
  shows "world s' = world s"
proof -
  have ix: "payCreditorsInstruction sample_keys sample_connection sample_program n s = (q, t) \<Longrightarrow> t = s" for q t
    by (auto simp: payCreditorsInstruction_def readState_def bindIO_def dest: sample_readCreditors(1)
      split: option.splits sum.splits prod.splits if_splits)
  then show ?thesis
    using assms by (auto simp: payCreditors_def bindIO_def sendAndConfirmTransaction_def sample_connection_def Let_def
      dest!: ix split: prod.splits sum.splits)
qed

lemma never_grows_sample: "never_grows sample_keys sample_connection sample_program"
proof -
  have "length cs' \<le> length cs" if a: "readCreditors sample_keys sample_connection sample_program t = (Inr cs, s)"
    and b: "payRound sample_keys sample_connection sample_program s = (Inr cs', s')" for t cs s cs' s'
  proof -
    obtain u where u: "payCreditors sample_keys sample_connection sample_program 30 s = (Inr (), u)"
      "readCreditors sample_keys sample_connection sample_program u = (Inr cs', s')"
      using b by (auto simp: payRound_def io_simps)
    have "world u = world t"
      using sample_payCreditors_world [OF u(1)] sample_readCreditors(1) [OF a refl] by simp
    then show ?thesis
      using u(2) sample_readCreditors(2) [OF a] by simp
  qed
  then show ?thesis
    unfolding never_grows_def by blast
qed

abbreviation sample_indebted :: "(key, sample_world) sys" where
  "sample_indebted \<equiv>
     sample_sys ([12 \<mapsto> sample_account (alloc 300), 0 \<mapsto> sample_account sample_credits], \<lambda>_. sample_stake)"

lemma sample_pool_state:
  "readState sample_keys sample_connection sample_program False sample_indebted =
    (Inr (Some (state_view sample_keys (projr (StakePool_deserialize (alloc 300))))), sample_indebted)"
proof -
  have "StakePool_deserialize (alloc 300) = Inr (projr (StakePool_deserialize (alloc 300)))"
    by (simp add: StakePool_deserialize_def layout_sizes)
  then show ?thesis
    using parseState_ok [OF total_sample, of "alloc 300"]
    by (intro readState_found [where acc = "sample_account (alloc 300)"])
      (simp_all add: sample_sys_def sample_program_def sample_account_def alloc_def)
qed

lemma sample_debts:
  "readCreditors sample_keys sample_connection sample_program sample_indebted =
    (Inr [\<lparr>target = 0, cred_cancelAuthority = 0, cred_amount = 700\<rparr>], sample_indebted)"
  using sample_pool_state parseCreditors_agrees [OF total_sample sample_credits_list]
  by (simp add: readCreditors_def bindIO_eval state_view_def StakePool_deserialize_def layout_sizes slice_def alloc_def
    key_of_def creditor_view_def Number_int MAX_SAFE_def sample_sys_def sample_account_def)

section \<open>Properties\<close>

text \<open>
  C13. \<open>payAllCreditors\<close> ends. When the list of creditors does not grow from one round to the next, the
  loop returns after at most as many transactions as there were creditors, and if it returns
  without an error then the list is empty or a whole round did not shorten it.
\<close>

theorem payAllCreditors_ends:
  assumes "never_grows K C P" "readCreditors K C P s = (Inr cs, s1)"
  shows "\<exists>r s'. payAllCreditors K C P s = Some (r, s') \<and>
    length (sent s') \<le> length (sent s) + length cs \<and> (r = Inr () \<longrightarrow> settled K C P s')"
  using payLoop_ends [OF assms] assms(2) quietD [OF quiet_readers(3) assms(2)]
  by (simp add: payAllCreditors_def good_end_def)

theorem payAllCreditors_ends_witness:
  "\<exists>r s'. payAllCreditors sample_keys sample_connection sample_program sample_indebted = Some (r, s') \<and> length (sent s') \<le> 1"
  using payAllCreditors_ends [OF never_grows_sample sample_debts] by (auto simp: sample_sys_def)

text \<open>
  \<open>payCreditorsInstruction\<close> names the right people: behind the ten fixed accounts, the reserve from
  the pool state among them, come the targets of the first \<open>maxCount\<close> records of the credit list, or of
  all records when no limit is given, and the program reads the instruction as \<open>PayCreditors\<close>.
\<close>

lemma payCreditorsInstruction_targets:
  assumes "derivable K" "readState K C P False s = (Inr (Some st), s1)" "readCreditors K C P s1 = (Inr cs, s2)"
  shows "\<exists>ix. payCreditorsInstruction K C P n s = (Inr ix, s2) \<and>
    deserialize_instruction (data ix) = Inr PayCreditors \<and>
    keys ix ! 4 = meta (st_creditReserve st) False True \<and>
    map pubkey (drop 10 (keys ix)) = map target (if n \<le> 0 then cs else take (nat n) cs)"
proof -
  obtain r d w where "getReserveAddress K P = Inr r" "getWithdrawAuthority K P = Inr w"
    using authorities_ok [OF assms(1)] .
  moreover have "writeUInt8 (alloc 1) 15 0 = Inr ([15], 1)"
    using tag_ok [of 15 0] by (simp add: alloc_def)
  ultimately show ?thesis
    using assms(2,3)
    by (simp add: payCreditorsInstruction_def bindIO_eval deserialize_instruction_def paidCreditors_def meta_def o_def)
qed

lemma payCreditorsInstruction_targets_witness:
  "\<exists>ix. payCreditorsInstruction sample_keys sample_connection sample_program 30 sample_indebted = (Inr ix, sample_indebted) \<and>
    map pubkey (drop 10 (keys ix)) = [0]"
  using payCreditorsInstruction_targets [OF derivable_sample sample_pool_state sample_debts, of 30] by auto

end
