(* ===== verification/Pool_Upkeep.thy ===== *)
theory Pool_Upkeep
  imports Tenderize_Ops
begin

text \<open>
  Creating the pool and keeping its balances up to date: what \<open>createStakePool\<close> and \<open>updatePool\<close> of
  \<open>experiment/tenderize.ts\<close> send. The operations are those of \<open>Tenderize_Ops\<close>; here are the accounts
  and the instructions they produce, as the program reads them.
\<close>

section \<open>Creating the pool\<close>

text \<open>The cluster answers every question about rent.\<close>

definition rents :: "('k, 'w) connection \<Rightarrow> bool" where
  "rents C \<longleftrightarrow> (\<forall>n w. \<exists>l w'. rpc_getMinimumBalance C n w = (Inr l, w'))"

lemma rents_sample [simp]: "rents sample_connection"
  by (simp add: rents_def sample_connection_def)

lemma createAccountOf_ok:
  assumes "rents C"
  obtains l s' where "createAccountOf C P a n s = (Inr (SystemCreateAccount (payerAccount P) a l n (programAccount P)), s')"
    "sent s' = sent s"
proof -
  obtain l w where "rpc_getMinimumBalance C n (world s) = (Inr l, w)"
    using assms unfolding rents_def by blast
  then show thesis
    by (intro that [of l "s\<lparr>world := w\<rparr>"])
      (simp_all add: createAccountOf_def bindIO_def getMinimumBalanceForRentExemption_def onWorld_def)
qed

lemma createStakePoolInstruction_ok:
  assumes "0 \<le> den" "den < 2 ^ 64" "0 \<le> num" "num < 2 ^ 64"
  shows "\<exists>ix. createStakePoolInstruction K P \<lparr>csp_feeDenominator = of_int den, csp_feeNumerator = of_int num\<rparr> = Inr ix \<and>
    data ix = 0 # le_bytes 8 (nat den) @ le_bytes 8 (nat num)"
proof -
  have tag: "writeUInt8 (alloc 17) 0 0 = Inr (0 # alloc 16, 1)"
    using tag_ok [of 0 16] by simp
  have 1: "writeBigUInt64LE (0 # alloc 16) den 1 = Inr ((0 # le_bytes 8 (nat den)) @ alloc 8, 9)"
    using u64.write_tail [of den 16 1 "[0]"] assms by simp
  have 2: "writeBigUInt64LE ((0 # le_bytes 8 (nat den)) @ alloc 8) num 9 =
      Inr ((0 # le_bytes 8 (nat den)) @ le_bytes 8 (nat num), 17)"
    using u64.write_tail [of num 8 9 "0 # le_bytes 8 (nat den)"] assms by (simp add: alloc_def)
  show ?thesis
    using tag 1 2 by (simp add: createStakePoolInstruction_def)
qed

lemma decode_initialize:
  "a < 2 ^ 64 \<Longrightarrow> b < 2 ^ 64 \<Longrightarrow>
   deserialize_instruction (0 # le_bytes 8 a @ le_bytes 8 b) = Inr (Initialize a b)"
  by (simp add: deserialize_instruction_def unpack_def slice_def le_val_le_bytes)

text \<open>The transaction that creates the accounts, with the given rents and sizes, and initialises the pool.\<close>

definition creation_tx :: "'k TenderizeProgram \<Rightarrow> number \<times> nat \<Rightarrow> number \<times> nat \<Rightarrow> number \<times> nat \<Rightarrow> 'k instruction \<Rightarrow> 'k sent_tx" where
  "creation_tx P a b c ix =
     \<lparr>tx = [SystemCreateAccount (payerAccount P) (stakePool P) (fst a) (snd a) (programAccount P),
           SystemCreateAccount (payerAccount P) (validatorStakeListAccount P) (fst b) (snd b) (programAccount P),
           SystemCreateAccount (payerAccount P) (creditListAccount P) (fst c) (snd c) (programAccount P), Instr ix],
      signers = [payerAccount P, owner P, stakePool P, validatorStakeListAccount P, creditListAccount P]\<rparr>"

lemma createStakePool_sends:
  assumes "rents C" "accepts C" "createStakePoolInstruction K P params = Inr ix"
  shows "\<exists>s' l1 l2 l3. createStakePool K C P params s = (Inr (), s') \<and>
    sent s' = sent s @ [creation_tx P (l1, stakePoolLength) (l2, validatorStakeListLength) (l3, creditListLength) ix]"
proof -
  obtain l1 s1 where 1: "createAccountOf C P (stakePool P) stakePoolLength s =
      (Inr (SystemCreateAccount (payerAccount P) (stakePool P) l1 stakePoolLength (programAccount P)), s1)" "sent s1 = sent s"
    using createAccountOf_ok [OF assms(1)] .
  obtain l2 s2 where 2: "createAccountOf C P (validatorStakeListAccount P) validatorStakeListLength s1 =
      (Inr (SystemCreateAccount (payerAccount P) (validatorStakeListAccount P) l2 validatorStakeListLength (programAccount P)), s2)"
    "sent s2 = sent s1"
    using createAccountOf_ok [OF assms(1)] .
  obtain l3 s3 where 3: "createAccountOf C P (creditListAccount P) creditListLength s2 =
      (Inr (SystemCreateAccount (payerAccount P) (creditListAccount P) l3 creditListLength (programAccount P)), s3)"
    "sent s3 = sent s2"
    using createAccountOf_ok [OF assms(1)] .
  let ?t = "creation_tx P (l1, stakePoolLength) (l2, validatorStakeListLength) (l3, creditListLength) ix"
  obtain w where "rpc_sendAndConfirm C ?t (world s3) = (Inr (), w)"
    using assms(2) unfolding accepts_def by blast
  then have "createStakePool K C P params s = (Inr (), s3\<lparr>world := w, sent := sent s3 @ [?t]\<rparr>)"
    using 1(1) 2(1) 3(1) assms(3)
    by (simp add: createStakePool_def bindIO_eval sendAndConfirmTransaction_def creation_tx_def)
  then show ?thesis
    using 1(2) 2(2) 3(2) by (intro exI conjI) auto
qed

section \<open>Updating the balances\<close>

lemma stakeKeys_ok:
  assumes "derivable K" "\<forall>i\<in>set is. i < 2 ^ 32"
  shows "stakeKeys K P v is = Inr (map (\<lambda>i. meta (stakeAddr K P v i) False True) is)"
  using assms(2) by (induction "is") (simp_all add: stakeFor_ok [OF assms(1)])

lemma updateListBalanceInstruction_ok:
  assumes "derivable K" "stakeCount v < 2 ^ 32"
  shows "\<exists>ix. updateListBalanceInstruction K P [v] = Inr ix \<and> data ix = [4] \<and>
    map pubkey (drop 8 (keys ix)) = votePubkey v # map (stakeAddr K P (votePubkey v)) [0..<stakeCount v]"
proof -
  obtain r d w where "getReserveAddress K P = Inr r" "getDepositAuthority K P = Inr d" "getWithdrawAuthority K P = Inr w"
    using authorities_ok [OF assms(1)] .
  moreover have "writeUInt8 (alloc 1) 4 0 = Inr ([4], 1)"
    using tag_ok [of 4 0] by (simp add: alloc_def)
  moreover have "stakeKeys K P (votePubkey v) [0..<stakeCount v] =
      Inr (map (\<lambda>i. meta (stakeAddr K P (votePubkey v) i) False True) [0..<stakeCount v])"
    using assms by (intro stakeKeys_ok) auto
  ultimately show ?thesis
    by (simp add: updateListBalanceInstruction_def meta_def o_def)
qed

lemma updatePoolBalanceInstruction_ok:
  assumes "derivable K"
  shows "\<exists>ix. updatePoolBalanceInstruction K P = Inr ix \<and> data ix = [5]"
proof -
  obtain r d w where "getReserveAddress K P = Inr r" "getDepositAuthority K P = Inr d" "getWithdrawAuthority K P = Inr w"
    using authorities_ok [OF assms] .
  moreover have "writeUInt8 (alloc 1) 5 0 = Inr ([5], 1)"
    using tag_ok [of 5 0] by (simp add: alloc_def)
  ultimately show ?thesis
    by (simp add: updatePoolBalanceInstruction_def)
qed

interpretation update_sender: sender C "\<lambda>v. updateListBalance K C P [v]" "\<lambda>v. derivable K \<and> stakeCount v < 2 ^ 32"
    "\<lambda>v. projr (updateListBalanceInstruction K P [v])" "[payerAccount P]" for K C P
proof unfold_locales
  fix v :: "'a ValidatorInfo"
  assume "derivable K \<and> stakeCount v < 2 ^ 32"
  then obtain ix where "updateListBalanceInstruction K P [v] = Inr ix"
    using updateListBalanceInstruction_ok [of K v P] by auto
  then show "updateListBalance K C P [v] = sendAndConfirmTransaction C
      [Instr (projr (updateListBalanceInstruction K P [v]))] [payerAccount P]"
    by (simp add: updateListBalance_def sendOne_Inr)
qed

lemma updatePool_sends:
  assumes "derivable K" "accepts C" "readValidators K C P s = (Inr vs, s1)" "list_all (\<lambda>v. stakeCount v < 2 ^ 32) vs"
  shows "\<exists>s'. updatePool K C P s = (Inr (), s') \<and>
    sent s' = sent s @ map (\<lambda>v. tx_of (projr (updateListBalanceInstruction K P [v])) [payerAccount P]) vs @
      [tx_of (projr (updatePoolBalanceInstruction K P)) [payerAccount P]]"
proof -
  obtain s2 where f: "forIO (\<lambda>v. updateListBalance K C P [v]) vs s1 = (Inr (), s2)"
    "sent s2 = sent s1 @ map (\<lambda>v. tx_of (projr (updateListBalanceInstruction K P [v])) [payerAccount P]) vs"
    using update_sender.forIO_succeeds [OF assms(2), of K vs] assms(1,4) by auto
  obtain ix where ix: "updatePoolBalanceInstruction K P = Inr ix"
    using updatePoolBalanceInstruction_ok [OF assms(1)] by blast
  obtain w where "sendAndConfirmTransaction C [Instr ix] [payerAccount P] s2 =
      (Inr (), s2\<lparr>world := w, sent := sent s2 @ [tx_of ix [payerAccount P]]\<rparr>)"
    using send_accepted [OF assms(2)] .
  then show ?thesis
    using assms(3) f ix quietD [OF quiet_readers(2) assms(3)]
    by (simp add: updatePool_def updatePoolBalance_def sendOne_Inr bindIO_eval)
qed

section \<open>Properties\<close>

text \<open>
  C34. \<open>createStakePool\<close> sends one transaction that creates the three accounts and initialises the
  pool: each account belongs to the program and has at least the size the program needs to store
  its structure, and the program reads the fee the caller gave.
\<close>

theorem createStakePool_initializes:
  assumes "rents C" "accepts C" "0 \<le> den" "den < 2 ^ 64" "0 \<le> num" "num < 2 ^ 64"
  shows "\<exists>s' a b c ix.
    createStakePool K C P \<lparr>csp_feeDenominator = of_int den, csp_feeNumerator = of_int num\<rparr> s = (Inr (), s') \<and>
    sent s' = sent s @ [creation_tx P a b c ix] \<and>
    StakePool_LEN \<le> snd a \<and> ValidatorStakeList_LEN \<le> snd b \<and> CreditList_LEN \<le> snd c \<and>
    deserialize_instruction (data ix) = Inr (Initialize (nat den) (nat num))"
proof -
  obtain ix where ix: "createStakePoolInstruction K P \<lparr>csp_feeDenominator = of_int den, csp_feeNumerator = of_int num\<rparr> = Inr ix"
    "data ix = 0 # le_bytes 8 (nat den) @ le_bytes 8 (nat num)"
    using createStakePoolInstruction_ok [OF assms(3-6)] by blast
  have "deserialize_instruction (data ix) = Inr (Initialize (nat den) (nat num))"
    unfolding ix(2) using assms(3-6) by (intro decode_initialize) (simp_all add: nat_less_iff)
  moreover have "StakePool_LEN \<le> stakePoolLength" "ValidatorStakeList_LEN \<le> validatorStakeListLength"
    "CreditList_LEN \<le> creditListLength"
    by (simp_all add: layout_sizes stakePoolLength_def validatorStakeListLength_def creditListLength_def)
  ultimately show ?thesis
    using createStakePool_sends [OF assms(1,2) ix(1), of s] by (metis snd_conv)
qed

theorem createStakePool_initializes_witness:
  "\<exists>s'. createStakePool sample_keys sample_connection sample_program
      \<lparr>csp_feeDenominator = of_int 1000, csp_feeNumerator = of_int 3\<rparr> (sample_sys (\<lambda>_. None, \<lambda>_. sample_stake)) = (Inr (), s')"
  using createStakePool_initializes [OF rents_sample accepts_sample, of 1000 3 sample_keys sample_program
    "sample_sys (\<lambda>_. None, \<lambda>_. sample_stake)"]
  by auto

text \<open>
  C33. \<open>updatePool\<close> touches every stake: on an accepting cluster it sends one list update for each
  validator, in order, naming the validator and each of its stake accounts, and then one pool
  update.
\<close>

theorem updatePool_covers:
  assumes "derivable K" "accepts C" "readValidators K C P s = (Inr vs, s1)" "list_all (\<lambda>v. stakeCount v < 2 ^ 32) vs"
  shows "\<exists>s' ixs ix. updatePool K C P s = (Inr (), s') \<and>
    sent s' = sent s @ map (\<lambda>i. tx_of i [payerAccount P]) (ixs @ [ix]) \<and>
    list_all (\<lambda>i. deserialize_instruction (data i) = Inr UpdateListBalance) ixs \<and>
    map (\<lambda>i. map pubkey (drop 8 (keys i))) ixs =
      map (\<lambda>v. votePubkey v # map (stakeAddr K P (votePubkey v)) [0..<stakeCount v]) vs \<and>
    deserialize_instruction (data ix) = Inr UpdatePoolBalance"
proof -
  let ?ix = "\<lambda>v. projr (updateListBalanceInstruction K P [v])" and ?last = "projr (updatePoolBalanceInstruction K P)"
  obtain s' where s': "updatePool K C P s = (Inr (), s')"
      "sent s' = sent s @ map (\<lambda>i. tx_of i [payerAccount P]) (map ?ix vs @ [?last])"
    using updatePool_sends [OF assms] by auto
  have upd: "data (?ix v) = [4] \<and> map pubkey (drop 8 (keys (?ix v))) = votePubkey v # map (stakeAddr K P (votePubkey v)) [0..<stakeCount v]"
    if "v \<in> set vs" for v
    using updateListBalanceInstruction_ok [OF assms(1), of v P] that assms(4) by (auto simp: list_all_iff)
  have "data ?last = [5]"
    using updatePoolBalanceInstruction_ok [OF assms(1), of P] by auto
  then show ?thesis
    using s' upd by (intro exI [of _ s'] exI [of _ "map ?ix vs"] exI [of _ ?last])
      (auto simp: list_all_iff deserialize_instruction_def o_def)
qed

theorem updatePool_covers_witness:
  "\<exists>s'. updatePool sample_keys sample_connection sample_program
      (sample_sys ([14 \<mapsto> sample_account sample_validators], \<lambda>_. sample_stake)) = (Inr (), s') \<and> length (sent s') = 3"
proof -
  let ?s = "sample_sys ([14 \<mapsto> sample_account sample_validators], \<lambda>_. sample_stake)"
  have read: "readValidators sample_keys sample_connection sample_program ?s = (Inr sample_infos, ?s)"
    by (intro sample_readValidators) (simp add: sample_sys_def)
  have "list_all (\<lambda>v. stakeCount v < 2 ^ 32) sample_infos"
    by (simp add: sample_infos_def)
  from updatePool_covers [OF derivable_sample accepts_sample read this] show ?thesis
    by (auto simp: sample_sys_def sample_infos_def map_eq_Cons_conv)
qed

end
