(* ===== verification/Admin_Cli.thy ===== *)
theory Admin_Cli
  imports Creditor_Payment Pool_Upkeep
begin

text \<open>
  \<open>experiment/cli.ts\<close>: the administrator's command line. The arguments are what the argparse package
  returns, a record; files, the shell and the cluster are arguments of the definitions. What is
  printed is not modelled, the reads done for printing are.
\<close>

section \<open>The solana configuration\<close>

definition isSpace :: "char \<Rightarrow> bool" where
  "isSpace c \<longleftrightarrow> of_char c \<in> {9, 10, 11, 12, 13, 32, 160 :: nat}"

definition trimRight :: "string \<Rightarrow> string" where
  "trimRight s = rev (dropWhile isSpace (rev s))"

fun splitLines :: "string \<Rightarrow> string list" where
  "splitLines [] = [[]]"
| "splitLines (c # cs) =
     (if c = CHR 0x0A then [] # splitLines cs
      else case splitLines cs of [] \<Rightarrow> [[c]] | l # ls \<Rightarrow> (c # l) # ls)"

definition toLowerCase :: "string \<Rightarrow> string" where
  "toLowerCase s =
     map (\<lambda>c. let n = (of_char c :: nat) in if 65 \<le> n \<and> n \<le> 90 then char_of (n + 32) else c) s"

text \<open>
  \<open>line.match(/^prefix(.*)$/)\<close>, with or without the flag \<open>i\<close>: the dot stands for any character but a
  line terminator.
\<close>

definition matchAfter :: "bool \<Rightarrow> string \<Rightarrow> string \<Rightarrow> string option" where
  "matchAfter ignoreCase pre line =
     (let f = (if ignoreCase then toLowerCase else id);
          rest = drop (length pre) line
      in if f (take (length pre) line) = f pre \<and> list_all (\<lambda>c. of_char c \<notin> {10, 13 :: nat}) rest
         then Some rest else None)"

fun configLoop :: "string list \<Rightarrow> string option \<Rightarrow> string option \<Rightarrow> string option \<times> string option" where
  "configLoop [] defaultUrl defaultPayerAccount = (defaultUrl, defaultPayerAccount)"
| "configLoop (line # ls) defaultUrl defaultPayerAccount =
     (let line = trimRight line;
          defaultUrl = (case matchAfter True ''RPC URL: '' line of Some u \<Rightarrow> Some u | None \<Rightarrow> defaultUrl);
          defaultPayerAccount =
            (case matchAfter False ''Keypair Path: '' line of Some p \<Rightarrow> Some p | None \<Rightarrow> defaultPayerAccount)
      in configLoop ls defaultUrl defaultPayerAccount)"

definition assertOk :: "string option \<Rightarrow> string \<Rightarrow> string res" where
  "assertOk v msg = (case v of Some (c # cs) \<Rightarrow> Inr (c # cs) | _ \<Rightarrow> Inl (AssertionError msg))"

definition readConfig :: "string \<Rightarrow> (string \<times> string) res" where
  "readConfig out =
     (case configLoop (splitLines out) None None of
        (defaultUrl, defaultPayerAccount) \<Rightarrow>
          bindE (assertOk defaultUrl ''Can't parse solana config RPC URL'') (\<lambda>u.
          bindE (assertOk defaultPayerAccount ''Can't parse solana config account'') (\<lambda>p.
          Inr (u, p))))"

section \<open>Arguments\<close>

datatype command =
    Show
  | Vadd "string list"
  | Vrem "string list"
  | Del "number option"
  | Update
  | UnstakeCmd "string option" "number option"
  | NoCommand

record args =
  url :: string
  payer :: string
  program :: string
  stake_pool :: string
  arg_owner :: string
  validator_list :: string
  credit_list :: string
  tSOL :: string
  owners_fee :: string
  credit_reserve :: string
  fee_denominator_arg :: number
  fee_numerator_arg :: number
  min_reserve :: number
  cmd :: command

definition defaultArgs :: "string \<Rightarrow> string \<Rightarrow> args" where
  "defaultArgs defaultUrl defaultPayerAccount =
     \<lparr>url = defaultUrl, payer = defaultPayerAccount,
      program = ''../keys/solana_bpf_tenderize-keypair.json'',
      stake_pool = ''../keys/stake_pool.json'',
      arg_owner = defaultPayerAccount,
      validator_list = ''../keys/validator_list.json'',
      credit_list = ''../keys/credit_list.json'',
      tSOL = ''../keys/tSOL_token.json'',
      owners_fee = ''../keys/owners_fee.json'',
      credit_reserve = ''../keys/credit_reserve.json'',
      fee_denominator_arg = 100, fee_numerator_arg = 3, min_reserve = 5, cmd = NoCommand\<rparr>"

text \<open>\<open>readAccount\<close> reads a key file. Only the public key of an account matters here.\<close>

definition openProgram :: "(string \<Rightarrow> 'k res) \<Rightarrow> args \<Rightarrow> 'k TenderizeProgram res" where
  "openProgram readAccount a =
     bindE (readAccount (payer a)) (\<lambda>pay.
     bindE (readAccount (program a)) (\<lambda>prog.
     bindE (readAccount (stake_pool a)) (\<lambda>pool.
     bindE (readAccount (arg_owner a)) (\<lambda>own.
     bindE (readAccount (validator_list a)) (\<lambda>vl.
     bindE (readAccount (credit_list a)) (\<lambda>cl.
     bindE (readAccount (tSOL a)) (\<lambda>tok.
     bindE (readAccount (owners_fee a)) (\<lambda>fee.
     bindE (readAccount (credit_reserve a)) (\<lambda>res.
     Inr \<lparr>payerAccount = pay, programAccount = prog, stakePool = pool, owner = own,
          validatorStakeListAccount = vl, creditListAccount = cl, poolMintToken = tok,
          ownersFee = fee, creditReserve = res\<rparr>)))))))))"

text \<open>web3.js exports the constant that \<open>src/constants/math.ts\<close> repeats.\<close>

definition LAMPORTS_PER_SOL :: number where
  "LAMPORTS_PER_SOL = 1000000000"

section \<open>Bringing the pool up to date\<close>

text \<open>A shell command never rejects: \<open>execShellCommand\<close> only warns.\<close>

type_synonym 'w shell = "string \<Rightarrow> 'w \<Rightarrow> 'w"

definition execShell :: "'w shell \<Rightarrow> string \<Rightarrow> ('k, 'w, unit) client" where
  "execShell sh c = (\<lambda>s. (Inr (), s\<lparr>world := sh c (world s)\<rparr>))"

definition getEpoch :: "('k, 'w) connection \<Rightarrow> ('k, 'w, nat) client" where
  "getEpoch C = onWorld (rpc_getEpoch C)"

definition createPool ::
  "'w shell \<Rightarrow> 'k keylib \<Rightarrow> ('k, 'w) connection \<Rightarrow> 'k TenderizeProgram \<Rightarrow> args \<Rightarrow> ('k, 'w, 'k State option) client" where
  "createPool sh K C P a =
     (let mint = toBase58 K (poolMintToken P) in
     bindIO (execShell sh (''spl-token create-token '' @ tSOL a)) (\<lambda>_.
     bindIO (liftE (getWithdrawAuthority K P)) (\<lambda>w.
     bindIO (execShell sh (''spl-token authorize '' @ mint @ '' mint '' @ toBase58 K w)) (\<lambda>_.
     bindIO (execShell sh (''spl-token create-account '' @ mint @ '' '' @ owners_fee a)) (\<lambda>_.
     bindIO (execShell sh (''spl-token create-account '' @ mint @ '' '' @ credit_reserve a)) (\<lambda>_.
     bindIO (createStakePool K C P \<lparr>csp_feeDenominator = fee_denominator_arg a, csp_feeNumerator = fee_numerator_arg a\<rparr>) (\<lambda>_.
     readState K C P False)))))))"

definition mergeAndUpdate ::
  "('k StakePair list \<Rightarrow> nat \<Rightarrow> 'k StakePair list list) \<Rightarrow>
   'k keylib \<Rightarrow> ('k, 'w) connection \<Rightarrow> 'k TenderizeProgram \<Rightarrow> ('k, 'w, 'k State option) client" where
  "mergeAndUpdate chunk K C P =
     bindIO (mergeAllStakes chunk K C P) (\<lambda>_.
     bindIO (updatePool K C P) (\<lambda>_.
     readState K C P False))"

definition bringUpToDate ::
  "'w shell \<Rightarrow> ('k StakePair list \<Rightarrow> nat \<Rightarrow> 'k StakePair list list) \<Rightarrow>
   'k keylib \<Rightarrow> ('k, 'w) connection \<Rightarrow> 'k TenderizeProgram \<Rightarrow> args \<Rightarrow> ('k, 'w, 'k State option \<times> bool) client" where
  "bringUpToDate sh chunk K C P a =
     bindIO (readState K C P False) (\<lambda>state.
     let create = bindIO (createPool sh K C P a) (\<lambda>state. returnIO (state, False)) in
     case state of
       None \<Rightarrow> create
     | Some st \<Rightarrow>
         if version st = 0 then create
         else
           bindIO (getEpoch C) (\<lambda>epoch.
           if lastEpochUpdate st < epoch then
             bindIO (mergeAndUpdate chunk K C P) (\<lambda>state. returnIO (state, True))
           else returnIO (Some st, False)))"

section \<open>The reserve\<close>

text \<open>The numbers in the message of the error are left out.\<close>

definition reserveInfo ::
  "'k keylib \<Rightarrow> ('k, 'w) connection \<Rightarrow> 'k TenderizeProgram \<Rightarrow> ('k, 'w, 'k account_info option) client" where
  "reserveInfo K C P = bindIO (liftE (getReserveAddress K P)) (getAccountInfo C)"

definition lamportsOf :: "'k account_info option \<Rightarrow> number" where
  "lamportsOf acc = (case acc of None \<Rightarrow> 0 | Some a \<Rightarrow> lamports a)"

definition minReserveOf :: "args \<Rightarrow> number \<Rightarrow> number \<Rightarrow> number" where
  "minReserveOf a rent0 rent10000 = max (js_mul LAMPORTS_PER_SOL (min_reserve a)) (js_add rent0 rent10000)"

definition topUpReserve ::
  "'k keylib \<Rightarrow> ('k, 'w) connection \<Rightarrow> 'k TenderizeProgram \<Rightarrow> args \<Rightarrow> ('k, 'w, unit) client" where
  "topUpReserve K C P a =
     bindIO (reserveInfo K C P) (\<lambda>reserve.
     bindIO (getMinimumBalanceForRentExemption C 0) (\<lambda>rent0.
     bindIO (getMinimumBalanceForRentExemption C 10000) (\<lambda>rent10000.
     let minReserve = minReserveOf a rent0 rent10000 in
     if reserve = None \<or> lamportsOf reserve < minReserve then
       let amount = js_sub minReserve (lamportsOf reserve) in
       bindIO (getAccountInfo C (payerAccount P)) (\<lambda>acc.
       let balance = lamportsOf acc in
       if balance < amount then throwIO (Error ''Not enough fund in your account'')
       else deposit K C P \<lparr>userSource = payerAccount P, dep_amount = amount, userToken = ownersFee P\<rparr>)
     else returnIO ())))"

section \<open>The report\<close>

definition reportStake ::
  "'k keylib \<Rightarrow> ('k, 'w) connection \<Rightarrow> 'k TenderizeProgram \<Rightarrow> 'k \<Rightarrow> nat \<Rightarrow> ('k, 'w, unit) client" where
  "reportStake K C P v i =
     bindIO (liftE (getStakeForValidator K P v i)) (\<lambda>stake.
     catchIO
       (bindIO (getAccountInfo C stake) (\<lambda>acc.
        bindIO (getStakeActivation C stake) (\<lambda>stakeInfo. returnIO ())))
       (\<lambda>e. returnIO ()))"

text \<open>Returns the reserve, which the command may need; fails where the report dereferences a null.\<close>

definition report ::
  "'k keylib \<Rightarrow> ('k, 'w) connection \<Rightarrow> 'k TenderizeProgram \<Rightarrow> 'k State option \<Rightarrow> ('k, 'w, 'k account_info) client" where
  "report K C P state =
     bindIO (reserveInfo K C P) (\<lambda>reserve.
     bindIO (liftE (getReserveAddress K P)) (\<lambda>_.
     case reserve of
       None \<Rightarrow> throwIO TypeError
     | Some res \<Rightarrow>
         (case state of
            None \<Rightarrow> throwIO TypeError
          | Some st \<Rightarrow>
              bindIO (readValidators K C P) (\<lambda>vs.
              bindIO (forIO (\<lambda>v. forIO (reportStake K C P (votePubkey v)) [0..<stakeCount v]) vs) (\<lambda>_.
              bindIO (readCreditors K C P) (\<lambda>creditors.
              returnIO res))))))"

section \<open>The commands\<close>

definition getVoteAccounts :: "('k, 'w) connection \<Rightarrow> ('k, 'w, 'k list) client" where
  "getVoteAccounts C = onWorld (rpc_getVoteAccounts C)"

definition vadd ::
  "(string \<Rightarrow> 'k res) \<Rightarrow> 'k keylib \<Rightarrow> ('k, 'w) connection \<Rightarrow> 'k TenderizeProgram \<Rightarrow> string list \<Rightarrow> ('k, 'w, unit) client" where
  "vadd parseKey K C P votes =
     bindIO
       (if length votes = 0 then
          bindIO (readValidators K C P) (\<lambda>currentValidators.
          bindIO (getVoteAccounts C) (\<lambda>current.
          returnIO (filter (\<lambda>v. \<not> list_ex (\<lambda>c. votePubkey c = v) currentValidators) current)))
        else liftE (mapE parseKey votes))
       (\<lambda>vs. forIO (addValidator K C P) vs)"

definition vrem ::
  "(string \<Rightarrow> 'k res) \<Rightarrow> 'k keylib \<Rightarrow> ('k, 'w) connection \<Rightarrow> 'k TenderizeProgram \<Rightarrow> string list \<Rightarrow> ('k, 'w, unit) client" where
  "vrem parseKey K C P votes =
     bindIO
       (if length votes = 0 then
          bindIO (readValidators K C P) (\<lambda>vs.
          returnIO (map votePubkey (filter (\<lambda>v. stakeCount v = 0) vs)))
        else liftE (mapE parseKey votes))
       (\<lambda>vs. forIO (removeValidator K C P) vs)"

definition delAmount :: "number option \<Rightarrow> 'k account_info \<Rightarrow> number" where
  "delAmount amount reserve =
     (let ninety = math_round (js_mul (fl (9 / 10)) (lamports reserve)) in
      case amount of None \<Rightarrow> ninety | Some x \<Rightarrow> if x = 0 then ninety else js_mul x LAMPORTS_PER_SOL)"

record 'k chunkers =
  chunkD :: "'k DepositReserveValidatorParam list \<Rightarrow> nat \<Rightarrow> 'k DepositReserveValidatorParam list list"
  chunkM :: "'k StakePair list \<Rightarrow> nat \<Rightarrow> 'k StakePair list list"
  chunkU :: "'k Unstake list \<Rightarrow> nat \<Rightarrow> 'k Unstake list list"

definition unstakeCommand ::
  "'k chunkers \<Rightarrow> 'k keylib \<Rightarrow> ('k, 'w) connection \<Rightarrow> 'k TenderizeProgram \<Rightarrow> string option \<Rightarrow> number option \<Rightarrow> ('k, 'w, unit) client" where
  "unstakeCommand ch K C P vote amount =
     (case vote of
        Some (c # cs) \<Rightarrow>
          bindIO (readValidators K C P) (\<lambda>vs.
          case find (\<lambda>v. toBase58 K (votePubkey v) = c # cs) vs of
            None \<Rightarrow> throwIO (Error (''Invalid validator '' @ c # cs))
          | Some v \<Rightarrow> unstake (chunkU ch) K C P v amount)
      | _ \<Rightarrow> unstakeAll (chunkU ch) K C P)"

definition runCommand ::
  "'k chunkers \<Rightarrow> (string \<Rightarrow> 'k res) \<Rightarrow> 'k keylib \<Rightarrow> ('k, 'w) connection \<Rightarrow> 'k TenderizeProgram \<Rightarrow> command \<Rightarrow> bool \<Rightarrow> 'k account_info \<Rightarrow>
   ('k, 'w, unit) client" where
  "runCommand ch parseKey K C P c wasUpdated reserve =
     (case c of
        Vadd votes \<Rightarrow> vadd parseKey K C P votes
      | Vrem votes \<Rightarrow> vrem parseKey K C P votes
      | Del amount \<Rightarrow> delegateReserveBatch (chunkD ch) K C P (delAmount amount reserve)
      | Update \<Rightarrow>
          (if wasUpdated then returnIO ()
           else bindIO (mergeAndUpdate (chunkM ch) K C P) (\<lambda>_. returnIO ()))
      | UnstakeCmd vote amount \<Rightarrow> unstakeCommand ch K C P vote amount
      | _ \<Rightarrow> returnIO ())"

text \<open>The whole run after the arguments are read. \<open>None\<close> is a run that pays creditors forever.\<close>

definition runCli ::
  "'w shell \<Rightarrow> 'k chunkers \<Rightarrow> (string \<Rightarrow> 'k res) \<Rightarrow> (string \<Rightarrow> 'k res) \<Rightarrow> 'k keylib \<Rightarrow> ('k, 'w) connection \<Rightarrow> args \<Rightarrow>
   ('k, 'w) sys \<Rightarrow> (unit res \<times> ('k, 'w) sys) option" where
  "runCli sh ch readAccount parseKey K C a s =
     (case openProgram readAccount a of
        Inl e \<Rightarrow> Some (Inl e, s)
      | Inr P \<Rightarrow>
          (case bindIO (bringUpToDate sh (chunkM ch) K C P a) (\<lambda>su. bindIO (topUpReserve K C P a) (\<lambda>_. returnIO su)) s of
             (Inl e, s) \<Rightarrow> Some (Inl e, s)
           | (Inr (state, wasUpdated), s) \<Rightarrow>
               (case payAllCreditors K C P s of
                  None \<Rightarrow> None
                | Some (Inl e, s) \<Rightarrow> Some (Inl e, s)
                | Some (Inr _, s) \<Rightarrow>
                    Some (bindIO (report K C P state) (runCommand ch parseKey K C P (cmd a) wasUpdated) s))))"

text \<open>
  The entry point: the shell's answer to \<open>solana config get\<close> gives the defaults, the argparse package
  (\<open>parse_args\<close>) overrides them by what was typed.
\<close>

definition run ::
  "string \<Rightarrow> (args \<Rightarrow> args res) \<Rightarrow> 'w shell \<Rightarrow> 'k chunkers \<Rightarrow> (string \<Rightarrow> 'k res) \<Rightarrow> (string \<Rightarrow> 'k res) \<Rightarrow> 'k keylib \<Rightarrow>
   ('k, 'w) connection \<Rightarrow> ('k, 'w) sys \<Rightarrow> (unit res \<times> ('k, 'w) sys) option" where
  "run solana_config parse_args sh ch readAccount parseKey K C s =
     (case bindE (readConfig solana_config) (\<lambda>(u, p). parse_args (defaultArgs u p)) of
        Inl e \<Rightarrow> Some (Inl e, s)
      | Inr a \<Rightarrow> runCli sh ch readAccount parseKey K C a s)"

section \<open>Funding an account\<close>

definition payerBalance :: "('k, 'w) connection \<Rightarrow> 'k \<Rightarrow> ('k, 'w, number) client" where
  "payerBalance C who = bindIO (getAccountInfo C who) (\<lambda>account. returnIO (lamportsOf account))"

definition airdrop :: "('k, 'w) connection \<Rightarrow> 'k \<Rightarrow> ('k, 'w, number) client" where
  "airdrop C who =
     bindIO (onWorld (rpc_requestAirdrop C who (js_mul 10 LAMPORTS_PER_SOL))) (\<lambda>_. payerBalance C who)"

partial_function (option) fundLoop ::
  "('k, 'w) connection \<Rightarrow> 'k \<Rightarrow> number \<Rightarrow> number \<Rightarrow> ('k, 'w) sys \<Rightarrow> (unit res \<times> ('k, 'w) sys) option" where
  "fundLoop C who amount bal s =
     (if bal < amount then
        (case airdrop C who s of
           (Inl e, s') \<Rightarrow> Some (Inl e, s')
         | (Inr bal', s') \<Rightarrow> fundLoop C who amount bal' s')
      else Some (Inr (), s))"

definition ensureFunds ::
  "('k, 'w) connection \<Rightarrow> 'k \<Rightarrow> number \<Rightarrow> ('k, 'w) sys \<Rightarrow> (unit res \<times> ('k, 'w) sys) option" where
  "ensureFunds C who amount s =
     (case payerBalance C who s of
        (Inl e, s') \<Rightarrow> Some (Inl e, s')
      | (Inr bal, s') \<Rightarrow> fundLoop C who amount bal s')"

text \<open>An airdrop raises the balance that is read next by ten SOL at least, or is refused.\<close>

definition airdrops_arrive :: "('k, 'w) connection \<Rightarrow> 'k \<Rightarrow> bool" where
  "airdrops_arrive C who \<longleftrightarrow>
     (\<forall>t bal s bal' s'. payerBalance C who t = (Inr bal, s) \<and> airdrop C who s = (Inr bal', s') \<longrightarrow>
        bal + 10000000000 \<le> bal')"

lemma airdrop_reads: "airdrop C who s = (Inr bal, s') \<Longrightarrow> \<exists>t. payerBalance C who t = (Inr bal, s')"
  by (auto simp: airdrop_def io_simps)

definition funded :: "('k, 'w) connection \<Rightarrow> 'k \<Rightarrow> number \<Rightarrow> (unit res \<times> ('k, 'w) sys) option \<Rightarrow> bool" where
  "funded C who amount out \<longleftrightarrow>
     (\<exists>r s'. out = Some (r, s') \<and> (r = Inr () \<longrightarrow> (\<exists>t bal. payerBalance C who t = (Inr bal, s') \<and> amount \<le> bal)))"

lemma fundLoop_ends:
  assumes "airdrops_arrive C who" "payerBalance C who t = (Inr bal, s)"
  shows "funded C who amount (fundLoop C who amount bal s)"
  using assms(2)
proof (induction "nat \<lceil>amount - bal\<rceil>" arbitrary: bal s t rule: less_induct)
  case less
  show ?case
  proof (cases "bal < amount")
    case False
    then have "\<exists>t b. payerBalance C who t = (Inr b, s) \<and> amount \<le> b"
      using less.prems not_less by blast
    then show ?thesis
      using False by (simp add: funded_def fundLoop.simps [of C who amount bal s])
  next
    case True
    obtain q u where q: "airdrop C who s = (q, u)"
      by fastforce
    show ?thesis
    proof (cases q)
      case (Inl e)
      then show ?thesis
        using True q by (simp add: funded_def fundLoop.simps [of C who amount bal s])
    next
      case (Inr bal')
      have "bal + 10000000000 \<le> bal'"
        using assms(1) less.prems q Inr unfolding airdrops_arrive_def by blast
      then have "nat \<lceil>amount - bal'\<rceil> < nat \<lceil>amount - bal\<rceil>"
        using True by linarith
      moreover obtain t' where "payerBalance C who t' = (Inr bal', u)"
        using airdrop_reads [OF q [unfolded Inr]] by blast
      ultimately have "funded C who amount (fundLoop C who amount bal' u)"
        by (rule less.hyps)
      then show ?thesis
        using True q Inr by (simp add: fundLoop.simps [of C who amount bal s])
    qed
  qed
qed

lemma airdrops_sample: "airdrops_arrive sample_connection who"
proof -
  have "js_mul 10 LAMPORTS_PER_SOL = 10000000000"
    using js_mul_int [of 10 1000000000] by (simp add: LAMPORTS_PER_SOL_def MAX_SAFE_def)
  moreover have "rpc_requestAirdrop sample_connection k n w = (Inr (), ((fst w)(k \<mapsto>
      \<lparr>acc_owner = KeyRef 9 11, lamports = (case fst w k of None \<Rightarrow> 0 | Some a \<Rightarrow> lamports a) + n, acc_data = []\<rparr>), snd w))" for k n w
    by (simp add: sample_connection_def)
  ultimately show ?thesis
    by (auto simp: airdrops_arrive_def airdrop_def payerBalance_def bindIO_def onWorld_def lamportsOf_def split: option.splits)
qed

section \<open>Lemmas for the commands\<close>

lemma addValidatorInstruction_ok:
  "\<exists>ix. addValidatorInstruction K P v = Inr ix \<and> deserialize_instruction (data ix) = Inr AddValidator \<and> pubkey (keys ix ! 3) = v"
  using tag_ok [of 2 0] by (simp add: addValidatorInstruction_def alloc_def deserialize_instruction_def meta_def)

lemma removeValidatorInstruction_ok:
  "\<exists>ix. removeValidatorInstruction K P v = Inr ix \<and> deserialize_instruction (data ix) = Inr RemoveValidator \<and> pubkey (keys ix ! 3) = v"
  using tag_ok [of 3 0] by (simp add: removeValidatorInstruction_def alloc_def deserialize_instruction_def meta_def)

interpretation add_sender: sender C "addValidator K C P" "\<lambda>v. True"
    "\<lambda>v. projr (addValidatorInstruction K P v)" "[payerAccount P, owner P]" for K C P
proof unfold_locales
  fix v
  obtain ix where "addValidatorInstruction K P v = Inr ix"
    using addValidatorInstruction_ok [of K P v] by blast
  then show "addValidator K C P v = sendAndConfirmTransaction C [Instr (projr (addValidatorInstruction K P v))] [payerAccount P, owner P]"
    by (simp add: addValidator_def sendOne_Inr)
qed

interpretation remove_sender: sender C "removeValidator K C P" "\<lambda>v. True"
    "\<lambda>v. projr (removeValidatorInstruction K P v)" "[payerAccount P, owner P]" for K C P
proof unfold_locales
  fix v
  obtain ix where "removeValidatorInstruction K P v = Inr ix"
    using removeValidatorInstruction_ok [of K P v] by blast
  then show "removeValidator K C P v = sendAndConfirmTransaction C [Instr (projr (removeValidatorInstruction K P v))] [payerAccount P, owner P]"
    by (simp add: removeValidator_def sendOne_Inr)
qed

text \<open>What a transaction with a validator instruction names.\<close>

definition names_validator :: "StakePoolInstruction \<Rightarrow> 'k \<Rightarrow> 'k sent_tx \<Rightarrow> bool" where
  "names_validator op v t \<longleftrightarrow>
     (\<exists>ix. tx t = [Instr ix] \<and> deserialize_instruction (data ix) = Inr op \<and> pubkey (keys ix ! 3) = v)"

lemma names_added: "names_validator AddValidator v (tx_of (projr (addValidatorInstruction K P v)) ss)"
  using addValidatorInstruction_ok [of K P v] by (auto simp: names_validator_def tx_of_def)

lemma names_removed: "names_validator RemoveValidator v (tx_of (projr (removeValidatorInstruction K P v)) ss)"
  using removeValidatorInstruction_ok [of K P v] by (auto simp: names_validator_def tx_of_def)

lemma quiet_cli [quiet_intros]:
  "quiet (getVoteAccounts C)" "quiet (getEpoch C)" "quiet (reserveInfo K C P)"
  by (auto simp: getVoteAccounts_def getEpoch_def reserveInfo_def intro!: quiet_intros)

lemma quiet_forIO [quiet_intros]: "(\<And>x. quiet (f x)) \<Longrightarrow> quiet (forIO f xs)"
  by (induction xs) (auto intro!: quiet_intros)

lemma quiet_report: "quiet (report K C P st)"
  by (auto simp: report_def reportStake_def intro!: quiet_intros split: option.splits)

lemma deposit_decoded:
  assumes "derivable K" "0 \<le> a" "a < 2 ^ 63"
  shows "\<exists>ix. depositInstruction K P \<lparr>userSource = u, dep_amount = of_int a, userToken = t\<rparr> = Inr ix \<and>
    deserialize_instruction (data ix) = Inr (Deposit (nat a))"
proof -
  obtain r d w where "getReserveAddress K P = Inr r" "getDepositAuthority K P = Inr d" "getWithdrawAuthority K P = Inr w"
    using authorities_ok [OF assms(1)] .
  then show ?thesis
    using assms(2,3) by (simp add: depositInstruction_def amount_bytes_ok deserialize_instruction_def read_u64_written)
qed

section \<open>Properties\<close>

lemma deposit_accepted:
  assumes "derivable K" "accepts C" "0 \<le> n" "n < 2 ^ 63"
  shows "\<exists>ix w. deserialize_instruction (data ix) = Inr (Deposit (nat n)) \<and>
    deposit K C P \<lparr>userSource = payerAccount P, dep_amount = of_int n, userToken = t\<rparr> s =
      (Inr (), s\<lparr>world := w, sent := sent s @ [tx_of ix [payerAccount P]]\<rparr>)"
proof -
  obtain ix where ix: "depositInstruction K P \<lparr>userSource = payerAccount P, dep_amount = of_int n, userToken = t\<rparr> = Inr ix"
      "deserialize_instruction (data ix) = Inr (Deposit (nat n))"
    using deposit_decoded [OF assms(1,3,4)] by blast
  obtain w where "sendAndConfirmTransaction C [Instr ix] [payerAccount P] s =
      (Inr (), s\<lparr>world := w, sent := sent s @ [tx_of ix [payerAccount P]]\<rparr>)"
    using send_accepted [OF assms(2)] .
  then show ?thesis
    using ix by (auto simp: deposit_def sendOne_Inr)
qed

text \<open>
  The reserve is topped up to the minimum, exactly: when it holds less, one deposit of the missing
  lamports is sent, or, when the payer has less than that, the run stops with an error and nothing is
  sent; a reserve with at least the minimum is left alone.
\<close>

lemma topUpReserve_exact:
  assumes "derivable K" "accepts C" "reserveInfo K C P s = (Inr (Some res), s1)"
    "getMinimumBalanceForRentExemption C 0 s1 = (Inr r0, s2)" "getMinimumBalanceForRentExemption C 10000 s2 = (Inr r1, s3)"
    "getAccountInfo C (payerAccount P) s3 = (Inr acc, s4)"
    "minReserveOf a r0 r1 = of_int m" "lamports res = of_int r" "0 \<le> r" "0 \<le> m" "m \<le> MAX_SAFE" "r \<le> MAX_SAFE"
  shows "\<exists>s' ix.
    (if r < m \<and> of_int (m - r) \<le> lamportsOf acc then
       topUpReserve K C P a s = (Inr (), s') \<and> sent s' = sent s @ [tx_of ix [payerAccount P]] \<and>
       deserialize_instruction (data ix) = Inr (Deposit (nat (m - r)))
     else if r < m then topUpReserve K C P a s = (Inl (Error ''Not enough fund in your account''), s') \<and> sent s' = sent s
     else topUpReserve K C P a s = (Inr (), s') \<and> sent s' = sent s)"
proof -
  have sub: "js_sub (of_int m) (of_int r) = of_int (m - r)"
    using assms(9-12) by (intro js_sub_int) simp
  have quiet: "sent s1 = sent s" "sent s2 = sent s1" "sent s3 = sent s2" "sent s4 = sent s3"
    using quietD [OF quiet_cli(3) assms(3)] quietD [OF quiet_rpc(3) assms(4)] quietD [OF quiet_rpc(3) assms(5)]
      quietD [OF quiet_rpc(1) assms(6)] by simp_all
  have lam: "lamportsOf (Some res) = of_int r"
    by (simp add: lamportsOf_def assms(8))
  have run: "topUpReserve K C P a s =
    (if (of_int r :: rat) < of_int m then
       if lamportsOf acc < of_int (m - r) then (Inl (Error ''Not enough fund in your account''), s4)
       else deposit K C P \<lparr>userSource = payerAccount P, dep_amount = of_int (m - r), userToken = ownersFee P\<rparr> s4
     else (Inr (), s3))"
    using assms(3-6) by (simp add: topUpReserve_def bindIO_eval Let_def assms(7) lam sub del: of_int_diff)
  consider "m \<le> r" | "r < m" "lamportsOf acc < of_int (m - r)" | "r < m" "of_int (m - r) \<le> lamportsOf acc"
    using le_less_linear [of m r] le_less_linear [of "of_int (m - r)" "lamportsOf acc"] by blast
  then show ?thesis
  proof cases
    case 1
    then have "topUpReserve K C P a s = (Inr (), s3)"
      by (simp add: run del: of_int_diff)
    then show ?thesis
      using 1 quiet by auto
  next
    case 2
    then have "topUpReserve K C P a s = (Inl (Error ''Not enough fund in your account''), s4)"
      by (simp add: run del: of_int_diff)
    then show ?thesis
      using 2 quiet by auto
  next
    case 3
    have "0 \<le> m - r" "m - r < 2 ^ 63"
      using 3(1) assms(9,11) by (simp_all add: MAX_SAFE_def)
    then obtain ix w where ix: "deserialize_instruction (data ix) = Inr (Deposit (nat (m - r)))"
        "deposit K C P \<lparr>userSource = payerAccount P, dep_amount = of_int (m - r), userToken = ownersFee P\<rparr> s4 =
          (Inr (), s4\<lparr>world := w, sent := sent s4 @ [tx_of ix [payerAccount P]]\<rparr>)"
      using deposit_accepted [OF assms(1,2)] by blast
    then have "topUpReserve K C P a s = (Inr (), s4\<lparr>world := w, sent := sent s4 @ [tx_of ix [payerAccount P]]\<rparr>)"
      using 3 by (simp add: run del: of_int_diff)
    then show ?thesis
      using 3 quiet ix(1) by auto
  qed
qed

lemma topUpReserve_exact_witness:
  "\<exists>s'. topUpReserve sample_keys sample_connection sample_program (defaultArgs [] [])
      (sample_sys (\<lambda>_. Some \<lparr>acc_owner = KeyRef 9 11, lamports = 4000000000, acc_data = []\<rparr>, \<lambda>_. sample_stake)) = (Inr (), s') \<and>
    length (sent s') = 1"
proof -
  let ?acc = "\<lparr>acc_owner = KeyRef 9 (11 :: key), lamports = 4000000000, acc_data = []\<rparr>"
  let ?s = "sample_sys (\<lambda>_. Some ?acc, \<lambda>_. sample_stake)"
  obtain r d w where "getReserveAddress sample_keys sample_program = Inr r" "getDepositAuthority sample_keys sample_program = Inr d"
    "getWithdrawAuthority sample_keys sample_program = Inr w"
    using authorities_ok [OF derivable_sample] .
  then have res: "reserveInfo sample_keys sample_connection sample_program ?s = (Inr (Some ?acc), ?s)"
    by (simp add: reserveInfo_def sample_sys_def)
  have rent: "getMinimumBalanceForRentExemption sample_connection n ?s = (Inr (of_nat n), ?s)" for n
    by (simp add: getMinimumBalanceForRentExemption_def onWorld_def sample_connection_def)
  have acc: "getAccountInfo sample_connection (payerAccount sample_program) ?s = (Inr (Some ?acc), ?s)"
    by (simp add: sample_sys_def)
  have min: "minReserveOf (defaultArgs [] []) (of_nat 0) (of_nat 10000) = of_int 5000000000"
    using js_mul_int [of 1000000000 5] js_add_int [of 0 10000]
    by (simp add: minReserveOf_def defaultArgs_def LAMPORTS_PER_SOL_def MAX_SAFE_def)
  show ?thesis
    using topUpReserve_exact [OF derivable_sample accepts_sample res rent rent acc min, of 4000000000]
    by (auto simp: MAX_SAFE_def lamportsOf_def sample_sys_def)
qed

text \<open>
  \<open>vadd\<close> without names adds every voting account that is not in the pool, and only those: one
  transaction for each, in the order the cluster lists them.
\<close>

lemma vadd_adds_missing:
  assumes "accepts C" "readValidators K C P s = (Inr vs, s1)" "getVoteAccounts C s1 = (Inr current, s2)"
  shows "\<exists>s' ts. vadd parseKey K C P [] s = (Inr (), s') \<and> sent s' = sent s @ ts \<and>
    list_all2 (names_validator AddValidator) (filter (\<lambda>v. v \<notin> votePubkey ` set vs) current) ts"
proof -
  let ?new = "filter (\<lambda>v. v \<notin> votePubkey ` set vs) current"
  have new: "filter (\<lambda>v. \<not> list_ex (\<lambda>c. votePubkey c = v) vs) current = ?new"
    by (intro filter_cong) (auto simp: list_ex_iff)
  obtain s' where f: "forIO (addValidator K C P) ?new s2 = (Inr (), s')"
    "sent s' = sent s2 @ map (\<lambda>v. tx_of (projr (addValidatorInstruction K P v)) [payerAccount P, owner P]) ?new"
    using add_sender.forIO_succeeds [OF assms(1), of ?new K P s2] by (auto simp: list_all_iff)
  have "sent s2 = sent s"
    using quietD [OF quiet_readers(2) assms(2)] quietD [OF quiet_cli(1) assms(3)] by simp
  moreover have "vadd parseKey K C P [] s = (Inr (), s')"
    using assms(2,3) f(1) by (simp add: vadd_def bindIO_eval bindIO_assoc new)
  moreover have "list_all2 (names_validator AddValidator) ?new
      (map (\<lambda>v. tx_of (projr (addValidatorInstruction K P v)) [payerAccount P, owner P]) ?new)"
    by (simp add: list_all2_map2 list_all2_same names_added)
  ultimately show ?thesis
    using f(2) by auto
qed

lemma vadd_adds_missing_witness:
  "\<exists>s'. vadd (\<lambda>_. Inl TypeError) sample_keys sample_connection sample_program []
      (sample_sys ([14 \<mapsto> sample_account sample_validators], \<lambda>_. sample_stake)) = (Inr (), s') \<and> length (sent s') = 2"
proof -
  let ?s = "sample_sys ([14 \<mapsto> sample_account sample_validators], \<lambda>_. sample_stake)"
  have read: "readValidators sample_keys sample_connection sample_program ?s = (Inr sample_infos, ?s)"
    by (intro sample_readValidators) (simp add: sample_sys_def)
  have votes: "getVoteAccounts sample_connection ?s = (Inr [7, 8], ?s)"
    by (simp add: getVoteAccounts_def onWorld_def sample_connection_def)
  show ?thesis
    using vadd_adds_missing [OF accepts_sample read votes, of "\<lambda>_. Inl TypeError"]
    by (auto simp: sample_infos_def sample_sys_def dest: list_all2_lengthD)
qed

text \<open>
  \<open>vrem\<close> without names removes the validators that have no stake left, and only those: one
  transaction for each, in the order of the list.
\<close>

lemma vrem_removes_empty:
  assumes "accepts C" "readValidators K C P s = (Inr vs, s1)"
  shows "\<exists>s' ts. vrem parseKey K C P [] s = (Inr (), s') \<and> sent s' = sent s @ ts \<and>
    list_all2 (\<lambda>v. names_validator RemoveValidator (votePubkey v)) (filter (\<lambda>v. stakeCount v = 0) vs) ts"
proof -
  let ?old = "map votePubkey (filter (\<lambda>v. stakeCount v = 0) vs)"
  obtain s' where f: "forIO (removeValidator K C P) ?old s1 = (Inr (), s')"
    "sent s' = sent s1 @ map (\<lambda>v. tx_of (projr (removeValidatorInstruction K P v)) [payerAccount P, owner P]) ?old"
    using remove_sender.forIO_succeeds [OF assms(1), of ?old K P s1] by (auto simp: list_all_iff)
  have "vrem parseKey K C P [] s = (Inr (), s')"
    using assms(2) f(1) by (simp add: vrem_def bindIO_eval bindIO_assoc)
  moreover have "list_all2 (\<lambda>v. names_validator RemoveValidator (votePubkey v)) (filter (\<lambda>v. stakeCount v = 0) vs)
      (map (\<lambda>v. tx_of (projr (removeValidatorInstruction K P v)) [payerAccount P, owner P]) ?old)"
    by (simp add: list_all2_map2 list_all2_same names_removed)
  ultimately show ?thesis
    using f(2) quietD [OF quiet_readers(2) assms(2)] by auto
qed

lemma vrem_removes_empty_witness:
  "\<exists>s'. vrem (\<lambda>_. Inl TypeError) sample_keys sample_connection sample_program []
      (sample_sys ([14 \<mapsto> sample_account sample_validators], \<lambda>_. sample_stake)) = (Inr (), s') \<and> length (sent s') = 1"
proof -
  let ?s = "sample_sys ([14 \<mapsto> sample_account sample_validators], \<lambda>_. sample_stake)"
  have read: "readValidators sample_keys sample_connection sample_program ?s = (Inr sample_infos, ?s)"
    by (intro sample_readValidators) (simp add: sample_sys_def)
  show ?thesis
    using vrem_removes_empty [OF accepts_sample read, of "\<lambda>_. Inl TypeError"]
    by (auto simp: sample_infos_def sample_sys_def dest: list_all2_lengthD)
qed



end
