(* ===== verification/Test_Scenario.thy ===== *)
theory Test_Scenario
  imports Admin_Cli
begin

text \<open>
  \<open>experiment/tester.ts\<close> and \<open>experiment/main.ts\<close>: the scenario that sets a pool up on a cluster and then takes it
  through credits, payment, delegation, merging and unstaking. Key files, new key pairs, the shell and
  the calls of the cluster that only the tester makes are the fields of \<open>harness\<close>. What is printed is left
  out, the reads done for printing are kept.
\<close>

section \<open>The tester\<close>

record ('k, 'w) harness =
  readKeyFile :: "string \<Rightarrow> ('w, 'k) io"
  writeKeyFile :: "string \<Rightarrow> 'k \<Rightarrow> ('w, unit) io"
  newAccount :: "('w, 'k) io"
  shellOut :: "string \<Rightarrow> 'w \<Rightarrow> string \<times> 'w"
  rpc_getVersion :: "('w, unit) io"
  rpc_getBalance :: "'k \<Rightarrow> ('w, number) io"
  connect_to :: "string \<Rightarrow> ('k, 'w) connection"

record 'k Tester =
  t_url :: string
  t_payerAccount :: 'k
  t_userTokenAccount :: 'k

definition keyPath :: "string \<Rightarrow> string" where
  "keyPath name = ''../keys/'' @ name @ ''.json''"

definition loadAccount :: "('k, 'w) harness \<Rightarrow> string \<Rightarrow> ('k, 'w, 'k) client" where
  "loadAccount H name = onWorld (readKeyFile H (keyPath name))"

definition saveAccount :: "('k, 'w) harness \<Rightarrow> string \<Rightarrow> 'k \<Rightarrow> ('k, 'w, unit) client" where
  "saveAccount H name account = onWorld (writeKeyFile H (keyPath name) account)"

definition loadOrNewAccount :: "('k, 'w) harness \<Rightarrow> string \<Rightarrow> ('k, 'w, 'k) client" where
  "loadOrNewAccount H name =
     catchIO (loadAccount H name) (\<lambda>e.
       bindIO (onWorld (newAccount H)) (\<lambda>account.
       bindIO (saveAccount H name account) (\<lambda>_.
       returnIO account)))"

definition initTenderize :: "('k, 'w) harness \<Rightarrow> 'k Tester \<Rightarrow> ('k, 'w, 'k TenderizeProgram) client" where
  "initTenderize H t =
     bindIO (loadAccount H ''solana_bpf_tenderize-keypair'') (\<lambda>prog.
     bindIO (loadAccount H ''stake_pool'') (\<lambda>pool.
     bindIO (loadAccount H ''validator_list'') (\<lambda>vl.
     bindIO (loadAccount H ''credit_list'') (\<lambda>cl.
     bindIO (loadAccount H ''tSOL_token'') (\<lambda>tok.
     bindIO (loadAccount H ''owners_fee'') (\<lambda>fee.
     bindIO (loadAccount H ''credit_reserve'') (\<lambda>res.
     returnIO
       \<lparr>payerAccount = t_payerAccount t, programAccount = prog, stakePool = pool, owner = t_payerAccount t,
        validatorStakeListAccount = vl, creditListAccount = cl, poolMintToken = tok, ownersFee = fee,
        creditReserve = res\<rparr>)))))))"

definition runProgram :: "('k, 'w) connection \<Rightarrow> 'k Tester \<Rightarrow> 'k \<Rightarrow> 'k \<Rightarrow> ('k, 'w, unit) client" where
  "runProgram C t i stateAccount =
     sendAndConfirmTransaction C [Instr \<lparr>keys = [meta stateAccount True True], programId = i, data = alloc 0\<rparr>]
       [t_payerAccount t, stateAccount]"

definition makeAccount ::
  "('k, 'w) harness \<Rightarrow> ('k, 'w) connection \<Rightarrow> 'k Tester \<Rightarrow> 'k \<Rightarrow> number \<Rightarrow> nat \<Rightarrow> ('k, 'w, 'k) client" where
  "makeAccount H C t own l space =
     bindIO (onWorld (newAccount H)) (\<lambda>account.
     bindIO (sendAndConfirmTransaction C [SystemCreateAccount (t_payerAccount t) account l space own]
       [t_payerAccount t, account]) (\<lambda>_.
     bindIO (onWorld (rpc_getBalance H account)) (\<lambda>_.
     returnIO account)))"

definition testStakePool :: "'k keylib \<Rightarrow> ('k, 'w) connection \<Rightarrow> 'k TenderizeProgram \<Rightarrow> ('k, 'w, unit) client" where
  "testStakePool K C P = createStakePool K C P \<lparr>csp_feeDenominator = 100, csp_feeNumerator = 3\<rparr>"

definition getValidators :: "('k, 'w) connection \<Rightarrow> ('k, 'w, 'k list) client" where
  "getValidators C = getVoteAccounts C"

fun buildLoop ::
  "('k, 'w) harness \<Rightarrow> string list \<Rightarrow> string option \<Rightarrow> 'k option \<Rightarrow> ('k, 'w, string option \<times> 'k option) client" where
  "buildLoop H [] u pay = returnIO (u, pay)"
| "buildLoop H (line # ls) u pay =
     (let line = trimRight line;
          u = (case matchAfter True ''RPC URL: '' line of Some v \<Rightarrow> Some v | None \<Rightarrow> u)
      in case matchAfter False ''Keypair Path: '' line of
           Some p \<Rightarrow> bindIO (onWorld (readKeyFile H p)) (\<lambda>k. buildLoop H ls u (Some k))
         | None \<Rightarrow> buildLoop H ls u pay)"

definition build :: "('k, 'w) harness \<Rightarrow> ('k, 'w, 'k Tester) client" where
  "build H =
     bindIO (\<lambda>s. case shellOut H ''solana config get'' (world s) of (out, w) \<Rightarrow> (Inr out, s\<lparr>world := w\<rparr>)) (\<lambda>out.
     bindIO (buildLoop H (splitLines out) None None) (\<lambda>(u, pay).
     bindIO (liftE (assertOk u ''Can't parse solana config RPC URL'')) (\<lambda>u.
     case pay of
       None \<Rightarrow> throwIO (AssertionError ''Can't parse solana config account'')
     | Some pay \<Rightarrow>
         bindIO (onWorld (rpc_getVersion H)) (\<lambda>_.
         bindIO (onWorld (rpc_getBalance H pay)) (\<lambda>_.
         bindIO (loadAccount H ''user_tokens'') (\<lambda>tok.
         returnIO \<lparr>t_url = u, t_payerAccount = pay, t_userTokenAccount = tok\<rparr>))))))"

section \<open>The scenario\<close>

definition ensurePool :: "'k keylib \<Rightarrow> ('k, 'w) connection \<Rightarrow> 'k TenderizeProgram \<Rightarrow> ('k, 'w, unit) client" where
  "ensurePool K C P =
     bindIO (readState K C P False) (\<lambda>state.
     if state = None \<or> version (the state) = 0 then
       bindIO (testStakePool K C P) (\<lambda>_.
       bindIO (readState K C P False) (\<lambda>_. returnIO ()))
     else returnIO ())"

definition SCENARIO_RESERVE :: number where
  "SCENARIO_RESERVE = 100000000000"

definition ensureReserve :: "'k keylib \<Rightarrow> ('k, 'w) connection \<Rightarrow> 'k TenderizeProgram \<Rightarrow> 'k Tester \<Rightarrow> ('k, 'w, unit) client" where
  "ensureReserve K C P t =
     bindIO (reserveInfo K C P) (\<lambda>reserve.
     if reserve = None \<or> lamports (the reserve) < SCENARIO_RESERVE then
       bindIO (deposit K C P \<lparr>userSource = t_payerAccount t, dep_amount = SCENARIO_RESERVE, userToken = t_userTokenAccount t\<rparr>) (\<lambda>_.
       bindIO (readState K C P False) (\<lambda>_. returnIO ()))
     else returnIO ())"

definition ensureValidators :: "'k keylib \<Rightarrow> ('k, 'w) connection \<Rightarrow> 'k TenderizeProgram \<Rightarrow> 'k list \<Rightarrow> ('k, 'w, unit) client" where
  "ensureValidators K C P votes =
     bindIO (readValidators K C P) (\<lambda>vs.
     if length vs = 0 then
       bindIO (updatePool K C P) (\<lambda>_.
       bindIO (readState K C P False) (\<lambda>_.
       forIO (addValidator K C P) votes))
     else returnIO ())"

definition setUp :: "'k keylib \<Rightarrow> ('k, 'w) connection \<Rightarrow> 'k TenderizeProgram \<Rightarrow> 'k Tester \<Rightarrow> 'k list \<Rightarrow> ('k, 'w, unit) client" where
  "setUp K C P t votes =
     bindIO (ensurePool K C P) (\<lambda>_.
     bindIO (ensureReserve K C P t) (\<lambda>_.
     ensureValidators K C P votes))"

definition approveTokens :: "('k, 'w) harness \<Rightarrow> 'k keylib \<Rightarrow> 'k TenderizeProgram \<Rightarrow> 'k Tester \<Rightarrow> ('k, 'w, unit) client" where
  "approveTokens H K P t =
     bindIO (liftE (getWithdrawAuthority K P)) (\<lambda>w.
     execShell (\<lambda>c. snd \<circ> shellOut H c)
       (''spl-token approve '' @ toBase58 K (t_userTokenAccount t) @ '' 1 '' @ toBase58 K w))"

definition creditAndCancel ::
  "('k, 'w) harness \<Rightarrow> 'k keylib \<Rightarrow> ('k, 'w) connection \<Rightarrow> 'k TenderizeProgram \<Rightarrow> 'k Tester \<Rightarrow> ('k, 'w, unit) client" where
  "creditAndCancel H K C P t =
     bindIO (approveTokens H K P t) (\<lambda>_.
     bindIO (onWorld (newAccount H)) (\<lambda>cancel.
     bindIO (credit K C P \<lparr>cr_userTokenSource = t_userTokenAccount t, cr_amount = 10000000,
       cr_userSolTarget = t_payerAccount t, cancelAuthority = AsPublicKey cancel\<rparr>) (\<lambda>_.
     bindIO (credit K C P \<lparr>cr_userTokenSource = t_userTokenAccount t, cr_amount = - 2000000,
       cr_userSolTarget = t_payerAccount t, cancelAuthority = AsAccount cancel\<rparr>) (\<lambda>_.
     bindIO (readState K C P False) (\<lambda>_. returnIO ())))))"

definition readAfter :: "'k keylib \<Rightarrow> ('k, 'w) connection \<Rightarrow> 'k TenderizeProgram \<Rightarrow> ('k, 'w, unit) client \<Rightarrow> ('k, 'w, unit) client" where
  "readAfter K C P m = bindIO m (\<lambda>_. bindIO (readState K C P False) (\<lambda>_. returnIO ()))"

definition upkeep ::
  "'k chunkers \<Rightarrow> 'k keylib \<Rightarrow> ('k, 'w) connection \<Rightarrow> 'k TenderizeProgram \<Rightarrow> ('k, 'w, unit) client" where
  "upkeep ch K C P =
     bindIO (readAfter K C P (updatePool K C P)) (\<lambda>_.
     bindIO (payCreditors K C P 0) (\<lambda>_.
     bindIO (readAfter K C P (delegateReserveBatch (chunkD ch) K C P 10000000000)) (\<lambda>_.
     bindIO (mergeAllStakes (chunkM ch) K C P) (\<lambda>_.
     bindIO (readAfter K C P (updatePool K C P)) (\<lambda>_.
     readAfter K C P (unstakeAll (chunkU ch) K C P))))))"

definition main :: "('k, 'w) harness \<Rightarrow> 'k chunkers \<Rightarrow> 'k keylib \<Rightarrow> ('k, 'w, unit) client" where
  "main H ch K =
     bindIO (build H) (\<lambda>t.
     let C = connect_to H (t_url t) in
     bindIO (initTenderize H t) (\<lambda>P.
     bindIO (getValidators C) (\<lambda>votes.
     bindIO (setUp K C P t votes) (\<lambda>_.
     bindIO (creditAndCancel H K C P t) (\<lambda>_.
     upkeep ch K C P)))))"

section \<open>The tester and the command line\<close>

text \<open>
  Both scripts read the same configuration: with key files that can be read, the tester takes the
  address of the cluster that the command line takes, and the key of the file the command line takes.
\<close>

lemma buildLoop_agrees:
  assumes "\<And>p w. readKeyFile H p w = (Inr (f p), w)"
  shows "buildLoop H ls u (map_option f p) s = (case configLoop ls u p of (u', p') \<Rightarrow> (Inr (u', map_option f p'), s))"
proof (induction ls arbitrary: u p)
  case (Cons line ls)
  have read: "onWorld (readKeyFile H q) s = (Inr (f q), s)" for q
    using assms by (simp add: onWorld_def)
  show ?case
  proof (cases "matchAfter False ''Keypair Path: '' (trimRight line)")
    case None
    then show ?thesis
      using Cons.IH by (simp add: Let_def)
  next
    case (Some q)
    then show ?thesis
      using Cons.IH [where p = "Some q"] by (simp add: Let_def bindIO_eval read)
  qed
qed simp

section \<open>What the scenario sends\<close>

text \<open>The reads of the scenario are answered, with counts in their range, whatever was sent before.\<close>

definition answered :: "'k keylib \<Rightarrow> ('k, 'w) connection \<Rightarrow> 'k TenderizeProgram \<Rightarrow> bool" where
  "answered K C P \<longleftrightarrow>
     (\<forall>s. (\<exists>st s'. readState K C P False s = (Inr st, s')) \<and> (\<exists>res s'. reserveInfo K C P s = (Inr res, s')) \<and>
        (\<exists>vs s'. readValidators K C P s = (Inr vs, s') \<and> list_all (\<lambda>v. stakeCount v < 2 ^ 32) vs))"

lemma answered_state:
  assumes "answered K C P"
  obtains st s' where "readState K C P False s = (Inr st, s')" "sent s' = sent s"
proof -
  obtain st s' where "readState K C P False s = (Inr st, s')"
    using assms unfolding answered_def by blast
  then show thesis
    using that quietD [OF quiet_readers(1)] by blast
qed

definition created :: "'k TenderizeProgram \<Rightarrow> 'k sent_tx list \<Rightarrow> bool" where
  "created P ts \<longleftrightarrow> (\<exists>a b c ix. ts = [creation_tx P a b c ix] \<and> deserialize_instruction (data ix) = Inr (Initialize 100 3))"

lemma ensurePool_sends:
  assumes "rents C" "accepts C" "answered K C P"
  obtains st s1 s' ts where "ensurePool K C P s = (Inr (), s')" "sent s' = sent s @ ts" "readState K C P False s = (Inr st, s1)"
    "if st = None \<or> version (the st) = 0 then created P ts else ts = []"
proof -
  obtain st s1 where st: "readState K C P False s = (Inr st, s1)" "sent s1 = sent s"
    using answered_state [OF assms(3)] .
  obtain ix where ix: "createStakePoolInstruction K P \<lparr>csp_feeDenominator = 100, csp_feeNumerator = 3\<rparr> = Inr ix"
      "data ix = 0 # le_bytes 8 100 @ le_bytes 8 3"
    using createStakePoolInstruction_ok [of 100 3 K P] by auto
  obtain s2 a b c where s2: "testStakePool K C P s1 = (Inr (), s2)" "sent s2 = sent s1 @ [creation_tx P a b c ix]"
    using createStakePool_sends [OF assms(1,2) ix(1), of s1] unfolding testStakePool_def by blast
  have "deserialize_instruction (data ix) = Inr (Initialize 100 3)"
    unfolding ix(2) by (rule decode_initialize) simp_all
  then have "created P [creation_tx P a b c ix]"
    unfolding created_def by blast
  moreover obtain st2 s3 where "readState K C P False s2 = (Inr st2, s3)" "sent s3 = sent s2"
    using answered_state [OF assms(3)] .
  ultimately show thesis
    using that st s2 by (cases "st = None \<or> version (the st) = 0") (auto simp: ensurePool_def bindIO_eval)
qed

definition reserve_filled :: "'k TenderizeProgram \<Rightarrow> 'k sent_tx list \<Rightarrow> bool" where
  "reserve_filled P ts \<longleftrightarrow>
     (\<exists>ix. ts = [tx_of ix [payerAccount P]] \<and> deserialize_instruction (data ix) = Inr (Deposit 100000000000))"

lemma ensureReserve_sends:
  assumes "derivable K" "accepts C" "answered K C P" "t_payerAccount t = payerAccount P"
  obtains res s1 s' ts where "ensureReserve K C P t s = (Inr (), s')" "sent s' = sent s @ ts" "reserveInfo K C P s = (Inr res, s1)"
    "if res = None \<or> lamports (the res) < SCENARIO_RESERVE then reserve_filled P ts else ts = []"
proof -
  obtain res s1 where res: "reserveInfo K C P s = (Inr res, s1)"
    using assms(3) unfolding answered_def by blast
  then have sent1: "sent s1 = sent s"
    using quietD [OF quiet_cli(3)] by blast
  obtain ix w where ix: "deserialize_instruction (data ix) = Inr (Deposit 100000000000)"
      "deposit K C P \<lparr>userSource = payerAccount P, dep_amount = SCENARIO_RESERVE, userToken = t_userTokenAccount t\<rparr> s1 =
        (Inr (), s1\<lparr>world := w, sent := sent s1 @ [tx_of ix [payerAccount P]]\<rparr>)"
    using deposit_accepted [OF assms(1,2), of 100000000000 P "t_userTokenAccount t" s1] by (auto simp: SCENARIO_RESERVE_def)
  obtain st s3 where "readState K C P False (s1\<lparr>world := w, sent := sent s1 @ [tx_of ix [payerAccount P]]\<rparr>) = (Inr st, s3)"
      "sent s3 = sent s1 @ [tx_of ix [payerAccount P]]"
    by (rule answered_state [OF assms(3), of "s1\<lparr>world := w, sent := sent s1 @ [tx_of ix [payerAccount P]]\<rparr>"]) simp
  moreover have "reserve_filled P [tx_of ix [payerAccount P]]"
    using ix(1) by (auto simp: reserve_filled_def)
  ultimately show thesis
    using that res sent1 ix(2) assms(4)
    by (cases "res = None \<or> lamports (the res) < SCENARIO_RESERVE") (auto simp: ensureReserve_def bindIO_eval)
qed

text \<open>The updates of a pool without validators, then one validator after the other.\<close>

definition votes_added :: "'k keylib \<Rightarrow> 'k TenderizeProgram \<Rightarrow> 'k list \<Rightarrow> 'k sent_tx list \<Rightarrow> bool" where
  "votes_added K P votes ts \<longleftrightarrow>
     (\<exists>upd adds ix. ts = upd @ tx_of ix [payerAccount P] # adds \<and> deserialize_instruction (data ix) = Inr UpdatePoolBalance \<and>
        list_all2 (names_validator AddValidator) votes adds)"

lemma ensureValidators_sends:
  assumes "derivable K" "accepts C" "answered K C P"
  obtains vs s1 s' ts where "ensureValidators K C P votes s = (Inr (), s')" "sent s' = sent s @ ts"
    "readValidators K C P s = (Inr vs, s1)" "if vs = [] then votes_added K P votes ts else ts = []"
proof -
  obtain vs s1 where vs: "readValidators K C P s = (Inr vs, s1)"
    using assms(3) unfolding answered_def by blast
  then have sent1: "sent s1 = sent s"
    using quietD [OF quiet_readers(2)] by blast
  obtain us s2 where "readValidators K C P s1 = (Inr us, s2)" "list_all (\<lambda>v. stakeCount v < 2 ^ 32) us"
    using assms(3) unfolding answered_def by blast
  from updatePool_sends [OF assms(1,2) this] obtain upd s3 where s3: "updatePool K C P s1 = (Inr (), s3)"
      "sent s3 = sent s1 @ upd @ [tx_of (projr (updatePoolBalanceInstruction K P)) [payerAccount P]]"
    by blast
  obtain st s4 where s4: "readState K C P False s3 = (Inr st, s4)" "sent s4 = sent s3"
    using answered_state [OF assms(3)] .
  obtain s5 where s5: "forIO (addValidator K C P) votes s4 = (Inr (), s5)"
      "sent s5 = sent s4 @ map (\<lambda>v. tx_of (projr (addValidatorInstruction K P v)) [payerAccount P, owner P]) votes"
    using add_sender.forIO_succeeds [OF assms(2), of votes K P s4] by (auto simp: list_all_iff)
  let ?adds = "map (\<lambda>v. tx_of (projr (addValidatorInstruction K P v)) [payerAccount P, owner P]) votes"
  have "list_all2 (names_validator AddValidator) votes ?adds"
    by (simp add: list_all2_map2 list_all2_same names_added)
  moreover have "deserialize_instruction (data (projr (updatePoolBalanceInstruction K P))) = Inr UpdatePoolBalance"
    using updatePoolBalanceInstruction_ok [OF assms(1), of P] by (auto simp: deserialize_instruction_def)
  ultimately have "votes_added K P votes (upd @ tx_of (projr (updatePoolBalanceInstruction K P)) [payerAccount P] # ?adds)"
    unfolding votes_added_def by blast
  then show thesis
    using that vs sent1 s3 s4 s5 by (cases "vs = []") (auto simp: ensureValidators_def bindIO_eval)
qed

section \<open>Properties\<close>


text \<open>A cluster without a pool: it has an empty account for the list of validators and no other.\<close>

definition fresh_connection :: "(key, sample_world) connection" where
  "fresh_connection = sample_connection
     \<lparr>rpc_getAccountInfo := (\<lambda>k w. (Inr (if k = 14 then Some (sample_account (alloc 3)) else None), w))\<rparr>"

lemma fresh_account:
  "getAccountInfo fresh_connection k s = (Inr (if k = 14 then Some (sample_account (alloc 3)) else None), s)"
  by (simp add: fresh_connection_def getAccountInfo_def onWorld_def)

lemma fresh_reads:
  "readState sample_keys fresh_connection sample_program False s = (Inr None, s)"
  "readValidators sample_keys fresh_connection sample_program s = (Inr [], s)"
  by (simp_all add: readState_def readValidators_def bindIO_eval fresh_account sample_program_def sample_account_def
    parseValidators_def readUInt16LE_def read_le_def alloc_def slice_def eval_nat_numeral)

lemma fresh_reserve: "\<exists>r. reserveInfo sample_keys fresh_connection sample_program s = (Inr r, s)"
  by (simp add: reserveInfo_def getReserveAddress_def bindIO_eval fresh_account)

lemma fresh_cluster:
  "rents fresh_connection" "accepts fresh_connection" "answered sample_keys fresh_connection sample_program"
proof -
  show "rents fresh_connection" "accepts fresh_connection"
    by (simp_all add: rents_def accepts_def fresh_connection_def sample_connection_def)
  show "answered sample_keys fresh_connection sample_program"
    using fresh_reserve by (simp add: answered_def fresh_reads) metis
qed



definition sample_harness :: "(key, sample_world) harness" where
  "sample_harness =
     \<lparr>readKeyFile = (\<lambda>p w. (Inr (of_nat (length p)), w)), writeKeyFile = (\<lambda>p k w. (Inr (), w)), newAccount = (\<lambda>w. (Inr 99, w)),
      shellOut = (\<lambda>c w. ([], w)), rpc_getVersion = (\<lambda>w. (Inr (), w)), rpc_getBalance = (\<lambda>k w. (Inr 0, w)),
      connect_to = (\<lambda>u. fresh_connection)\<rparr>"


end
