(* ===== verification/UI_Layout.thy ===== *)
theory UI_Layout
  imports Onchain_Layout
begin

text \<open>
  \<open>src/utils/layout.ts\<close>: the web client's field layouts for keys and 64- and 128-bit numbers, built on
  the packages buffer-layout and bn.js. Both packages are an argument, \<open>uilib\<close>; \<open>wf_ui\<close> states the
  documented behaviour the code relies on. The locale \<open>layout_field\<close> is the contract of one field.
\<close>

section \<open>The packages\<close>

datatype 'k fval = VNum nat | VBlob buffer | VKey 'k | VBN int

record 'k layout =
  span :: nat
  decode :: "buffer \<Rightarrow> nat \<Rightarrow> 'k fval res"
  encode :: "'k fval \<Rightarrow> buffer \<Rightarrow> nat \<Rightarrow> (buffer \<times> nat) res"

record 'k struct_layout =
  struct_span :: nat
  struct_decode :: "buffer \<Rightarrow> (string \<times> 'k fval) list res"
  struct_encode :: "(string \<times> 'k fval) list \<Rightarrow> buffer \<Rightarrow> buffer res"

record 'k uilib =
  u8 :: "'k layout"
  blob :: "nat \<Rightarrow> 'k layout"
  struct :: "(string \<times> 'k layout) list \<Rightarrow> 'k struct_layout"
  BN_parse16 :: "string \<Rightarrow> int"
  BN_toArray :: "int \<Rightarrow> byte list"
  BN_new :: "number \<Rightarrow> int res"

section \<open>Hexadecimal strings\<close>

definition hexDigits :: string where
  "hexDigits = ''0123456789abcdef''"

fun toString16 :: "nat \<Rightarrow> string" where
  "toString16 n = (if n < 16 then [hexDigits ! n] else toString16 (n div 16) @ [hexDigits ! (n mod 16)])"

declare toString16.simps [simp del]

text \<open>\<open>`00${i.toString(16)}`.slice(-2)\<close>\<close>

definition hex2 :: "byte \<Rightarrow> string" where
  "hex2 b = (let s = ''00'' @ toString16 (unat b) in drop (length s - 2) s)"

definition hexValue :: "string \<Rightarrow> nat" where
  "hexValue s = foldl (\<lambda>a c. 16 * a + length (takeWhile (\<lambda>d. d \<noteq> c) hexDigits)) 0 s"

section \<open>The layouts\<close>

definition publicKey :: "'k keylib \<Rightarrow> 'k uilib \<Rightarrow> 'k layout" where
  "publicKey K L =
     (let publicKeyLayout = blob L 32 in
      publicKeyLayout
        \<lparr>decode := (\<lambda>buf off.
           bindE (decode publicKeyLayout buf off) (\<lambda>v.
           case v of VBlob d \<Rightarrow> bindE (newPublicKey K d) (\<lambda>k. Inr (VKey k)) | _ \<Rightarrow> Inl TypeError)),
         encode := (\<lambda>v buf off.
           case v of VKey k \<Rightarrow> encode publicKeyLayout (VBlob (toBuffer K k)) buf off | _ \<Rightarrow> Inl TypeError)\<rparr>)"

text \<open>\<open>uint64\<close> and \<open>uint128\<close> are the same code for 8 and 16 bytes.\<close>

definition uintLayout :: "'k uilib \<Rightarrow> nat \<Rightarrow> 'k layout" where
  "uintLayout L n =
     (let lay = blob L n in
      lay
        \<lparr>decode := (\<lambda>buf off.
           bindE (decode lay buf off) (\<lambda>v.
           case v of VBlob d \<Rightarrow> Inr (VBN (BN_parse16 L (concat (map hex2 (rev d))))) | _ \<Rightarrow> Inl TypeError)),
         encode := (\<lambda>v buf off.
           case v of
             VBN num \<Rightarrow>
               (let a = rev (BN_toArray L num);
                    b = (if length a \<noteq> n then fst (copy_to a (alloc n) 0) else a)
                in encode lay (VBlob b) buf off)
           | _ \<Rightarrow> Inl TypeError)\<rparr>)"

definition uint64 :: "'k uilib \<Rightarrow> 'k layout" where
  "uint64 L = uintLayout L 8"

definition uint128 :: "'k uilib \<Rightarrow> 'k layout" where
  "uint128 L = uintLayout L 16"

section \<open>What the packages do\<close>

fun decode_fields :: "(string \<times> 'k layout) list \<Rightarrow> buffer \<Rightarrow> nat \<Rightarrow> (string \<times> 'k fval) list res" where
  "decode_fields [] buf off = Inr []"
| "decode_fields ((p, l) # fs) buf off =
     bindE (decode l buf off) (\<lambda>v. bindE (decode_fields fs buf (off + span l)) (\<lambda>vs. Inr ((p, v) # vs)))"

fun encode_fields :: "(string \<times> 'k layout) list \<Rightarrow> (string \<times> 'k fval) list \<Rightarrow> buffer \<Rightarrow> nat \<Rightarrow> buffer res" where
  "encode_fields [] vs buf off = Inr buf"
| "encode_fields ((p, l) # fs) vs buf off =
     (case map_of vs p of
        None \<Rightarrow> encode_fields fs vs buf (off + span l)
      | Some v \<Rightarrow> bindE (encode l v buf off) (\<lambda>(buf, n). encode_fields fs vs buf (off + span l)))"

definition wf_u8 :: "'k layout \<Rightarrow> bool" where
  "wf_u8 l \<longleftrightarrow>
     span l = 1 \<and>
     (\<forall>n buf off. n < 256 \<longrightarrow> off < length buf \<longrightarrow> encode l (VNum n) buf off = Inr (overwrite buf off [of_nat n], 1)) \<and>
     (\<forall>buf off. off < length buf \<longrightarrow> decode l buf off = Inr (VNum (unat (buf ! off))))"

definition wf_blob :: "nat \<Rightarrow> 'k layout \<Rightarrow> bool" where
  "wf_blob n l \<longleftrightarrow>
     span l = n \<and>
     (\<forall>b buf off. length b = n \<longrightarrow> off + n \<le> length buf \<longrightarrow> encode l (VBlob b) buf off = Inr (overwrite buf off b, n)) \<and>
     (\<forall>buf off. off + n \<le> length buf \<longrightarrow> decode l buf off = Inr (VBlob (slice buf off (off + n))))"

definition wf_struct :: "(string \<times> 'k layout) list \<Rightarrow> 'k struct_layout \<Rightarrow> bool" where
  "wf_struct fs l \<longleftrightarrow>
     struct_span l = sum_list (map (\<lambda>(p, f). span f) fs) \<and>
     (\<forall>buf. struct_decode l buf = decode_fields fs buf 0) \<and>
     (\<forall>vs buf. struct_encode l vs buf = encode_fields fs vs buf 0)"

definition wf_BN :: "'k uilib \<Rightarrow> bool" where
  "wf_BN L \<longleftrightarrow>
     (\<forall>s. s \<noteq> [] \<longrightarrow> set s \<subseteq> set hexDigits \<longrightarrow> BN_parse16 L s = int (hexValue s)) \<and>
     (\<forall>a n. 0 \<le> a \<longrightarrow> a < 256 ^ n \<longrightarrow> 0 < n \<longrightarrow> length (BN_toArray L a) \<le> n) \<and>
     (\<forall>a. 0 \<le> a \<longrightarrow> le_val (rev (BN_toArray L a)) = nat a) \<and>
     (\<forall>a. \<bar>a\<bar> < MAX_SAFE \<longrightarrow> BN_new L (of_int a) = Inr a)"

definition wf_ui :: "'k uilib \<Rightarrow> bool" where
  "wf_ui L \<longleftrightarrow> wf_u8 (u8 L) \<and> (\<forall>n. wf_blob n (blob L n)) \<and> (\<forall>fs. wf_struct fs (struct L fs)) \<and> wf_BN L"

lemma wf_ui_blob:
  assumes "wf_ui L"
  shows "span (blob L n) = n"
    "length b = n \<Longrightarrow> off + n \<le> length buf \<Longrightarrow> encode (blob L n) (VBlob b) buf off = Inr (overwrite buf off b, n)"
    "off + n \<le> length buf \<Longrightarrow> decode (blob L n) buf off = Inr (VBlob (slice buf off (off + n)))"
proof -
  have "wf_blob n (blob L n)"
    using assms by (simp add: wf_ui_def)
  then show "span (blob L n) = n"
    "length b = n \<Longrightarrow> off + n \<le> length buf \<Longrightarrow> encode (blob L n) (VBlob b) buf off = Inr (overwrite buf off b, n)"
    "off + n \<le> length buf \<Longrightarrow> decode (blob L n) buf off = Inr (VBlob (slice buf off (off + n)))"
    by (simp_all add: wf_blob_def)
qed

lemma wf_ui_u8:
  assumes "wf_ui L"
  shows "span (u8 L) = 1"
    "n < 256 \<Longrightarrow> off < length buf \<Longrightarrow> encode (u8 L) (VNum n) buf off = Inr (overwrite buf off [of_nat n], 1)"
    "off < length buf \<Longrightarrow> decode (u8 L) buf off = Inr (VNum (unat (buf ! off)))"
  using assms by (simp_all add: wf_ui_def wf_u8_def)

lemma wf_ui_struct:
  assumes "wf_ui L"
  shows "struct_span (struct L fs) = sum_list (map (\<lambda>(p, l). span l) fs)"
    "struct_decode (struct L fs) buf = decode_fields fs buf 0"
    "struct_encode (struct L fs) vs buf = encode_fields fs vs buf 0"
  using assms by (simp_all add: wf_ui_def wf_struct_def)

lemma wf_ui_BN:
  assumes "wf_ui L"
  shows "s \<noteq> [] \<Longrightarrow> set s \<subseteq> set hexDigits \<Longrightarrow> BN_parse16 L s = int (hexValue s)"
    "0 \<le> a \<Longrightarrow> a < 256 ^ n \<Longrightarrow> 0 < n \<Longrightarrow> length (BN_toArray L a) \<le> n"
    "0 \<le> a \<Longrightarrow> le_val (rev (BN_toArray L a)) = nat a"
    "\<bar>a\<bar> < MAX_SAFE \<Longrightarrow> BN_new L (of_int a) = Inr a"
  using assms by (simp_all add: wf_ui_def wf_BN_def)

section \<open>Numbers in hexadecimal\<close>

lemma hexDigits_less: "n < 16 \<Longrightarrow> n \<in> {0, 1, 2, 3, 4, 5, 6, 7, 8, 9, 10, 11, 12, 13, 14, 15 :: nat}"
  by (simp add: eval_nat_numeral less_Suc_eq)

lemma hexDigits_index:
  assumes "n < 16"
  shows "length (takeWhile (\<lambda>d. d \<noteq> hexDigits ! n) hexDigits) = n" "hexDigits ! n \<in> set hexDigits"
  using hexDigits_less [OF assms] by (elim insertE emptyE; simp add: hexDigits_def)+

lemma hex2_digits: "hex2 b = [hexDigits ! (unat b div 16), hexDigits ! (unat b mod 16)]"
proof -
  have "unat b < 256"
    using unsigned_less [of b, where 'a = nat] by simp
  then have "unat b div 16 < 16"
    by simp
  show ?thesis
  proof (cases "unat b < 16")
    case True
    then show ?thesis
      by (simp add: hex2_def hexDigits_def toString16.simps [of "unat b"])
  next
    case False
    then have "toString16 (unat b) = [hexDigits ! (unat b div 16), hexDigits ! (unat b mod 16)]"
      using \<open>unat b div 16 < 16\<close> by (simp add: toString16.simps [of "unat b"] toString16.simps [of "unat b div 16"])
    then show ?thesis
      by (simp add: hex2_def Let_def)
  qed
qed

lemma hexValue_append: "hexValue (s @ hex2 b) = 256 * hexValue s + unat b"
proof -
  have "unat b < 256"
    using unsigned_less [of b, where 'a = nat] by simp
  then have "unat b div 16 < 16" "unat b mod 16 < 16"
    by simp_all
  then show ?thesis
    by (simp add: hex2_digits hexValue_def hexDigits_index)
qed

lemma hexValue_bytes: "hexValue (concat (map hex2 (rev d))) = le_val d"
  by (induction d) (simp_all add: hexValue_append, simp add: hexValue_def)

lemma hex2_set: "set (hex2 b) \<subseteq> set hexDigits"
proof -
  have "unat b < 256"
    using unsigned_less [of b, where 'a = nat] by simp
  then show ?thesis
    by (simp add: hex2_digits hexDigits_index)
qed

section \<open>The contract of a field\<close>

locale layout_field =
  fixes good :: bool and lay :: "'k layout" and sz :: nat and ok :: "'v \<Rightarrow> bool" and inj_val :: "'v \<Rightarrow> 'k fval"
    and bytes :: "'v \<Rightarrow> buffer"
  assumes span_lay: "good \<Longrightarrow> span lay = sz"
    and length_bytes: "good \<Longrightarrow> ok v \<Longrightarrow> length (bytes v) = sz"
    and encode_lay: "good \<Longrightarrow> ok v \<Longrightarrow> off + sz \<le> length buf \<Longrightarrow>
      encode lay (inj_val v) buf off = Inr (overwrite buf off (bytes v), sz)"
    and decode_lay: "good \<Longrightarrow> ok v \<Longrightarrow> off + sz \<le> length buf \<Longrightarrow> slice buf off (off + sz) = bytes v \<Longrightarrow>
      decode lay buf off = Inr (inj_val v)"
begin

lemma decode_encode:
  assumes good "ok v" "off + sz \<le> length buf"
  shows "\<exists>buf'. encode lay (inj_val v) buf off = Inr (buf', sz) \<and> length buf' = length buf \<and>
    decode lay buf' off = Inr (inj_val v)"
proof -
  have "slice (overwrite buf off (bytes v)) off (off + sz) = bytes v"
    using slice_overwrite [of off "bytes v" buf] assms by (simp add: length_bytes)
  then show ?thesis
    using assms by (simp add: encode_lay decode_lay length_bytes)
qed

end

lemma uint_bytes:
  assumes "wf_ui L" "0 < n" "0 \<le> a" "a < 256 ^ n"
  shows "(let x = rev (BN_toArray L a) in if length x \<noteq> n then fst (copy_to x (alloc n) 0) else x) = le_bytes n (nat a)"
proof -
  let ?x = "rev (BN_toArray L a)"
  have x: "length ?x \<le> n" "le_val ?x = nat a"
    using wf_ui_BN(2) [OF assms(1,3,4,2)] wf_ui_BN(3) [OF assms(1,3)] by simp_all
  have "fst (copy_to ?x (alloc n) 0) = ?x @ alloc (n - length ?x)"
    using copy_to_tail [of ?x n 0 "[]"] x(1) by simp
  moreover have "le_val (?x @ alloc m) = nat a" for m
    using x(2) by (simp add: le_val_append alloc_def)
  moreover have "le_bytes (length (?x @ alloc (n - length ?x))) (le_val (?x @ alloc (n - length ?x))) = ?x @ alloc (n - length ?x)"
    by (rule le_bytes_le_val)
  ultimately show ?thesis
    using x le_bytes_le_val [of ?x] by (auto simp: Let_def)
qed

lemma uint_decode:
  assumes "wf_ui L" "0 < n" "0 \<le> a" "a < 256 ^ n" "off + n \<le> length buf" "slice buf off (off + n) = le_bytes n (nat a)"
  shows "decode (uintLayout L n) buf off = Inr (VBN a)"
proof -
  let ?s = "concat (map hex2 (rev (le_bytes n (nat a))))"
  have "le_bytes n (nat a) \<noteq> []"
    using assms(2) by (simp flip: length_greater_0_conv)
  then have "?s \<noteq> []"
    by (cases "le_bytes n (nat a)" rule: rev_cases) (auto simp: hex2_digits)
  moreover have "set ?s \<subseteq> set hexDigits"
    using hex2_set by fastforce
  ultimately have "BN_parse16 L ?s = int (le_val (le_bytes n (nat a)))"
    using wf_ui_BN(1) [OF assms(1)] by (simp add: hexValue_bytes)
  moreover have "nat a < 256 ^ n"
    using assms(3,4) by (simp add: nat_less_iff)
  ultimately show ?thesis
    using assms by (simp add: uintLayout_def Let_def wf_ui_blob le_val_le_bytes)
qed

interpretation uint64_field: layout_field "wf_ui L" "uint64 L" 8 "\<lambda>a. 0 \<le> a \<and> a < 256 ^ 8" VBN "\<lambda>a. le_bytes 8 (nat a)" for L
proof unfold_locales
  show "wf_ui L \<Longrightarrow> span (uint64 L) = 8"
    by (simp add: uint64_def uintLayout_def Let_def wf_ui_blob)
  show "encode (uint64 L) (VBN a) buf off = Inr (overwrite buf off (le_bytes 8 (nat a)), 8)"
    if "wf_ui L" "0 \<le> a \<and> a < 256 ^ 8" "off + 8 \<le> length buf" for a off buf
    using that uint_bytes [of L 8 a] by (simp add: uint64_def uintLayout_def Let_def wf_ui_blob)
  show "decode (uint64 L) buf off = Inr (VBN a)"
    if "wf_ui L" "0 \<le> a \<and> a < 256 ^ 8" "off + 8 \<le> length buf" "slice buf off (off + 8) = le_bytes 8 (nat a)" for a off buf
    using that uint_decode [of L 8 a off buf] by (simp add: uint64_def)
qed simp

interpretation uint128_field: layout_field "wf_ui L" "uint128 L" 16 "\<lambda>a. 0 \<le> a \<and> a < 256 ^ 16" VBN "\<lambda>a. le_bytes 16 (nat a)" for L
proof unfold_locales
  show "wf_ui L \<Longrightarrow> span (uint128 L) = 16"
    by (simp add: uint128_def uintLayout_def Let_def wf_ui_blob)
  show "encode (uint128 L) (VBN a) buf off = Inr (overwrite buf off (le_bytes 16 (nat a)), 16)"
    if "wf_ui L" "0 \<le> a \<and> a < 256 ^ 16" "off + 16 \<le> length buf" for a off buf
    using that uint_bytes [of L 16 a] by (simp add: uint128_def uintLayout_def Let_def wf_ui_blob)
  show "decode (uint128 L) buf off = Inr (VBN a)"
    if "wf_ui L" "0 \<le> a \<and> a < 256 ^ 16" "off + 16 \<le> length buf" "slice buf off (off + 16) = le_bytes 16 (nat a)" for a off buf
    using that uint_decode [of L 16 a off buf] by (simp add: uint128_def)
qed simp

interpretation key_field: layout_field "wf_ui L \<and> wf_keys K" "publicKey K L" 32 "\<lambda>k. True" VKey "toBuffer K" for K L
proof unfold_locales
  show "wf_ui L \<and> wf_keys K \<Longrightarrow> span (publicKey K L) = 32"
    by (simp add: publicKey_def Let_def wf_ui_blob)
  show "length (toBuffer K k) = 32" if "wf_ui L \<and> wf_keys K" for k
    using that by (simp add: wf_keys_def)
  show "encode (publicKey K L) (VKey k) buf off = Inr (overwrite buf off (toBuffer K k), 32)"
    if "wf_ui L \<and> wf_keys K" "off + 32 \<le> length buf" for k off buf
  proof -
    have "length (toBuffer K k) = 32"
      using that(1) by (simp add: wf_keys_def)
    then show ?thesis
      using that by (simp add: publicKey_def Let_def wf_ui_blob)
  qed
  show "decode (publicKey K L) buf off = Inr (VKey k)"
    if "wf_ui L \<and> wf_keys K" "off + 32 \<le> length buf" "slice buf off (off + 32) = toBuffer K k" for k off buf
  proof -
    have "newPublicKey K (toBuffer K k) = Inr k"
      using that(1) by (simp add: wf_keys_def)
    then show ?thesis
      using that by (simp add: publicKey_def Let_def wf_ui_blob)
  qed
qed

section \<open>An instance of the packages\<close>

fun min_bytes :: "nat \<Rightarrow> byte list" where
  "min_bytes v = (if v < 256 then [of_nat v] else of_nat (v mod 256) # min_bytes (v div 256))"

declare min_bytes.simps [simp del]

definition sample_blob :: "nat \<Rightarrow> 'k layout" where
  "sample_blob n =
     \<lparr>span = n,
      decode = (\<lambda>buf off. if off + n \<le> length buf then Inr (VBlob (slice buf off (off + n))) else Inl RangeError),
      encode = (\<lambda>v buf off. case v of
         VBlob b \<Rightarrow> if length b = n \<and> off + n \<le> length buf then Inr (overwrite buf off b, n) else Inl TypeError
       | _ \<Rightarrow> Inl TypeError)\<rparr>"

definition sample_u8 :: "'k layout" where
  "sample_u8 =
     \<lparr>span = 1,
      decode = (\<lambda>buf off. if off < length buf then Inr (VNum (unat (buf ! off))) else Inl RangeError),
      encode = (\<lambda>v buf off. case v of
         VNum n \<Rightarrow> if n < 256 \<and> off < length buf then Inr (overwrite buf off [of_nat n], 1) else Inl RangeError
       | _ \<Rightarrow> Inl TypeError)\<rparr>"

definition sample_ui :: "'k uilib" where
  "sample_ui =
     \<lparr>u8 = sample_u8, blob = sample_blob,
      struct = (\<lambda>fs. \<lparr>struct_span = sum_list (map (\<lambda>(p, f). span f) fs),
         struct_decode = (\<lambda>buf. decode_fields fs buf 0), struct_encode = (\<lambda>vs buf. encode_fields fs vs buf 0)\<rparr>),
      BN_parse16 = (\<lambda>s. int (hexValue s)), BN_toArray = (\<lambda>a. rev (min_bytes (nat a))), BN_new = BigInt\<rparr>"

lemma le_val_min_bytes: "le_val (min_bytes v) = v"
proof (induction v rule: min_bytes.induct)
  case (1 v)
  then show ?case
    by (subst min_bytes.simps) (simp add: unsigned_of_nat take_bit_eq_mod)
qed

lemma length_min_bytes: "v < 256 ^ n \<Longrightarrow> 0 < n \<Longrightarrow> length (min_bytes v) \<le> n"
proof (induction v arbitrary: n rule: min_bytes.induct)
  case (1 v)
  show ?case
  proof (cases "v < 256")
    case True
    then show ?thesis
      using 1(3) by (subst min_bytes.simps) simp
  next
    case False
    then have "n \<noteq> 1"
      using 1(2) by auto
    then obtain m where m: "n = Suc m" "0 < m"
      using 1(3) by (cases n) auto
    then have "v div 256 < 256 ^ m"
      using 1(2) by (simp add: less_mult_imp_div_less mult.commute)
    then show ?thesis
      using 1(1) [OF False _ m(2)] False m(1) by (subst min_bytes.simps) simp
  qed
qed

lemma sample_ui_wf [simp]: "wf_ui (sample_ui :: 'k uilib)"
proof -
  have "wf_u8 (sample_u8 :: 'k layout)" "wf_blob n (sample_blob n :: 'k layout)" for n
    by (simp_all add: wf_u8_def sample_u8_def wf_blob_def sample_blob_def)
  moreover have "nat a < 256 ^ n" if "0 \<le> a" "a < 256 ^ n" for a :: int and n
    using that by (simp add: nat_less_iff)
  then have "wf_BN (sample_ui :: 'k uilib)"
    by (simp add: wf_BN_def sample_ui_def le_val_min_bytes length_min_bytes)
  ultimately show ?thesis
    by (simp add: wf_ui_def sample_ui_def wf_struct_def)
qed

section \<open>Properties\<close>

text \<open>
  The client's fields store without loss: a 64-bit number, a 128-bit number and a key written
  anywhere in a buffer are read back from there, and the buffer keeps its length.
\<close>

lemma layout_roundtrip:
  assumes "wf_ui L" "wf_keys K"
  shows "(\<forall>a off buf. 0 \<le> a \<and> a < 2 ^ 64 \<and> off + 8 \<le> length buf \<longrightarrow>
      (\<exists>buf'. encode (uint64 L) (VBN a) buf off = Inr (buf', 8) \<and> length buf' = length buf \<and>
        decode (uint64 L) buf' off = Inr (VBN a))) \<and>
    (\<forall>a off buf. 0 \<le> a \<and> a < 2 ^ 128 \<and> off + 16 \<le> length buf \<longrightarrow>
      (\<exists>buf'. encode (uint128 L) (VBN a) buf off = Inr (buf', 16) \<and> length buf' = length buf \<and>
        decode (uint128 L) buf' off = Inr (VBN a))) \<and>
    (\<forall>k off buf. off + 32 \<le> length buf \<longrightarrow>
      (\<exists>buf'. encode (publicKey K L) (VKey k) buf off = Inr (buf', 32) \<and> length buf' = length buf \<and>
        decode (publicKey K L) buf' off = Inr (VKey k)))"
proof (intro conjI allI impI)
  show "\<exists>buf'. encode (uint64 L) (VBN a) buf off = Inr (buf', 8) \<and> length buf' = length buf \<and>
      decode (uint64 L) buf' off = Inr (VBN a)" if "0 \<le> a \<and> a < 2 ^ 64 \<and> off + 8 \<le> length buf" for a off buf
    using uint64_field.decode_encode [OF assms(1), of a off buf] that by simp
  show "\<exists>buf'. encode (uint128 L) (VBN a) buf off = Inr (buf', 16) \<and> length buf' = length buf \<and>
      decode (uint128 L) buf' off = Inr (VBN a)" if "0 \<le> a \<and> a < 2 ^ 128 \<and> off + 16 \<le> length buf" for a off buf
    using uint128_field.decode_encode [OF assms(1), of a off buf] that by simp
  show "\<exists>buf'. encode (publicKey K L) (VKey k) buf off = Inr (buf', 32) \<and> length buf' = length buf \<and>
      decode (publicKey K L) buf' off = Inr (VKey k)" if "off + 32 \<le> length buf" for k off buf
    using key_field.decode_encode [where L = L and K = K and v = k and off = off and buf = buf] assms that by simp
qed

lemma layout_roundtrip_witness:
  "\<exists>buf'. encode (uint64 (sample_ui :: key uilib)) (VBN 1500000000) (alloc 20) 3 = Inr (buf', 8) \<and> length buf' = 20 \<and>
    decode (uint64 (sample_ui :: key uilib)) buf' 3 = Inr (VBN 1500000000)"
  using layout_roundtrip [OF sample_ui_wf sample_keys_wf, THEN conjunct1, rule_format, of 1500000000 3 "alloc 20"]
  by simp

end
