(* ===== verification/UI_Models.thy ===== *)
theory UI_Models
  imports UI_Layout Tenderize_State
begin

text \<open>
  \<open>src/utils/ids.ts\<close> and \<open>src/models\<close>: the web client's constants, its view of the pool account, and its
  instruction builders. The theorems relate them to the program's decoder and to the builders of the
  administrator's client.
\<close>

section \<open>Addresses\<close>

definition TENDERIZE_PROGRAM_ID :: "'k keylib \<Rightarrow> 'k" where
  "TENDERIZE_PROGRAM_ID K = keyOfString K ''YiLSwwu3yBwaSHoaAooERKNeQ64BSbRuv7wXTZ5Uprf''"

definition TOKEN_PROGRAM_ID :: "'k keylib \<Rightarrow> 'k" where
  "TOKEN_PROGRAM_ID K = keyOfString K ''TokenkegQfeZyiNwAJbNbGKPFXCWuBvf9Ss623VQ5DA''"

definition TENDERIZED_SOL_MINT_ID :: "'k keylib \<Rightarrow> 'k" where
  "TENDERIZED_SOL_MINT_ID K = keyOfString K ''Do41x7Uza6cQeJ2VhVyJU6QhuRMLxTrLJhpL8MSNFpZm''"

definition STAKE_POOL_ID :: "'k keylib \<Rightarrow> 'k" where
  "STAKE_POOL_ID K = keyOfString K ''DKZKU3K8MiBbBfurpaG2ijf6nAGoXvomNysCJZ5jbgiy''"

definition VALIDATORS_LIST_ID :: "'k keylib \<Rightarrow> 'k" where
  "VALIDATORS_LIST_ID K = keyOfString K ''7qaWgz27453E5CLPvcvGiLR2GobLPbKWsPmGDNQYRm6U''"

definition WRAPPED_SOL_MINT :: "'k keylib \<Rightarrow> 'k" where
  "WRAPPED_SOL_MINT K = keyOfString K ''So11111111111111111111111111111111111111112''"

definition OWNER_FEE_ACCOUNT :: "'k keylib \<Rightarrow> 'k" where
  "OWNER_FEE_ACCOUNT K = keyOfString K ''GAw1CLxsG1YoHG6CG4iiVF6TXB9xLKawkTz1M3xEzxUs''"

definition RESERVE_ADDRESS_PDA :: "'k keylib \<Rightarrow> 'k" where
  "RESERVE_ADDRESS_PDA K = keyOfString K ''J5zPZnPwxxyV2vMSneQy4kasgteR1rHYEokfaa2G9DdQ''"

definition WITHDRAW_AUTHORITY_PDA :: "'k keylib \<Rightarrow> 'k" where
  "WITHDRAW_AUTHORITY_PDA K = keyOfString K ''5es37KhF5VKHtSPXNDzwPNMSndizyNFvHzeFwzEKW3vg''"

definition TEMP_ACCOUNT_PDA :: "'k keylib \<Rightarrow> 'k" where
  "TEMP_ACCOUNT_PDA K = keyOfString K ''GvHtq21JoJr243heSNXh29kWz6unGtCG6stbyKcYM3m1''"

lemmas ids_defs = TENDERIZE_PROGRAM_ID_def TOKEN_PROGRAM_ID_def TENDERIZED_SOL_MINT_ID_def STAKE_POOL_ID_def
  VALIDATORS_LIST_ID_def WRAPPED_SOL_MINT_def OWNER_FEE_ACCOUNT_def RESERVE_ADDRESS_PDA_def
  WITHDRAW_AUTHORITY_PDA_def TEMP_ACCOUNT_PDA_def

definition PROGRAM_IDS :: "string list" where
  "PROGRAM_IDS = [''mainnet-beta'', ''testnet'', ''devnet'', ''localnet'']"

record 'k ProgramIds =
  token :: 'k

definition programIds :: "'k keylib \<Rightarrow> 'k ProgramIds" where
  "programIds K = \<lparr>token = TOKEN_PROGRAM_ID K\<rparr>"

section \<open>Instruction tags\<close>

datatype LendingInstruction =
    InitLendingMarket
  | InitReserve
  | InitObligation
  | DepositReserveLiquidity
  | WithdrawReserveLiquidity
  | BorrowLiquidity
  | RepayObligationLiquidity
  | LiquidateObligation
  | AccrueReserveInterest

fun LendingInstruction_value :: "LendingInstruction \<Rightarrow> nat" where
  "LendingInstruction_value InitLendingMarket = 0"
| "LendingInstruction_value InitReserve = 1"
| "LendingInstruction_value InitObligation = 2"
| "LendingInstruction_value DepositReserveLiquidity = 6"
| "LendingInstruction_value WithdrawReserveLiquidity = 7"
| "LendingInstruction_value BorrowLiquidity = 5"
| "LendingInstruction_value RepayObligationLiquidity = 6"
| "LendingInstruction_value LiquidateObligation = 7"
| "LendingInstruction_value AccrueReserveInterest = 8"

definition TransactionListLookup :: "nat \<Rightarrow> string option" where
  "TransactionListLookup =
     [3 \<mapsto> ''Deposit'', 4 \<mapsto> ''Withdraw'', 5 \<mapsto> ''Borrow'', 6 \<mapsto> ''Repay'', 7 \<mapsto> ''Liquidate'']"

section \<open>The pool account\<close>

definition TenderizeFields :: "'k keylib \<Rightarrow> 'k uilib \<Rightarrow> (string \<times> 'k layout) list" where
  "TenderizeFields K L =
     [(''version'', u8 L),
      (''owner'', publicKey K L),
      (''padding'', blob L 2),
      (''validatorStakeList'', publicKey K L),
      (''creditList'', publicKey K L),
      (''poolMint'', publicKey K L),
      (''ownerFeeAccount'', publicKey K L),
      (''creditReserve'', publicKey K L),
      (''tokenProgram'', publicKey K L),
      (''padding'', blob L 5),
      (''stakeTotal'', uint64 L),
      (''poolTotal'', uint64 L),
      (''lastEpochUpdate'', uint64 L),
      (''feeDenominator'', uint64 L),
      (''feeNumerator'', uint64 L)]"

definition TenderizeLayout :: "'k keylib \<Rightarrow> 'k uilib \<Rightarrow> 'k struct_layout" where
  "TenderizeLayout K L = struct L (TenderizeFields K L)"

definition isTenderize :: "'k keylib \<Rightarrow> 'k uilib \<Rightarrow> 'k account_info \<Rightarrow> bool" where
  "isTenderize K L info \<longleftrightarrow> length (acc_data info) = struct_span (TenderizeLayout K L)"

record 'k Tenderize =
  td_version :: nat
  td_owner :: 'k
  td_validatorStakeList :: 'k
  td_creditList :: 'k
  td_poolMint :: 'k
  td_ownerFeeAccount :: 'k
  td_creditReserve :: 'k
  td_tokenProgram :: 'k
  td_stakeTotal :: int
  td_poolTotal :: int
  td_lastEpochUpdate :: int
  td_feeDenominator :: int
  td_feeNumerator :: int

text \<open>
  The decoded object read by property name. A name that occurs twice, as \<open>padding\<close> does, keeps the
  value assigned last. A property of the wrong type is an error here; with the layout above there is none.
\<close>

definition propNum :: "(string \<times> 'k fval) list \<Rightarrow> string \<Rightarrow> nat res" where
  "propNum obj p = (case map_of (rev obj) p of Some (VNum n) \<Rightarrow> Inr n | _ \<Rightarrow> Inl TypeError)"

definition propKey :: "(string \<times> 'k fval) list \<Rightarrow> string \<Rightarrow> 'k res" where
  "propKey obj p = (case map_of (rev obj) p of Some (VKey k) \<Rightarrow> Inr k | _ \<Rightarrow> Inl TypeError)"

definition propBN :: "(string \<times> 'k fval) list \<Rightarrow> string \<Rightarrow> int res" where
  "propBN obj p = (case map_of (rev obj) p of Some (VBN a) \<Rightarrow> Inr a | _ \<Rightarrow> Inl TypeError)"

definition asTenderize :: "(string \<times> 'k fval) list \<Rightarrow> 'k Tenderize res" where
  "asTenderize obj =
     bindE (propNum obj ''version'') (\<lambda>v.
     bindE (propKey obj ''owner'') (\<lambda>ow.
     bindE (propKey obj ''validatorStakeList'') (\<lambda>vsl.
     bindE (propKey obj ''creditList'') (\<lambda>cl.
     bindE (propKey obj ''poolMint'') (\<lambda>pm.
     bindE (propKey obj ''ownerFeeAccount'') (\<lambda>ofa.
     bindE (propKey obj ''creditReserve'') (\<lambda>cr.
     bindE (propKey obj ''tokenProgram'') (\<lambda>tp.
     bindE (propBN obj ''stakeTotal'') (\<lambda>st.
     bindE (propBN obj ''poolTotal'') (\<lambda>pt.
     bindE (propBN obj ''lastEpochUpdate'') (\<lambda>leu.
     bindE (propBN obj ''feeDenominator'') (\<lambda>fd.
     bindE (propBN obj ''feeNumerator'') (\<lambda>fn.
     Inr \<lparr>td_version = v, td_owner = ow, td_validatorStakeList = vsl, td_creditList = cl, td_poolMint = pm,
          td_ownerFeeAccount = ofa, td_creditReserve = cr, td_tokenProgram = tp, td_stakeTotal = st,
          td_poolTotal = pt, td_lastEpochUpdate = leu, td_feeDenominator = fd, td_feeNumerator = fn\<rparr>)))))))))))))"

record ('k, 'i) ParsedAccount =
  pa_pubkey :: 'k
  pa_account :: "'k account_info"
  pa_info :: 'i

definition TenderizeParser ::
  "'k keylib \<Rightarrow> 'k uilib \<Rightarrow> 'k \<Rightarrow> 'k account_info option \<Rightarrow> ('k, 'k Tenderize) ParsedAccount option res" where
  "TenderizeParser K L pubKey info =
     (case info of
        None \<Rightarrow> Inr None
      | Some acc \<Rightarrow>
          if length (acc_data acc) = 0 then Inr None
          else
            bindE (bindE (struct_decode (TenderizeLayout K L) (acc_data acc)) asTenderize) (\<lambda>d.
            Inr (Some \<lparr>pa_pubkey = pubKey, pa_account = acc, pa_info = d\<rparr>)))"

section \<open>Instructions\<close>

record 'k DepositParams_ui =
  ui_userSource :: 'k
  ui_dep_amount :: number
  ui_userToken :: 'k

record 'k WithdrawParams_ui =
  ui_wd_userTokenSource :: 'k
  ui_wd_userSolTarget :: 'k
  ui_wd_amount :: number

record 'k CreditParams_ui =
  ui_cr_userTokenSource :: 'k
  ui_cr_userSolTarget :: 'k
  ui_cancelAuthority :: 'k
  ui_cr_amount :: number

text \<open>The data of the three instructions: a tag byte and an amount, encoded by a two-field struct.\<close>

definition encodeAmount :: "'k uilib \<Rightarrow> string \<Rightarrow> nat \<Rightarrow> number \<Rightarrow> buffer res" where
  "encodeAmount L property tag amount =
     (let dataLayout = struct L [(''instruction'', u8 L), (property, uint64 L)];
          d = alloc (struct_span dataLayout)
      in bindE (BN_new L amount) (\<lambda>a.
         struct_encode dataLayout [(''instruction'', VNum tag), (property, VBN a)] d))"

definition depositInstruction_ui :: "'k keylib \<Rightarrow> 'k uilib \<Rightarrow> 'k DepositParams_ui \<Rightarrow> 'k instruction res" where
  "depositInstruction_ui K L params =
     bindE (encodeAmount L ''liquidityAmount'' (LendingInstruction_value DepositReserveLiquidity) (ui_dep_amount params)) (\<lambda>d.
     Inr \<lparr>keys =
            [meta (STAKE_POOL_ID K) False True,
             meta (WITHDRAW_AUTHORITY_PDA K) False False,
             meta (RESERVE_ADDRESS_PDA K) False True,
             meta (ui_userSource params) False True,
             meta (ui_userToken params) False True,
             meta (OWNER_FEE_ACCOUNT K) False True,
             meta (TENDERIZED_SOL_MINT_ID K) False True,
             meta (SYSVAR_RENT_PUBKEY K) False False,
             meta (ref_key (SystemProgram_programId K)) False False,
             meta (TOKEN_PROGRAM_ID K) False False,
             meta (TEMP_ACCOUNT_PDA K) False True,
             meta (WRAPPED_SOL_MINT K) False True],
          programId = TENDERIZE_PROGRAM_ID K, data = d\<rparr>)"

definition withdrawInstruction_ui ::
  "'k keylib \<Rightarrow> 'k uilib \<Rightarrow> 'k WithdrawParams_ui \<Rightarrow> 'k Tenderize \<Rightarrow> 'k instruction res" where
  "withdrawInstruction_ui K L params tenderize =
     bindE (encodeAmount L ''collateralAmount'' (LendingInstruction_value WithdrawReserveLiquidity) (ui_wd_amount params)) (\<lambda>d.
     Inr \<lparr>keys =
            [meta (STAKE_POOL_ID K) False True,
             meta (WITHDRAW_AUTHORITY_PDA K) False False,
             meta (RESERVE_ADDRESS_PDA K) False True,
             meta (ui_wd_userTokenSource params) False True,
             meta (td_poolMint tenderize) False True,
             meta (ui_wd_userSolTarget params) False True,
             meta (SYSVAR_RENT_PUBKEY K) False False,
             meta (ref_key (SystemProgram_programId K)) False False,
             meta (TOKEN_PROGRAM_ID K) False False],
          programId = TENDERIZE_PROGRAM_ID K, data = d\<rparr>)"

definition creditInstruction_ui ::
  "'k keylib \<Rightarrow> 'k uilib \<Rightarrow> 'k CreditParams_ui \<Rightarrow> 'k Tenderize \<Rightarrow> 'k instruction res" where
  "creditInstruction_ui K L params tenderize =
     bindE (encodeAmount L ''collateralAmount'' 10 (ui_cr_amount params)) (\<lambda>d.
     Inr \<lparr>keys =
            [meta (STAKE_POOL_ID K) False True,
             meta (td_creditList tenderize) False True,
             meta (td_creditReserve tenderize) False True,
             meta (WITHDRAW_AUTHORITY_PDA K) False False,
             meta (ui_cr_userTokenSource params) False True,
             meta (ui_cr_userSolTarget params) False True,
             meta (ui_cancelAuthority params) False False,
             meta (TOKEN_PROGRAM_ID K) False False],
          programId = TENDERIZE_PROGRAM_ID K, data = d\<rparr>)"

section \<open>Decoding and encoding\<close>

lemma slice_byte: "off < length d \<Longrightarrow> slice d off (Suc off) = [d ! off]"
  by (simp add: slice_def take_Suc_conv_app_nth flip: Cons_nth_drop_Suc)

lemma decode_u8: "wf_ui L \<Longrightarrow> off < length d \<Longrightarrow> decode (u8 L) d off = Inr (VNum (le_val (slice d off (Suc off))))"
  by (simp add: wf_ui_u8 slice_byte)

lemma decode_key:
  "wf_ui L \<Longrightarrow> total_keys K \<Longrightarrow> off + 32 \<le> length d \<Longrightarrow>
   decode (publicKey K L) d off = Inr (VKey (key_of K (slice d off (off + 32))))"
  by (simp add: publicKey_def Let_def wf_ui_blob newPublicKey_slice)

lemma decode_uint64:
  assumes "wf_ui L" "off + 8 \<le> length d"
  shows "decode (uint64 L) d off = Inr (VBN (int (le_val (slice d off (off + 8)))))"
proof -
  let ?b = "slice d off (off + 8)"
  have "length ?b = 8"
    using assms(2) by (simp add: length_slice)
  then have "?b = le_bytes 8 (le_val ?b)" "le_val ?b < 256 ^ 8"
    using le_bytes_le_val [of ?b] le_val_bound [of ?b] by simp_all
  moreover have "int (le_val ?b) < 256 ^ 8"
    using \<open>le_val ?b < 256 ^ 8\<close> by simp
  ultimately show ?thesis
    using uint64_field.decode_lay [OF assms(1), of "int (le_val ?b)" off d] assms(2) by simp
qed

lemma spans: "wf_ui L \<Longrightarrow> span (u8 L) = 1 \<and> span (publicKey K L) = 32 \<and> span (uint64 L) = 8 \<and> span (blob L n) = n"
  by (simp add: wf_ui_u8 wf_ui_blob publicKey_def uint64_def uintLayout_def Let_def)

lemma encodeAmount_ok:
  assumes "wf_ui L" "tag < 256" "0 \<le> a" "a < MAX_SAFE" "property \<noteq> ''instruction''"
  shows "encodeAmount L property tag (of_int a) = Inr (of_nat tag # le_bytes 8 (nat a))"
proof -
  have "BN_new L (of_int a) = Inr a"
    using wf_ui_BN(4) [OF assms(1), of a] assms(3,4) by simp
  moreover have "a < 256 ^ 8"
    using assms(4) by (simp add: MAX_SAFE_def)
  moreover have "overwrite (overwrite (alloc 9) 0 [t]) 1 (le_bytes 8 v) = t # le_bytes 8 v" for t v
    by (simp add: overwrite_def alloc_def)
  ultimately show ?thesis
    using assms by (simp add: encodeAmount_def Let_def wf_ui_struct spans wf_ui_u8 uint64_field.encode_lay)
qed

section \<open>The same pool\<close>

text \<open>The pool account as the web client names its fields.\<close>

definition tenderize_of :: "'k State \<Rightarrow> 'k Tenderize" where
  "tenderize_of st =
     \<lparr>td_version = version st, td_owner = st_owner st, td_validatorStakeList = validatorStakeList st,
      td_creditList = creditList st, td_poolMint = poolMint st, td_ownerFeeAccount = ownerFeeAccount st,
      td_creditReserve = st_creditReserve st, td_tokenProgram = tokenProgram st,
      td_stakeTotal = int (stakeTotal st), td_poolTotal = int (poolTotal st),
      td_lastEpochUpdate = int (lastEpochUpdate st), td_feeDenominator = int (feeDenominator st),
      td_feeNumerator = int (feeNumerator st)\<rparr>"

text \<open>A program whose addresses are the constants of the web client.\<close>

definition web_program :: "'k keylib \<Rightarrow> 'k TenderizeProgram \<Rightarrow> bool" where
  "web_program K P \<longleftrightarrow>
     programAccount P = TENDERIZE_PROGRAM_ID K \<and> stakePool P = STAKE_POOL_ID K \<and>
     poolMintToken P = TENDERIZED_SOL_MINT_ID K \<and> ownersFee P = OWNER_FEE_ACCOUNT K \<and>
     getWithdrawAuthority K P = Inr (WITHDRAW_AUTHORITY_PDA K) \<and> getReserveAddress K P = Inr (RESERVE_ADDRESS_PDA K)"

lemma TenderizeFields_decode:
  assumes "wf_ui L" "total_keys K" "272 \<le> length d"
  shows "bindE (decode_fields (TenderizeFields K L) d 0) asTenderize =
    Inr (tenderize_of (state_view K (projr (StakePool_deserialize d))))"
proof -
  have "decode (u8 L) d 0 = Inr (VNum (le_val (slice d 0 (Suc 0))))"
    using assms(3) by (intro decode_u8 [OF assms(1)]) linarith
  then show ?thesis
    using assms
    by (simp add: TenderizeFields_def spans decode_key decode_uint64 wf_ui_blob asTenderize_def propNum_def
      propKey_def propBN_def tenderize_of_def state_view_def StakePool_deserialize_def layout_sizes)
qed

lemma span_Tenderize: "wf_ui L \<Longrightarrow> struct_span (TenderizeLayout K L) = StakePool_LEN"
  by (simp add: TenderizeLayout_def wf_ui_struct TenderizeFields_def spans layout_sizes)

section \<open>Properties\<close>

text \<open>
  C24. The web client and the program read the same pool: from every account the program accepts, the
  parser returns the fields that the program and the administrator's client read there, keys and
  64-bit totals alike; and an account has the size the web client checks exactly when it has the
  size of the program's structure.
\<close>

theorem TenderizeParser_agrees:
  assumes "wf_ui L" "total_keys K" "StakePool_deserialize (acc_data acc) = Inr sp"
  shows "TenderizeParser K L k (Some acc) =
      Inr (Some \<lparr>pa_pubkey = k, pa_account = acc, pa_info = tenderize_of (state_view K sp)\<rparr>) \<and>
    parseState K (acc_data acc) = Inr (state_view K sp) \<and>
    (isTenderize K L acc \<longleftrightarrow> length (acc_data acc) = StakePool_LEN)"
proof -
  have "272 \<le> length (acc_data acc)"
    using assms(3) by (auto simp: StakePool_deserialize_def layout_sizes split: if_splits)
  then have "bindE (struct_decode (TenderizeLayout K L) (acc_data acc)) asTenderize = Inr (tenderize_of (state_view K sp))"
    "acc_data acc \<noteq> []"
    using TenderizeFields_decode [OF assms(1,2)] assms by (auto simp: TenderizeLayout_def wf_ui_struct)
  then show ?thesis
    using parseState_ok [OF assms(2,3)] assms(1) by (simp add: TenderizeParser_def isTenderize_def span_Tenderize)
qed

theorem TenderizeParser_agrees_witness:
  "\<exists>p. TenderizeParser sample_keys sample_ui 12 (Some (sample_account (alloc 272))) = Inr (Some p) \<and>
    td_poolTotal (pa_info p) = 0 \<and> pa_pubkey p = 12"
proof -
  obtain sp where sp: "StakePool_deserialize (acc_data (sample_account (alloc 272))) = Inr sp" "pool_total sp = 0"
    by (simp add: StakePool_deserialize_def sample_account_def layout_sizes slice_def alloc_def)
  show ?thesis
    using TenderizeParser_agrees [OF sample_ui_wf total_sample sp(1), of 12] sp(2)
    by (simp add: tenderize_of_def state_view_def)
qed

text \<open>
  What the web client sends is what the program reads: for every whole amount a JavaScript number
  holds exactly, the program decodes a deposit, a withdrawal and a credit of that amount.
\<close>

lemma instructions_ui_roundtrip:
  assumes "wf_ui L" "0 \<le> a" "a < MAX_SAFE"
  shows "(\<exists>ix. depositInstruction_ui K L \<lparr>ui_userSource = u, ui_dep_amount = of_int a, ui_userToken = t\<rparr> = Inr ix \<and>
      deserialize_instruction (data ix) = Inr (Deposit (nat a))) \<and>
    (\<exists>ix. withdrawInstruction_ui K L \<lparr>ui_wd_userTokenSource = u, ui_wd_userSolTarget = t, ui_wd_amount = of_int a\<rparr> td = Inr ix \<and>
      deserialize_instruction (data ix) = Inr (Withdraw (nat a))) \<and>
    (\<exists>ix. creditInstruction_ui K L \<lparr>ui_cr_userTokenSource = u, ui_cr_userSolTarget = t, ui_cancelAuthority = c,
        ui_cr_amount = of_int a\<rparr> td = Inr ix \<and>
      deserialize_instruction (data ix) = Inr (Credit (nat a)))"
proof -
  have "nat a < 2 ^ 64"
    using assms(3) by (simp add: MAX_SAFE_def)
  then show ?thesis
    using assms by (simp add: depositInstruction_ui_def withdrawInstruction_ui_def creditInstruction_ui_def
      encodeAmount_ok deserialize_instruction_def read_u64_written)
qed

lemma instructions_ui_roundtrip_witness:
  "\<exists>ix. depositInstruction_ui sample_keys sample_ui
      \<lparr>ui_userSource = 20, ui_dep_amount = of_int 1500000000, ui_userToken = 21\<rparr> = Inr ix \<and>
    deserialize_instruction (data ix) = Inr (Deposit (nat 1500000000))"
  using instructions_ui_roundtrip [where K = sample_keys and L = sample_ui and a = 1500000000 and u = 20 and t = 21]
  by (simp add: MAX_SAFE_def)

text \<open>
  C23. The two clients agree: on a pool at the web client's addresses, for every whole amount a
  JavaScript number holds exactly, both build the identical withdrawal, and the deposits have the same
  data and name the same first ten accounts; the web client adds the two accounts wrapped SOL needs.
\<close>

theorem clients_agree:
  assumes "wf_ui L" "0 \<le> a" "a < MAX_SAFE" "web_program K P" "td_poolMint td = poolMintToken P"
  shows "withdrawInstruction_ui K L \<lparr>ui_wd_userTokenSource = u, ui_wd_userSolTarget = t, ui_wd_amount = of_int a\<rparr> td =
      withdrawInstruction K P \<lparr>wd_userTokenSource = u, wd_amount = of_int a, wd_userSolTarget = t\<rparr> \<and>
    (\<exists>web adm. depositInstruction_ui K L \<lparr>ui_userSource = u, ui_dep_amount = of_int a, ui_userToken = t\<rparr> = Inr web \<and>
      depositInstruction K P \<lparr>userSource = u, dep_amount = of_int a, userToken = t\<rparr> = Inr adm \<and>
      data web = data adm \<and> programId web = programId adm \<and>
      map pubkey (keys web) = map pubkey (keys adm) @ [TEMP_ACCOUNT_PDA K, WRAPPED_SOL_MINT K])"
proof -
  have "a < 2 ^ 63" "- (2 ^ 63) \<le> a" "a mod 2 ^ 64 = a"
    using assms(2,3) by (simp_all add: MAX_SAFE_def)
  then show ?thesis
    using assms by (simp add: withdrawInstruction_ui_def withdrawInstruction_def depositInstruction_ui_def
      depositInstruction_def encodeAmount_ok amount_bytes_ok web_program_def SPL_TOKEN_PROGRAM_ID_def TOKEN_PROGRAM_ID_def meta_def)
qed

theorem clients_agree_witness:
  "\<exists>K L P td. web_program K P \<and>
    withdrawInstruction_ui K L \<lparr>ui_wd_userTokenSource = 20, ui_wd_userSolTarget = 21, ui_wd_amount = of_int 7\<rparr> td =
      withdrawInstruction K P \<lparr>wd_userTokenSource = (20 :: key), wd_amount = of_int 7, wd_userSolTarget = 21\<rparr>"
proof -
  define K where "K = sample_keys\<lparr>findProgramAddress := (\<lambda>_ _. Inr 44)\<rparr>"
  define P where "P = sample_program\<lparr>programAccount := TENDERIZE_PROGRAM_ID K, stakePool := STAKE_POOL_ID K,
    poolMintToken := TENDERIZED_SOL_MINT_ID K, ownersFee := OWNER_FEE_ACCOUNT K\<rparr>"
  define td where "td = (tenderize_of (state_view K (projr (StakePool_deserialize (alloc 272)))))\<lparr>td_poolMint := poolMintToken P\<rparr>"
  have P: "web_program K P"
    by (simp add: web_program_def P_def K_def getWithdrawAuthority_def getReserveAddress_def ids_defs sample_keys_def)
  moreover have "td_poolMint td = poolMintToken P"
    by (simp add: td_def)
  ultimately show ?thesis
    using clients_agree [where L = sample_ui and a = 7 and u = 20 and t = 21, OF sample_ui_wf _ _ P]
    by (intro exI [of _ K] exI [of _ sample_ui] exI [of _ P] exI [of _ td]) (simp add: MAX_SAFE_def)
qed

end
