(* ===== verification/UI_Tokens.thy ===== *)
theory UI_Tokens
  imports UI_Models
begin

text \<open>
  Token accounts and mints in the web client (\<open>src/models/account.ts\<close>, the parsers of
  \<open>src/contexts/accounts.tsx\<close>). The package spl-token is an argument, \<open>tokenlib\<close>: its layouts give the raw
  fields, its class \<open>Token\<close> builds instructions. \<open>wf_tokenlib\<close> states the documented layout.
\<close>

section \<open>The package\<close>

record raw_account =
  ra_mint :: buffer
  ra_owner :: buffer
  ra_amount :: buffer
  ra_delegateOption :: nat
  ra_delegate :: buffer
  ra_state :: nat
  ra_isNativeOption :: nat
  ra_isNative :: buffer
  ra_delegatedAmount :: buffer
  ra_closeAuthorityOption :: nat
  ra_closeAuthority :: buffer

record raw_mint =
  rm_mintAuthorityOption :: nat
  rm_mintAuthority :: buffer
  rm_supply :: buffer
  rm_decimals :: nat
  rm_isInitialized :: nat
  rm_freezeAuthorityOption :: nat
  rm_freezeAuthority :: buffer

record 'k tokenlib =
  AccountLayout_span :: nat
  AccountLayout_decode :: "buffer \<Rightarrow> raw_account res"
  MintLayout_span :: nat
  MintLayout_decode :: "buffer \<Rightarrow> raw_mint res"
  u64_fromBuffer :: "buffer \<Rightarrow> int res"
  createApproveInstruction :: "'k \<Rightarrow> 'k \<Rightarrow> 'k \<Rightarrow> 'k \<Rightarrow> 'k list \<Rightarrow> number \<Rightarrow> 'k instruction"
  createRevokeInstruction :: "'k \<Rightarrow> 'k \<Rightarrow> 'k \<Rightarrow> 'k list \<Rightarrow> 'k instruction"
  createInitAccountInstruction :: "'k \<Rightarrow> 'k \<Rightarrow> 'k \<Rightarrow> 'k \<Rightarrow> 'k instruction"
  createCloseAccountInstruction :: "'k \<Rightarrow> 'k \<Rightarrow> 'k \<Rightarrow> 'k \<Rightarrow> 'k list \<Rightarrow> 'k instruction"

section \<open>Token accounts\<close>

record 'k TokenInfo =
  ti_mint :: 'k
  ti_owner :: 'k
  ti_amount :: int
  ti_delegate :: "'k option"
  ti_delegatedAmount :: int
  ti_isInitialized :: bool
  ti_isFrozen :: bool
  ti_isNative :: bool
  ti_rentExemptReserve :: "int option"
  ti_closeAuthority :: "'k option"

type_synonym 'k TokenAccount = "('k, 'k TokenInfo) ParsedAccount"

text \<open>\<open>o === 0 ? null : new PublicKey(bytes)\<close>\<close>

definition optionalKey :: "'k keylib \<Rightarrow> nat \<Rightarrow> buffer \<Rightarrow> 'k option res" where
  "optionalKey K opt bs = (if opt = 0 then Inr None else bindE (newPublicKey K bs) (\<lambda>k. Inr (Some k)))"

definition deserializeAccount :: "'k keylib \<Rightarrow> 'k tokenlib \<Rightarrow> buffer \<Rightarrow> 'k TokenInfo res" where
  "deserializeAccount K T d =
     bindE (AccountLayout_decode T d) (\<lambda>a.
     bindE (newPublicKey K (ra_mint a)) (\<lambda>mint.
     bindE (newPublicKey K (ra_owner a)) (\<lambda>own.
     bindE (u64_fromBuffer T (ra_amount a)) (\<lambda>amount.
     bindE (optionalKey K (ra_delegateOption a) (ra_delegate a)) (\<lambda>delegate.
     bindE (if ra_delegateOption a = 0 then Inr 0 else u64_fromBuffer T (ra_delegatedAmount a)) (\<lambda>delegatedAmount.
     bindE (if ra_isNativeOption a = 1
            then bindE (u64_fromBuffer T (ra_isNative a)) (\<lambda>r. Inr (Some r))
            else Inr None) (\<lambda>reserve.
     bindE (optionalKey K (ra_closeAuthorityOption a) (ra_closeAuthority a)) (\<lambda>closeAuthority.
     Inr \<lparr>ti_mint = mint, ti_owner = own, ti_amount = amount, ti_delegate = delegate,
          ti_delegatedAmount = delegatedAmount, ti_isInitialized = (ra_state a \<noteq> 0), ti_isFrozen = (ra_state a = 2),
          ti_isNative = (ra_isNativeOption a = 1), ti_rentExemptReserve = reserve,
          ti_closeAuthority = closeAuthority\<rparr>))))))))"

definition wrapNativeAccount :: "'k keylib \<Rightarrow> (number \<Rightarrow> int) \<Rightarrow> 'k \<Rightarrow> 'k account_info option \<Rightarrow> 'k TokenAccount option" where
  "wrapNativeAccount K new_u64 key account =
     (case account of
        None \<Rightarrow> None
      | Some acc \<Rightarrow>
          Some \<lparr>pa_pubkey = key, pa_account = acc,
                pa_info = \<lparr>ti_mint = WRAPPED_SOL_MINT K, ti_owner = key, ti_amount = new_u64 (lamports acc),
                           ti_delegate = None, ti_delegatedAmount = new_u64 0, ti_isInitialized = True,
                           ti_isFrozen = False, ti_isNative = True, ti_rentExemptReserve = None,
                           ti_closeAuthority = None\<rparr>\<rparr>)"

section \<open>Mints\<close>

record 'k MintInfo =
  mi_mintAuthority :: "'k option"
  mi_supply :: int
  mi_decimals :: nat
  mi_isInitialized :: bool
  mi_freezeAuthority :: "'k option"

definition deserializeMint :: "'k keylib \<Rightarrow> 'k tokenlib \<Rightarrow> buffer \<Rightarrow> 'k MintInfo res" where
  "deserializeMint K T d =
     (if length d \<noteq> MintLayout_span T then Inl (Error ''Not a valid Mint'')
      else
        bindE (MintLayout_decode T d) (\<lambda>m.
        bindE (optionalKey K (rm_mintAuthorityOption m) (rm_mintAuthority m)) (\<lambda>mintAuthority.
        bindE (u64_fromBuffer T (rm_supply m)) (\<lambda>supply.
        bindE (optionalKey K (rm_freezeAuthorityOption m) (rm_freezeAuthority m)) (\<lambda>freezeAuthority.
        Inr \<lparr>mi_mintAuthority = mintAuthority, mi_supply = supply, mi_decimals = rm_decimals m,
             mi_isInitialized = (rm_isInitialized m \<noteq> 0), mi_freezeAuthority = freezeAuthority\<rparr>)))))"

section \<open>Parsers\<close>

text \<open>
  A parser is compared by identity, so it is named; \<open>OtherParser\<close> stands for those of other modules, whose
  results have type \<open>'x\<close>.
\<close>

datatype AccountParser = MintParser | TokenAccountParser | GenericAccountParser | OtherParser nat

datatype ('k, 'x) info = TokenI "'k TokenInfo" | MintI "'k MintInfo" | BufferI buffer | OtherI 'x

type_synonym ('k, 'x) parsed = "('k, ('k, 'x) info) ParsedAccount"

type_synonym ('k, 'x) others = "nat \<Rightarrow> 'k \<Rightarrow> 'k account_info \<Rightarrow> 'x option res"

fun runParser ::
  "'k keylib \<Rightarrow> 'k tokenlib \<Rightarrow> ('k, 'x) others \<Rightarrow> AccountParser \<Rightarrow> 'k \<Rightarrow> 'k account_info \<Rightarrow> ('k, 'x) parsed option res" where
  "runParser K T X MintParser pubKey acct =
     bindE (deserializeMint K T (acc_data acct)) (\<lambda>d.
     Inr (Some \<lparr>pa_pubkey = pubKey, pa_account = acct, pa_info = MintI d\<rparr>))"
| "runParser K T X TokenAccountParser pubKey acct =
     bindE (deserializeAccount K T (acc_data acct)) (\<lambda>d.
     Inr (Some \<lparr>pa_pubkey = pubKey, pa_account = acct, pa_info = TokenI d\<rparr>))"
| "runParser K T X GenericAccountParser pubKey acct =
     Inr (Some \<lparr>pa_pubkey = pubKey, pa_account = acct, pa_info = BufferI (acc_data acct)\<rparr>)"
| "runParser K T X (OtherParser n) pubKey acct =
     bindE (X n pubKey acct) (\<lambda>d.
     Inr (map_option (\<lambda>i. \<lparr>pa_pubkey = pubKey, pa_account = acct, pa_info = OtherI i\<rparr>) d))"

section \<open>The documented layout\<close>

definition wf_tokenlib :: "'k tokenlib \<Rightarrow> bool" where
  "wf_tokenlib T \<longleftrightarrow>
     AccountLayout_span T = 165 \<and> MintLayout_span T = 82 \<and>
     (\<forall>d. length d = 165 \<longrightarrow> AccountLayout_decode T d = Inr
        \<lparr>ra_mint = slice d 0 32, ra_owner = slice d 32 64, ra_amount = slice d 64 72,
         ra_delegateOption = le_val (slice d 72 76), ra_delegate = slice d 76 108,
         ra_state = le_val (slice d 108 109), ra_isNativeOption = le_val (slice d 109 113),
         ra_isNative = slice d 113 121, ra_delegatedAmount = slice d 121 129,
         ra_closeAuthorityOption = le_val (slice d 129 133), ra_closeAuthority = slice d 133 165\<rparr>) \<and>
     (\<forall>d. length d = 82 \<longrightarrow> MintLayout_decode T d = Inr
        \<lparr>rm_mintAuthorityOption = le_val (slice d 0 4), rm_mintAuthority = slice d 4 36, rm_supply = slice d 36 44,
         rm_decimals = le_val (slice d 44 45), rm_isInitialized = le_val (slice d 45 46),
         rm_freezeAuthorityOption = le_val (slice d 46 50), rm_freezeAuthority = slice d 50 82\<rparr>) \<and>
     (\<forall>b. length b = 8 \<longrightarrow> u64_fromBuffer T b = Inr (int (le_val b)))"

definition sample_tokenlib :: "'k tokenlib" where
  "sample_tokenlib =
     \<lparr>AccountLayout_span = 165,
      AccountLayout_decode = (\<lambda>d. if length d < 165 then Inl RangeError else Inr
        \<lparr>ra_mint = slice d 0 32, ra_owner = slice d 32 64, ra_amount = slice d 64 72,
         ra_delegateOption = le_val (slice d 72 76), ra_delegate = slice d 76 108,
         ra_state = le_val (slice d 108 109), ra_isNativeOption = le_val (slice d 109 113),
         ra_isNative = slice d 113 121, ra_delegatedAmount = slice d 121 129,
         ra_closeAuthorityOption = le_val (slice d 129 133), ra_closeAuthority = slice d 133 165\<rparr>),
      MintLayout_span = 82,
      MintLayout_decode = (\<lambda>d. Inr
        \<lparr>rm_mintAuthorityOption = le_val (slice d 0 4), rm_mintAuthority = slice d 4 36, rm_supply = slice d 36 44,
         rm_decimals = le_val (slice d 44 45), rm_isInitialized = le_val (slice d 45 46),
         rm_freezeAuthorityOption = le_val (slice d 46 50), rm_freezeAuthority = slice d 50 82\<rparr>),
      u64_fromBuffer = (\<lambda>b. if length b = 8 then Inr (int (le_val b)) else Inl TypeError),
      createApproveInstruction = (\<lambda>p a d ow ss n. \<lparr>keys = [meta a False True, meta d False False, meta ow True False], programId = p,
        data = 4 # le_bytes 8 (nat \<lfloor>n\<rfloor>)\<rparr>),
      createRevokeInstruction = (\<lambda>p a ow ss. \<lparr>keys = [meta a False True, meta ow True False], programId = p, data = [5]\<rparr>),
      createInitAccountInstruction = (\<lambda>p m a ow. \<lparr>keys = [meta a False True, meta m False False, meta ow False False], programId = p, data = [1]\<rparr>),
      createCloseAccountInstruction = (\<lambda>p a d ow ss. \<lparr>keys = [meta a False True, meta d False True, meta ow True False], programId = p, data = [9]\<rparr>)\<rparr>"

lemma sample_tokenlib_wf [simp]: "wf_tokenlib sample_tokenlib"
  by (simp add: wf_tokenlib_def sample_tokenlib_def)

section \<open>Properties\<close>

text \<open>
  C31. Every 165-byte account is read, and as a well-formed token account: mint, owner and a 64-bit
  amount from their documented offsets, frozen only if initialized, a delegate exactly when the
  account names one and nothing delegated without it, native exactly when it has a rent reserve.
\<close>

theorem deserializeAccount_wf:
  assumes "wf_tokenlib T" "total_keys K" "length d = 165"
  shows "\<exists>i. deserializeAccount K T d = Inr i \<and>
    toBuffer K (ti_mint i) = slice d 0 32 \<and> toBuffer K (ti_owner i) = slice d 32 64 \<and>
    ti_amount i = int (le_val (slice d 64 72)) \<and> ti_amount i < 2 ^ 64 \<and>
    (ti_isFrozen i \<longrightarrow> ti_isInitialized i) \<and>
    (ti_delegate i \<noteq> None \<longleftrightarrow> le_val (slice d 72 76) \<noteq> 0) \<and> (ti_delegate i = None \<longrightarrow> ti_delegatedAmount i = 0) \<and>
    (ti_isNative i \<longleftrightarrow> ti_rentExemptReserve i \<noteq> None)"
proof -
  have key: "\<exists>k. newPublicKey K (slice d a b) = Inr k \<and> toBuffer K k = slice d a b" if "b = a + 32" "b \<le> 165" for a b
    using assms(2,3) that by (simp add: total_keys_def length_slice)
  have optk: "\<exists>k. optionalKey K n (slice d a b) = Inr k \<and> (k \<noteq> None \<longleftrightarrow> n \<noteq> 0)" if "b = a + 32" "b \<le> 165" for n a b
    using key [OF that] by (auto simp: optionalKey_def)
  have num: "u64_fromBuffer T (slice d a b) = Inr (int (le_val (slice d a b)))" if "b = a + 8" "b \<le> 165" for a b
    using assms(1,3) that by (simp add: wf_tokenlib_def length_slice)
  have "le_val (slice d 64 72) < 2 ^ 64"
    using le_val_bound [of "slice d 64 72"] assms(3) by (simp add: length_slice)
  then have amount: "int (le_val (slice d 64 72)) < 2 ^ 64"
    by simp
  note dec = assms(1) [unfolded wf_tokenlib_def, THEN conjunct2, THEN conjunct2, THEN conjunct1, rule_format, OF assms(3)]
  obtain mint own where k: "newPublicKey K (slice d 0 32) = Inr mint" "toBuffer K mint = slice d 0 32"
    "newPublicKey K (slice d 32 64) = Inr own" "toBuffer K own = slice d 32 64"
    using key [of 32 0] key [of 64 32] by auto
  obtain del clo where o: "optionalKey K (le_val (slice d 72 76)) (slice d 76 108) = Inr del"
      "del \<noteq> None \<longleftrightarrow> le_val (slice d 72 76) \<noteq> 0"
      "optionalKey K (le_val (slice d 129 133)) (slice d 133 165) = Inr clo"
    using optk [where a = 76 and b = 108 and n = "le_val (slice d 72 76)"]
      optk [where a = 133 and b = 165 and n = "le_val (slice d 129 133)"] by auto
  show ?thesis
    using k o amount
    by (cases "le_val (slice d 109 113) = 1"; cases del) (simp_all add: deserializeAccount_def dec num)
qed

theorem deserializeAccount_wf_witness:
  "\<exists>i. deserializeAccount sample_keys sample_tokenlib (le_bytes 32 7 @ le_bytes 32 8 @ le_bytes 8 500 @ alloc 93) = Inr i \<and>
    ti_amount i = 500 \<and> ti_delegate i = None \<and> ti_delegatedAmount i = 0"
  using deserializeAccount_wf [OF sample_tokenlib_wf total_sample,
    of "le_bytes 32 7 @ le_bytes 32 8 @ le_bytes 8 500 @ alloc 93"]
  by (auto simp: slice_def le_val_le_bytes alloc_def)

end
