(* ===== verification/UI_Utils.thy ===== *)
theory UI_Utils
  imports UI_Tokens Tenderize_Ops
begin

text \<open>
  \<open>src/utils/utils.ts\<close>, \<open>src/constants/math.ts\<close> and the hooks that compute: token names, chunks, amounts
  in lamports and in units, the balance of a user and the amount an input field stands for. The
  formatters of the host (\<open>Intl\<close>, \<open>toFixed\<close>) and the browser's storage are left out.
\<close>

section \<open>Token names\<close>

record KnownToken =
  tokenSymbol :: string
  tokenName :: string
  icon :: string
  mintAddress :: string

type_synonym KnownTokenMap = "(string \<times> KnownToken) list"

datatype 'k mint_ref = MintString string | MintKey 'k

definition mintAddressOf :: "'k keylib \<Rightarrow> 'k mint_ref option \<Rightarrow> string option" where
  "mintAddressOf K mint =
     (case mint of None \<Rightarrow> None | Some (MintString s) \<Rightarrow> Some s | Some (MintKey k) \<Rightarrow> Some (toBase58 K k))"

definition truthyString :: "string option \<Rightarrow> string option" where
  "truthyString s = (case s of Some (c # cs) \<Rightarrow> Some (c # cs) | _ \<Rightarrow> None)"

text \<open>\<open>address.slice(-chars)\<close> is the whole string when \<open>chars\<close> is 0.\<close>

definition shortenAddress :: "string \<Rightarrow> nat \<Rightarrow> string" where
  "shortenAddress addr chars =
     take chars addr @ ''...'' @ (if chars = 0 then addr else drop (length addr - chars) addr)"

definition getTokenName :: "'k keylib \<Rightarrow> KnownTokenMap \<Rightarrow> 'k mint_ref option \<Rightarrow> bool \<Rightarrow> string" where
  "getTokenName K m mint shorten =
     (case truthyString (mintAddressOf K mint) of
        None \<Rightarrow> ''N/A''
      | Some addr \<Rightarrow>
          (case truthyString (map_option tokenSymbol (map_of m addr)) of
             Some knownSymbol \<Rightarrow> knownSymbol
           | None \<Rightarrow> if shorten then take 5 addr @ ''...'' else addr))"

definition getTokenByName :: "KnownTokenMap \<Rightarrow> string \<Rightarrow> KnownToken option" where
  "getTokenByName tokenMap name = find (\<lambda>val. tokenSymbol val = name) (map snd tokenMap)"

definition getTokenIcon :: "'k keylib \<Rightarrow> KnownTokenMap \<Rightarrow> 'k mint_ref option \<Rightarrow> string option" where
  "getTokenIcon K m mint =
     (case truthyString (mintAddressOf K mint) of None \<Rightarrow> None | Some addr \<Rightarrow> map_option icon (map_of m addr))"

definition isKnownMint :: "KnownTokenMap \<Rightarrow> string \<Rightarrow> bool" where
  "isKnownMint m addr \<longleftrightarrow> map_of m addr \<noteq> None"

definition STABLE_COINS :: "string list" where
  "STABLE_COINS = [''USDC'', ''wUSDC'', ''USDT'']"

section \<open>Chunks\<close>

text \<open>For a positive size.\<close>

definition chunks :: "'a list \<Rightarrow> nat \<Rightarrow> 'a list list" where
  "chunks array sz =
     map (\<lambda>index. take ((index + 1) * sz - index * sz) (drop (index * sz) array))
       [0..<nat \<lfloor>math_ceil (js_div (of_nat (length array)) (of_nat sz))\<rfloor>]"

section \<open>Amounts\<close>

definition WAD :: int where "WAD = 10 ^ 18"

definition HALF_WAD :: int where "HALF_WAD = 10 ^ 18"

definition RAY :: int where "RAY = 10 ^ 27"

definition math_floor :: "number \<Rightarrow> number" where
  "math_floor x = of_int \<lfloor>x\<rfloor>"

text \<open>An amount to convert: a number, a big number or a token account. \<open>toNumber\<close> is that of bn.js.\<close>

datatype 'k amount_src = OfNumber number | OfBN int | OfAccount "'k TokenAccount"

definition amountOf :: "(int \<Rightarrow> number res) \<Rightarrow> 'k amount_src \<Rightarrow> number res" where
  "amountOf toNumber src =
     (case src of OfNumber x \<Rightarrow> Inr x | OfBN a \<Rightarrow> toNumber a | OfAccount t \<Rightarrow> toNumber (ti_amount (pa_info t)))"

definition precisionOf :: "'k MintInfo option \<Rightarrow> number" where
  "precisionOf mint = fl (10 ^ (case mint of None \<Rightarrow> 0 | Some m \<Rightarrow> mi_decimals m))"

definition falsyAmount :: "'k amount_src option \<Rightarrow> bool" where
  "falsyAmount account \<longleftrightarrow> (case account of None \<Rightarrow> True | Some (OfNumber x) \<Rightarrow> x = 0 | _ \<Rightarrow> False)"

definition toLamports :: "(int \<Rightarrow> number res) \<Rightarrow> 'k amount_src option \<Rightarrow> 'k MintInfo option \<Rightarrow> number res" where
  "toLamports toNumber account mint =
     (case account of
        None \<Rightarrow> Inr 0
      | Some src \<Rightarrow>
          if falsyAmount account then Inr 0
          else bindE (amountOf toNumber src) (\<lambda>amount. Inr (math_floor (js_mul amount (precisionOf mint)))))"

definition wadToLamports :: "int option \<Rightarrow> int" where
  "wadToLamports amount = (case amount of None \<Rightarrow> 0 | Some a \<Rightarrow> sgn a * (\<bar>a\<bar> div WAD))"

definition fromLamports :: "(int \<Rightarrow> number res) \<Rightarrow> 'k amount_src option \<Rightarrow> 'k MintInfo option \<Rightarrow> number \<Rightarrow> number res" where
  "fromLamports toNumber account mint rate =
     (case account of
        None \<Rightarrow> Inr 0
      | Some src \<Rightarrow>
          if falsyAmount account then Inr 0
          else bindE (amountOf toNumber src) (\<lambda>amount.
               Inr (js_mul (js_div (math_floor amount) (precisionOf mint)) rate)))"

definition convert :: "(int \<Rightarrow> number res) \<Rightarrow> 'k amount_src option \<Rightarrow> 'k MintInfo option \<Rightarrow> number \<Rightarrow> number res" where
  "convert toNumber account mint rate =
     (case account of
        None \<Rightarrow> Inr 0
      | Some src \<Rightarrow>
          if falsyAmount account then Inr 0
          else bindE (amountOf toNumber src) (\<lambda>amount. Inr (js_mul (js_div amount (precisionOf mint)) rate)))"

definition isSmallNumber :: "number \<Rightarrow> bool" where
  "isSmallNumber val \<longleftrightarrow> val < fl (1 / 1000) \<and> val > 0"

section \<open>The balance of a user\<close>

text \<open>
  \<open>sort\<close> of the host is a stable sort by a comparison, here the insertion sort it is equivalent to when
  the comparison is a difference; \<open>toNumber\<close> of a difference below \<open>2 ^ 53\<close> keeps its sign.
\<close>

definition balanceAccounts :: "'k keylib \<Rightarrow> 'k TokenAccount list \<Rightarrow> string option \<Rightarrow> 'k option \<Rightarrow> 'k TokenAccount list" where
  "balanceAccounts K userAccounts mint account =
     sort_key (\<lambda>acc. - ti_amount (pa_info acc))
       (filter (\<lambda>acc. mint = Some (toBase58 K (ti_mint (pa_info acc))) \<and> (account = None \<or> account = Some (pa_pubkey acc))) userAccounts)"

fun sumAmounts :: "(int \<Rightarrow> number res) \<Rightarrow> 'k TokenAccount list \<Rightarrow> number \<Rightarrow> number res" where
  "sumAmounts toNumber [] res = Inr res"
| "sumAmounts toNumber (item # items) res =
     bindE (toNumber (ti_amount (pa_info item))) (\<lambda>a. sumAmounts toNumber items (js_add res a))"

record 'k UserBalance =
  ub_balance :: number
  ub_balanceLamports :: number
  ub_accounts :: "'k TokenAccount list"
  ub_hasBalance :: bool

definition useUserBalance ::
  "'k keylib \<Rightarrow> (int \<Rightarrow> number res) \<Rightarrow> 'k TokenAccount list \<Rightarrow> 'k MintInfo option \<Rightarrow> string option \<Rightarrow> 'k option \<Rightarrow> 'k UserBalance res" where
  "useUserBalance K toNumber userAccounts mintInfo mint account =
     (let accounts = balanceAccounts K userAccounts mint account in
      bindE (sumAmounts toNumber accounts 0) (\<lambda>balanceLamports.
      bindE (fromLamports toNumber (Some (OfNumber balanceLamports)) mintInfo 1) (\<lambda>bal.
      Inr \<lparr>ub_balance = bal, ub_balanceLamports = balanceLamports, ub_accounts = accounts,
           ub_hasBalance = (length accounts > 0 \<and> bal > 0)\<rparr>)))"

definition useAccountByMint :: "'k keylib \<Rightarrow> 'k TokenAccount list \<Rightarrow> string option \<Rightarrow> 'k TokenAccount option" where
  "useAccountByMint K userAccounts addr =
     find (\<lambda>acc. Some (toBase58 K (ti_mint (pa_info acc))) = addr) userAccounts"

section \<open>Input fields\<close>

datatype InputType = AbsoluteValue | Percent

record slider =
  sl_value :: string
  sl_pct :: number
  sl_type :: InputType

definition newSlider :: slider where
  "newSlider = \<lparr>sl_value = [], sl_pct = 0, sl_type = Percent\<rparr>"

text \<open>\<open>convert\<close> of the caller turns a string into a percentage and a percentage into a string.\<close>

definition slider_setValue :: "(string \<Rightarrow> number) \<Rightarrow> string \<Rightarrow> slider \<Rightarrow> slider" where
  "slider_setValue conv val s = s\<lparr>sl_type := AbsoluteValue, sl_value := val, sl_pct := conv val\<rparr>"

definition slider_setPct :: "(number \<Rightarrow> string) \<Rightarrow> number \<Rightarrow> slider \<Rightarrow> slider" where
  "slider_setPct conv val s = s\<lparr>sl_type := Percent, sl_pct := val, sl_value := conv val\<rparr>"

text \<open>
  The amount a deposit or a withdrawal is asked for; \<open>parseFloat\<close> is the host's. A typed amount is scaled
  by the balance, which has to be nonzero: without one the code computes \<open>NaN\<close>, which is no \<open>number\<close> here.
\<close>

definition depositAmount :: "(string \<Rightarrow> number) \<Rightarrow> slider \<Rightarrow> 'k UserBalance \<Rightarrow> number \<Rightarrow> number" where
  "depositAmount parseFloat s b minimumBalance =
     (if sl_type s = Percent
      then js_div (js_mul (sl_pct s) (js_sub (ub_balanceLamports b) (js_mul minimumBalance 2))) 100
      else math_ceil (js_mul (js_sub (ub_balanceLamports b) minimumBalance) (js_div (parseFloat (sl_value s)) (ub_balance b))))"

definition withdrawAmount :: "(string \<Rightarrow> number) \<Rightarrow> slider \<Rightarrow> 'k UserBalance \<Rightarrow> number" where
  "withdrawAmount parseFloat s b =
     (if sl_type s = Percent
      then js_div (js_mul (sl_pct s) (ub_balanceLamports b)) 100
      else math_ceil (js_mul (ub_balanceLamports b) (js_div (parseFloat (sl_value s)) (ub_balance b))))"

section \<open>Chunks partition\<close>

lemma concat_slices: "concat (map (\<lambda>i. take n (drop (i * n) xs)) [0..<k]) = take (k * n) xs"
proof (induction k)
  case (Suc k)
  then show ?case
    using take_add [of "k * n" n xs] by (simp add: add.commute)
qed simp

lemma chunks_count:
  assumes "0 < n" "int (length xs) < MAX_SAFE"
  shows "chunks xs n = map (\<lambda>i. take n (drop (i * n) xs)) [0..<nat \<lceil>(of_nat (length xs) :: rat) / of_nat n\<rceil>]"
proof -
  have "math_ceil (js_div (of_int (int (length xs))) (of_int (int n))) = of_int \<lceil>(of_int (int (length xs)) :: rat) / of_int (int n)\<rceil>"
    using assms by (intro ceil_div_exact) simp_all
  moreover have "(i + 1) * n - i * n = n" for i
    by (simp add: algebra_simps)
  ultimately show ?thesis
    by (simp add: chunks_def)
qed

lemma ceil_bounds:
  assumes "0 < n" "k = nat \<lceil>(of_nat l :: rat) / of_nat n\<rceil>"
  shows "l \<le> k * n" "i < k \<Longrightarrow> i * n < l"
proof -
  let ?q = "(of_nat l :: rat) / of_nat n"
  have "?q \<le> of_int \<lceil>?q\<rceil>" "0 \<le> ?q"
    by simp_all
  then have q: "?q \<le> of_nat k"
    using assms(2) by (simp add: of_nat_nat)
  then have "(of_nat l :: rat) \<le> of_nat k * of_nat n"
    using assms(1) by (simp add: divide_le_eq)
  then show "l \<le> k * n"
    by (simp flip: of_nat_mult)
  assume "i < k"
  then have "int i < \<lceil>?q\<rceil>"
    using assms(2) by linarith
  then have "of_nat i < ?q"
    by (simp add: less_ceiling_iff)
  then have "(of_nat i :: rat) * of_nat n < of_nat l"
    using assms(1) by (simp add: less_divide_eq)
  then show "i * n < l"
    by (simp flip: of_nat_mult)
qed

lemma chunks_concat:
  assumes "0 < n" "int (length xs) < MAX_SAFE"
  shows "concat (chunks xs n) = xs" "list_all (\<lambda>c. c \<noteq> [] \<and> length c \<le> n) (chunks xs n)"
proof -
  note b = ceil_bounds [where l = "length xs", OF assms(1) refl]
  show "concat (chunks xs n) = xs"
    using b(1) by (simp add: chunks_count [OF assms] concat_slices)
  have "drop (i * n) xs \<noteq> []" if "i < nat \<lceil>(of_nat (length xs) :: rat) / of_nat n\<rceil>" for i
    using b(2) [OF that] by simp
  then show "list_all (\<lambda>c. c \<noteq> [] \<and> length c \<le> n) (chunks xs n)"
    using assms(1) by (simp add: chunks_count [OF assms] list_all_iff)
qed

end
