(* ===== verification/UI_Cache.thy ===== *)
theory UI_Cache
  imports UI_Utils "HOL-Library.AList"
begin

text \<open>
  \<open>src/utils/eventEmitter.ts\<close> and the account cache of \<open>src/contexts/accounts.tsx\<close>. A JavaScript \<open>Map\<close> is an
  association list in insertion order. A promise is an entry of a list, identified by its position:
  \<open>cache_query\<close> is the synchronous part of a query, \<open>cache_settle\<close> what runs when the answer of the cluster
  arrives, and \<open>cache_step\<close> lets all operations interleave.
\<close>

section \<open>Events\<close>

datatype cache_event =
    CacheUpdateEvent (ev_id: string) (ev_isNew: bool) (ev_parser: AccountParser)
  | CacheDeleteEvent (ev_id: string)
  | MarketUpdateEvent "string list"
  | CacheClearEvent

fun event_type :: "cache_event \<Rightarrow> string" where
  "event_type (CacheUpdateEvent i n p) = ''CacheUpdate''"
| "event_type (CacheDeleteEvent i) = ''CacheUpdate''"
| "event_type (MarketUpdateEvent ids) = ''MarketUpdate''"
| "event_type CacheClearEvent = ''CacheDelete''"

text \<open>What the listeners registered with \<open>onCache\<close> and \<open>onMarket\<close> are called with.\<close>

definition onCache_args :: "cache_event list \<Rightarrow> cache_event list" where
  "onCache_args evs = filter (\<lambda>e. event_type e = ''CacheUpdate'') evs"

definition onMarket_args :: "cache_event list \<Rightarrow> cache_event list" where
  "onMarket_args evs = filter (\<lambda>e. event_type e = ''MarketUpdate'') evs"

section \<open>State\<close>

record ('k, 'x) promise =
  pr_address :: string
  pr_parser :: "AccountParser option"
  pr_result :: "('k, 'x) parsed option res option"

record 'k mint_promise =
  mp_address :: string
  mp_result :: "'k MintInfo res option"

record ('k, 'x, 't) cache =
  genericCache :: "(string \<times> ('k, 'x) parsed) list"
  pendingCalls :: "(string \<times> nat) list"
  promises :: "('k, 'x) promise list"
  mintCache :: "(string \<times> 'k MintInfo) list"
  pendingMintCalls :: "(string \<times> nat) list"
  mintPromises :: "'k mint_promise list"
  transactionCache :: "(string \<times> 't option) list"
  keyToAccountParser :: "(string \<times> AccountParser) list"
  emitter :: "cache_event list"

definition emptyCache :: "('k, 'x, 't) cache" where
  "emptyCache =
     \<lparr>genericCache = [], pendingCalls = [], promises = [], mintCache = [], pendingMintCalls = [],
      mintPromises = [], transactionCache = [], keyToAccountParser = [], emitter = []\<rparr>"

section \<open>Operations\<close>

definition emit :: "cache_event \<Rightarrow> ('k, 'x, 't) cache \<Rightarrow> ('k, 'x, 't) cache" where
  "emit e st = st\<lparr>emitter := emitter st @ [e]\<rparr>"

definition registerParser :: "string \<Rightarrow> AccountParser \<Rightarrow> ('k, 'x, 't) cache \<Rightarrow> ('k, 'x, 't) cache" where
  "registerParser addr p st =
     (if addr \<noteq> [] then st\<lparr>keyToAccountParser := AList.update addr p (keyToAccountParser st)\<rparr> else st)"

definition cache_get :: "string \<Rightarrow> ('k, 'x, 't) cache \<Rightarrow> ('k, 'x) parsed option" where
  "cache_get key st = map_of (genericCache st) key"

definition storeParsed ::
  "string \<Rightarrow> AccountParser \<Rightarrow> ('k, 'x) parsed \<Rightarrow> ('k, 'x, 't) cache \<Rightarrow> ('k, 'x, 't) cache" where
  "storeParsed addr p account st =
     (let isNew = (map_of (genericCache st) addr = None);
          st = st\<lparr>genericCache := AList.update addr account (genericCache st)\<rparr>
      in emit (CacheUpdateEvent addr isNew p) st)"

definition cache_add ::
  "'k keylib \<Rightarrow> 'k tokenlib \<Rightarrow> ('k, 'x) others \<Rightarrow> string \<Rightarrow> 'k account_info \<Rightarrow> AccountParser option \<Rightarrow>
   ('k, 'x, 't) cache \<Rightarrow> ('k, 'x) parsed option res \<times> ('k, 'x, 't) cache" where
  "cache_add K T X addr obj parser st =
     (if length (acc_data obj) = 0 then (Inr None, st)
      else
        case (case parser of Some p \<Rightarrow> Some p | None \<Rightarrow> map_of (keyToAccountParser st) addr) of
          None \<Rightarrow> (Inl (Error ''Deserializer needs to be registered or passed as a parameter''), st)
        | Some deserialize \<Rightarrow>
            (let st = registerParser addr deserialize st;
                 st = st\<lparr>pendingCalls := AList.delete addr (pendingCalls st)\<rparr>
             in case runParser K T X deserialize (keyOfString K addr) obj of
                  Inl e \<Rightarrow> (Inl e, st)
                | Inr None \<Rightarrow> (Inr None, st)
                | Inr (Some account) \<Rightarrow> (Inr (Some account), storeParsed addr deserialize account st)))"

datatype ('k, 'x) queried = Hit "('k, 'x) parsed" | Await nat

definition cache_query ::
  "string \<Rightarrow> AccountParser option \<Rightarrow> ('k, 'x, 't) cache \<Rightarrow> ('k, 'x) queried \<times> ('k, 'x, 't) cache" where
  "cache_query addr parser st =
     (case map_of (genericCache st) addr of
        Some account \<Rightarrow> (Hit account, st)
      | None \<Rightarrow>
          (case map_of (pendingCalls st) addr of
             Some query \<Rightarrow> (Await query, st)
           | None \<Rightarrow>
               (let query = length (promises st)
                in (Await query,
                    st\<lparr>promises := promises st @ [\<lparr>pr_address = addr, pr_parser = parser, pr_result = None\<rparr>],
                       pendingCalls := AList.update addr query (pendingCalls st)\<rparr>))))"

text \<open>The callback of \<open>getAccountInfo\<close>; its outcome is the value the promise settles to.\<close>

definition cache_settle ::
  "'k keylib \<Rightarrow> 'k tokenlib \<Rightarrow> ('k, 'x) others \<Rightarrow> nat \<Rightarrow> 'k account_info option res \<Rightarrow> ('k, 'x, 't) cache \<Rightarrow> ('k, 'x, 't) cache" where
  "cache_settle K T X query answer st =
     (let pr = promises st ! query;
          (result, st) =
            (case answer of
               Inl e \<Rightarrow> (Inl e, st)
             | Inr None \<Rightarrow> (Inl (Error ''Account not found''), st)
             | Inr (Some d) \<Rightarrow> cache_add K T X (pr_address pr) d (pr_parser pr) st)
      in st\<lparr>promises := (promises st)[query := pr\<lparr>pr_result := Some result\<rparr>]\<rparr>)"

definition cache_delete :: "string \<Rightarrow> ('k, 'x, 't) cache \<Rightarrow> bool \<times> ('k, 'x, 't) cache" where
  "cache_delete key st =
     (if map_of (genericCache st) key \<noteq> None
      then (True, emit (CacheDeleteEvent key) (st\<lparr>genericCache := AList.delete key (genericCache st)\<rparr>))
      else (False, st))"

definition byParser :: "AccountParser \<Rightarrow> ('k, 'x, 't) cache \<Rightarrow> string list" where
  "byParser parser st =
     filter (\<lambda>i. map_of (keyToAccountParser st) i = Some parser) (map fst (keyToAccountParser st))"

definition getMintInfo :: "'k keylib \<Rightarrow> 'k tokenlib \<Rightarrow> 'k account_info option res \<Rightarrow> 'k MintInfo res" where
  "getMintInfo K T answer =
     bindE answer (\<lambda>acct.
     case acct of None \<Rightarrow> Inl (Error ''Failed to find mint account'') | Some a \<Rightarrow> deserializeMint K T (acc_data a))"

datatype 'k queried_mint = HitMint "'k MintInfo" | AwaitMint nat

definition queryMint :: "string \<Rightarrow> ('k, 'x, 't) cache \<Rightarrow> 'k queried_mint \<times> ('k, 'x, 't) cache" where
  "queryMint addr st =
     (case map_of (mintCache st) addr of
        Some mint \<Rightarrow> (HitMint mint, st)
      | None \<Rightarrow>
          (case map_of (pendingMintCalls st) addr of
             Some query \<Rightarrow> (AwaitMint query, st)
           | None \<Rightarrow>
               (let query = length (mintPromises st)
                in (AwaitMint query,
                    st\<lparr>mintPromises := mintPromises st @ [\<lparr>mp_address = addr, mp_result = None\<rparr>],
                       pendingMintCalls := AList.update addr query (pendingMintCalls st)\<rparr>))))"

definition settleMint ::
  "'k keylib \<Rightarrow> 'k tokenlib \<Rightarrow> nat \<Rightarrow> 'k account_info option res \<Rightarrow> ('k, 'x, 't) cache \<Rightarrow> ('k, 'x, 't) cache" where
  "settleMint K T query answer st =
     (let pr = mintPromises st ! query;
          result = getMintInfo K T answer;
          st = (case result of
                  Inl e \<Rightarrow> st
                | Inr d \<Rightarrow> st\<lparr>pendingMintCalls := AList.delete (mp_address pr) (pendingMintCalls st),
                             mintCache := AList.update (mp_address pr) d (mintCache st)\<rparr>)
      in st\<lparr>mintPromises := (mintPromises st)[query := pr\<lparr>mp_result := Some result\<rparr>]\<rparr>)"

definition getMint :: "string \<Rightarrow> ('k, 'x, 't) cache \<Rightarrow> 'k MintInfo option" where
  "getMint key st = map_of (mintCache st) key"

definition addMint ::
  "'k keylib \<Rightarrow> 'k tokenlib \<Rightarrow> string \<Rightarrow> 'k account_info \<Rightarrow> ('k, 'x, 't) cache \<Rightarrow> 'k MintInfo res \<times> ('k, 'x, 't) cache" where
  "addMint K T i obj st =
     (case deserializeMint K T (acc_data obj) of
        Inl e \<Rightarrow> (Inl e, st)
      | Inr mint \<Rightarrow> (Inr mint, st\<lparr>mintCache := AList.update i mint (mintCache st)\<rparr>))"

definition addTransaction :: "string \<Rightarrow> 't option \<Rightarrow> ('k, 'x, 't) cache \<Rightarrow> ('k, 'x, 't) cache" where
  "addTransaction signature t st = st\<lparr>transactionCache := AList.update signature t (transactionCache st)\<rparr>"

definition addBulkTransactions :: "('t \<Rightarrow> string) \<Rightarrow> 't list \<Rightarrow> ('k, 'x, 't) cache \<Rightarrow> ('k, 'x, 't) cache" where
  "addBulkTransactions signatureOf txs st = foldl (\<lambda>st t. addTransaction (signatureOf t) (Some t) st) st txs"

definition getTransaction :: "string \<Rightarrow> ('k, 'x, 't) cache \<Rightarrow> 't option option" where
  "getTransaction signature st = map_of (transactionCache st) signature"

definition cache_clear :: "('k, 'x, 't) cache \<Rightarrow> ('k, 'x, 't) cache" where
  "cache_clear st = emit CacheClearEvent (st\<lparr>genericCache := [], mintCache := [], transactionCache := []\<rparr>)"

section \<open>Following the wallet\<close>

definition updateCache ::
  "'k keylib \<Rightarrow> (number \<Rightarrow> int) \<Rightarrow> 'k option \<Rightarrow> 'k account_info option \<Rightarrow> ('k, 'x, 't) cache \<Rightarrow> ('k, 'x, 't) cache" where
  "updateCache K new_u64 pk account st =
     (case pk of
        None \<Rightarrow> st
      | Some key \<Rightarrow>
          (case wrapNativeAccount K new_u64 key account of
             None \<Rightarrow> st
           | Some wrapped \<Rightarrow>
               (let i = toBase58 K key;
                    w = \<lparr>pa_pubkey = pa_pubkey wrapped, pa_account = pa_account wrapped, pa_info = TokenI (pa_info wrapped)\<rparr>;
                    st = registerParser i TokenAccountParser st;
                    st = st\<lparr>genericCache := AList.update i w (genericCache st)\<rparr>
                in emit (CacheUpdateEvent i False TokenAccountParser) st)))"

fun precacheAccounts ::
  "'k keylib \<Rightarrow> 'k tokenlib \<Rightarrow> ('k, 'x) others \<Rightarrow> ('k \<times> 'k account_info) list \<Rightarrow> ('k, 'x, 't) cache \<Rightarrow> unit res \<times> ('k, 'x, 't) cache" where
  "precacheAccounts K T X [] st = (Inr (), st)"
| "precacheAccounts K T X ((k, account) # as) st =
     (case cache_add K T X (toBase58 K k) account (Some TokenAccountParser) st of
        (Inl e, st) \<Rightarrow> (Inl e, st)
      | (Inr _, st) \<Rightarrow> precacheAccounts K T X as st)"

definition tokenAccountOf :: "('k, 'x) parsed \<Rightarrow> 'k TokenAccount option" where
  "tokenAccountOf a =
     (case pa_info a of
        TokenI i \<Rightarrow> Some \<lparr>pa_pubkey = pa_pubkey a, pa_account = pa_account a, pa_info = i\<rparr>
      | _ \<Rightarrow> None)"

definition tokenAccounts :: "('k, 'x, 't) cache \<Rightarrow> 'k TokenAccount list" where
  "tokenAccounts st =
     List.map_filter (\<lambda>i. case cache_get i st of None \<Rightarrow> None | Some a \<Rightarrow> tokenAccountOf a) (byParser TokenAccountParser st)"

definition selectUserAccounts :: "'k keylib \<Rightarrow> 'k option \<Rightarrow> ('k, 'x, 't) cache \<Rightarrow> 'k TokenAccount list" where
  "selectUserAccounts K pk st =
     (case pk of
        None \<Rightarrow> []
      | Some key \<Rightarrow> filter (\<lambda>a. toBase58 K (ti_owner (pa_info a)) = toBase58 K key) (tokenAccounts st))"

definition onProgramAccountChange ::
  "'k keylib \<Rightarrow> 'k tokenlib \<Rightarrow> ('k, 'x) others \<Rightarrow> string list \<Rightarrow> string \<Rightarrow> 'k account_info \<Rightarrow> ('k, 'x, 't) cache \<Rightarrow> unit res \<times> ('k, 'x, 't) cache" where
  "onProgramAccountChange K T X PRECACHED_OWNERS i acct st =
     (if length (acc_data acct) = AccountLayout_span T then
        (case deserializeAccount K T (acc_data acct) of
           Inl e \<Rightarrow> (Inl e, st)
         | Inr d \<Rightarrow>
             if toBase58 K (ti_owner d) \<in> set PRECACHED_OWNERS then
               (case cache_add K T X i acct (Some TokenAccountParser) st of
                  (Inl e, st) \<Rightarrow> (Inl e, st)
                | (Inr _, st) \<Rightarrow> (Inr (), st))
             else (Inr (), st))
      else (Inr (), st))"

text \<open>The accounts the provider subscribes to: those announced as new.\<close>

definition subscribed :: "('k, 'x, 't) cache \<Rightarrow> string list" where
  "subscribed st =
     List.map_filter (\<lambda>e. case e of CacheUpdateEvent i True p \<Rightarrow> Some i | _ \<Rightarrow> None) (onCache_args (emitter st))"

section \<open>Many accounts at once\<close>

text \<open>An account as the RPC answers it; its data is a pair of which the first part is the encoded bytes.\<close>

record 'k raw_info =
  rw_owner :: "'k keyref"
  rw_lamports :: number
  rw_data0 :: string

datatype 'k many_answer = ManyError string | ManyValue "'k raw_info option list" | ManyNothing

definition getMultipleAccountsCore :: "(string list \<Rightarrow> 'k many_answer) \<Rightarrow> string list \<Rightarrow> (string list \<times> 'k raw_info option list) res" where
  "getMultipleAccountsCore rpc ks =
     (case rpc ks of
        ManyError m \<Rightarrow> Inl (Error (''failed to get info about account '' @ m))
      | ManyValue array \<Rightarrow> Inr (ks, array)
      | ManyNothing \<Rightarrow> Inl (Error []))"

definition infoOfRaw :: "(string \<Rightarrow> buffer) \<Rightarrow> 'k raw_info \<Rightarrow> 'k account_info" where
  "infoOfRaw b64dec r =
     \<lparr>acc_owner = rw_owner r, lamports = rw_lamports r, acc_data = b64dec (rw_data0 r)\<rparr>"

definition getMultipleAccounts ::
  "(string \<Rightarrow> buffer) \<Rightarrow> (string list \<Rightarrow> 'k many_answer) \<Rightarrow> string list \<Rightarrow> (string list \<times> 'k account_info list) res" where
  "getMultipleAccounts b64dec rpc ks =
     bindE (mapE (getMultipleAccountsCore rpc) (chunks ks 99)) (\<lambda>result.
     Inr (ks, concat (map (\<lambda>(_, array). List.map_filter (map_option (infoOfRaw b64dec)) array) result)))"

end
