(* ===== verification/UI_Cache_Invariants.thy ===== *)
theory UI_Cache_Invariants
  imports UI_Cache
begin

text \<open>
  What holds of the account cache however its operations interleave: \<open>cache_reach\<close> are the states that
  any sequence of queries, answers, updates, deletions and resets leads to.
\<close>

section \<open>Reachable states\<close>

inductive cache_step ::
  "'k keylib \<Rightarrow> 'k tokenlib \<Rightarrow> ('k, 'x) others \<Rightarrow> ('k, 'x, 't) cache \<Rightarrow> ('k, 'x, 't) cache \<Rightarrow> bool" for K T X where
  query: "addr \<noteq> [] \<Longrightarrow> cache_step K T X st (snd (cache_query addr p st))"
| settle: "q < length (promises st) \<Longrightarrow> pr_result (promises st ! q) = None \<Longrightarrow>
    cache_step K T X st (cache_settle K T X q answer st)"
| add: "addr \<noteq> [] \<Longrightarrow> cache_step K T X st (snd (cache_add K T X addr obj p st))"
| delete: "cache_step K T X st (snd (cache_delete addr st))"
| register: "cache_step K T X st (registerParser addr parser st)"
| native: "(\<And>k. pk = Some k \<Longrightarrow> toBase58 K k \<noteq> []) \<Longrightarrow> cache_step K T X st (updateCache K new_u64 pk account st)"
| query_mint: "cache_step K T X st (snd (queryMint addr st))"
| settle_mint: "q < length (mintPromises st) \<Longrightarrow> cache_step K T X st (settleMint K T q answer st)"
| add_mint: "cache_step K T X st (snd (addMint K T addr obj st))"
| add_transaction: "cache_step K T X st (addTransaction sig t st)"
| clear: "cache_step K T X st (cache_clear st)"

inductive cache_reach :: "'k keylib \<Rightarrow> 'k tokenlib \<Rightarrow> ('k, 'x) others \<Rightarrow> ('k, 'x, 't) cache \<Rightarrow> bool" for K T X where
  init: "cache_reach K T X emptyCache"
| step: "cache_reach K T X st \<Longrightarrow> cache_step K T X st st' \<Longrightarrow> cache_reach K T X st'"

section \<open>The invariant\<close>

text \<open>Every cached account has a registered parser.\<close>

definition parsers_known :: "('k, 'x, 't) cache \<Rightarrow> bool" where
  "parsers_known st \<longleftrightarrow> dom (map_of (genericCache st)) \<subseteq> dom (map_of (keyToAccountParser st))"

text \<open>A pending call is a query for its own address that has not brought an account.\<close>

definition pending_ok :: "('k, 'x, 't) cache \<Rightarrow> bool" where
  "pending_ok st \<longleftrightarrow>
     (\<forall>a q. map_of (pendingCalls st) a = Some q \<longrightarrow>
        q < length (promises st) \<and> pr_address (promises st ! q) = a \<and>
        (\<forall>acc. pr_result (promises st ! q) \<noteq> Some (Inr (Some acc)))) \<and>
     (\<forall>pr \<in> set (promises st). pr_address pr \<noteq> [])"

definition keys_distinct :: "('k, 'x, 't) cache \<Rightarrow> bool" where
  "keys_distinct st \<longleftrightarrow>
     distinct (map fst (genericCache st)) \<and> distinct (map fst (pendingCalls st)) \<and> distinct (map fst (keyToAccountParser st))"

definition cache_inv :: "('k, 'x, 't) cache \<Rightarrow> bool" where
  "cache_inv st \<longleftrightarrow> parsers_known st \<and> pending_ok st \<and> keys_distinct st"

lemmas cache_inv_defs = cache_inv_def parsers_known_def pending_ok_def keys_distinct_def

lemmas alist_simps = update_conv' delete_conv' distinct_update distinct_delete

declare map_of_eq_Some_iff [simp del] Some_eq_map_of_iff [simp del]

lemma inv_frame:
  "genericCache st' = genericCache st \<Longrightarrow> pendingCalls st' = pendingCalls st \<Longrightarrow> promises st' = promises st \<Longrightarrow>
   keyToAccountParser st' = keyToAccountParser st \<Longrightarrow> cache_inv st \<Longrightarrow> cache_inv st'"
  by (simp add: cache_inv_defs)

lemma inv_register: "cache_inv st \<Longrightarrow> cache_inv (registerParser addr p st)"
  by (auto simp: cache_inv_defs registerParser_def alist_simps)

lemma inv_unpend: "cache_inv st \<Longrightarrow> cache_inv (st\<lparr>pendingCalls := AList.delete addr (pendingCalls st)\<rparr>)"
  by (auto simp: cache_inv_defs alist_simps)

lemma inv_store:
  "cache_inv st \<Longrightarrow> map_of (keyToAccountParser st) addr \<noteq> None \<Longrightarrow>
   cache_inv (st\<lparr>genericCache := AList.update addr acc (genericCache st)\<rparr>)"
  by (auto simp: cache_inv_defs alist_simps)

lemma inv_emit [simp]: "cache_inv (emit e st) = cache_inv st"
  by (simp add: cache_inv_defs emit_def)

lemma registered: "addr \<noteq> [] \<Longrightarrow> map_of (keyToAccountParser (registerParser addr p st)) addr = Some p"
  by (simp add: registerParser_def alist_simps)

lemma cache_add_effect:
  assumes "cache_add K T X addr obj p st = (r, st')"
  shows "promises st' = promises st"
    "r = Inr (Some acc) \<Longrightarrow> map_of (pendingCalls st') addr = None"
    "map_of (pendingCalls st') a = Some q \<Longrightarrow> map_of (pendingCalls st) a = Some q"
  using assms
  by (auto simp: cache_add_def Let_def storeParsed_def emit_def registerParser_def alist_simps
    split: option.splits sum.splits if_splits)

lemma inv_add:
  assumes "cache_inv st" "addr \<noteq> []" "cache_add K T X addr obj p st = (r, st')"
  shows "cache_inv st'"
proof -
  let ?reg = "\<lambda>d. (registerParser addr d st)\<lparr>pendingCalls := AList.delete addr (pendingCalls (registerParser addr d st))\<rparr>"
  have reg: "cache_inv (?reg d)" for d
    using assms(1) by (intro inv_unpend inv_register)
  moreover have "cache_inv (storeParsed addr d acc (?reg d))" for d acc
    using inv_store [OF reg [of d], of addr acc] registered [OF assms(2), of d st] by (simp add: storeParsed_def Let_def)
  ultimately show ?thesis
    using assms(1,3) by (auto simp: cache_add_def Let_def split: option.splits sum.splits if_splits)
qed

lemma inv_settle_result:
  assumes "cache_inv st" "q < length (promises st)"
    "\<And>a acc. map_of (pendingCalls st) a = Some q \<Longrightarrow> r \<noteq> Inr (Some acc)"
  shows "cache_inv (st\<lparr>promises := (promises st)[q := (promises st ! q)\<lparr>pr_result := Some r\<rparr>]\<rparr>)"
  using assms by (auto simp: cache_inv_defs nth_list_update dest!: set_update_subset_insert [THEN subsetD])

lemma inv_settle:
  assumes "cache_inv st" "q < length (promises st)"
  shows "cache_inv (cache_settle K T X q answer st)"
proof (cases answer)
  case (Inl e)
  then show ?thesis
    using inv_settle_result [OF assms] by (simp add: cache_settle_def)
next
  case (Inr ans)
  show ?thesis
  proof (cases ans)
    case None
    then show ?thesis
      using Inr inv_settle_result [OF assms] by (simp add: cache_settle_def)
  next
    case (Some d)
    let ?pr = "promises st ! q"
    obtain r st' where add: "cache_add K T X (pr_address ?pr) d (pr_parser ?pr) st = (r, st')"
      by fastforce
    note eff = cache_add_effect [OF add]
    have "pr_address ?pr \<noteq> []"
      using assms by (auto simp: cache_inv_defs)
    then have "cache_inv st'"
      using inv_add [OF assms(1) _ add] by blast
    moreover have "pr_address ?pr = a" if "map_of (pendingCalls st') a = Some q" for a
      using eff(3) [OF that] assms(1) by (simp add: cache_inv_defs)
    then have "r \<noteq> Inr (Some acc)" if "map_of (pendingCalls st') a = Some q" for a acc
      using that eff(2) by force
    ultimately show ?thesis
      using Inr Some add eff(1) assms(2) inv_settle_result [of st' q r] by (simp add: cache_settle_def)
  qed
qed

lemma inv_query: "cache_inv st \<Longrightarrow> addr \<noteq> [] \<Longrightarrow> cache_inv (snd (cache_query addr p st))"
  by (auto simp: cache_inv_defs cache_query_def Let_def alist_simps nth_append less_SucI split: option.splits if_splits)

lemma inv_native:
  assumes "cache_inv st" "\<And>k. pk = Some k \<Longrightarrow> toBase58 K k \<noteq> []"
  shows "cache_inv (updateCache K new_u64 pk account st)"
proof -
  have "cache_inv ((registerParser i p st)\<lparr>genericCache := AList.update i w (genericCache (registerParser i p st))\<rparr>)"
    if "i \<noteq> []" for i p w
    using registered [OF that, of p st] by (intro inv_store inv_register assms(1)) simp
  then show ?thesis
    using assms by (auto simp: updateCache_def Let_def split: option.splits)
qed

lemma inv_delete: "cache_inv st \<Longrightarrow> cache_inv (snd (cache_delete addr st))"
  by (auto simp: cache_delete_def cache_inv_defs emit_def alist_simps)

lemma inv_others:
  assumes "cache_inv st"
  shows "cache_inv (snd (queryMint addr st))" "cache_inv (settleMint K T q answer st)"
    "cache_inv (snd (addMint K T addr obj st))" "cache_inv (addTransaction sig t st)" "cache_inv (cache_clear st)"
proof -
  show "cache_inv (cache_clear st)"
    using assms by (auto simp: cache_clear_def cache_inv_defs emit_def)
qed (rule inv_frame [OF _ _ _ _ assms]; simp add: queryMint_def settleMint_def addMint_def addTransaction_def Let_def
      split: option.splits sum.splits)+

lemma cache_step_inv: "cache_step K T X st st' \<Longrightarrow> cache_inv st \<Longrightarrow> cache_inv st'"
proof (induction rule: cache_step.induct)
  case (add addr st obj p)
  then show ?case
    using inv_add [OF _ add(1)] by (metis prod.collapse)
qed (simp_all add: inv_query inv_settle inv_register inv_native inv_delete inv_others)

lemma cache_reach_inv: "cache_reach K T X st \<Longrightarrow> cache_inv st"
  by (induction rule: cache_reach.induct) (simp add: cache_inv_defs emptyCache_def, blast intro: cache_step_inv)

lemma byParser_registered: "map_of (keyToAccountParser st) a = Some p \<Longrightarrow> a \<in> set (byParser p st)"
  by (auto simp: byParser_def dest: map_of_SomeD intro: rev_image_eqI)

section \<open>What the cache promises its clients\<close>

text \<open>
  The contract of \<open>cache.add\<close> and \<open>cache.get\<close> towards the code that fills the cache from a batch of answers: an
  account whose parser is known and reads it can be fetched afterwards, and no other account is touched.
\<close>

locale account_store =
  fixes fetch :: "'a \<Rightarrow> 's \<Rightarrow> 'v option"
    and add :: "'a \<Rightarrow> 'i \<Rightarrow> 's \<Rightarrow> 'r res \<times> 's"
    and reads :: "'a \<Rightarrow> 'i \<Rightarrow> 'v \<Rightarrow> bool"
    and known :: "'a \<Rightarrow> 's \<Rightarrow> bool"
  assumes add_known: "known a s \<Longrightarrow> reads a i v \<Longrightarrow>
    \<exists>r s'. add a i s = (Inr r, s') \<and> fetch a s' = Some v \<and> (\<forall>b. b \<noteq> a \<longrightarrow> fetch b s' = fetch b s) \<and> (\<forall>b. known b s \<longrightarrow> known b s')"
begin

lemma adds_all:
  assumes "\<And>s. addall [] s = (Inr (), s)"
    and "\<And>a i xs s. addall ((a, i) # xs) s = (case add a i s of (Inl e, s') \<Rightarrow> (Inl e, s') | (Inr _, s') \<Rightarrow> addall xs s')"
    and "distinct (map fst xs)" "list_all (\<lambda>(a, i). known a s \<and> reads a i (v a)) xs"
  shows "\<exists>s'. addall xs s = (Inr (), s') \<and> (\<forall>a. fetch a s' = (if a \<in> fst ` set xs then Some (v a) else fetch a s))"
  using assms(3,4)
proof (induction xs arbitrary: s)
  case Nil
  then show ?case
    by (simp add: assms(1))
next
  case (Cons x xs)
  obtain a i where x: "x = (a, i)"
    by fastforce
  obtain r s1 where s1: "add a i s = (Inr r, s1)" "fetch a s1 = Some (v a)" "\<And>b. b \<noteq> a \<Longrightarrow> fetch b s1 = fetch b s"
      "\<And>b. known b s \<Longrightarrow> known b s1"
    using add_known [of a s i "v a"] Cons.prems(2) x by auto
  have "list_all (\<lambda>(a, i). known a s1 \<and> reads a i (v a)) xs"
    using Cons.prems(2) s1(4) by (auto simp: list_all_iff)
  then obtain s2 where "addall xs s1 = (Inr (), s2)" "\<forall>b. fetch b s2 = (if b \<in> fst ` set xs then Some (v b) else fetch b s1)"
    using Cons.IH Cons.prems(1) by fastforce
  then show ?case
    using s1 x by (simp add: assms(2))
qed

end

definition reads_as ::
  "'k keylib \<Rightarrow> 'k tokenlib \<Rightarrow> ('k, 'x) others \<Rightarrow> (string \<Rightarrow> AccountParser) \<Rightarrow> string \<Rightarrow> 'k account_info \<Rightarrow> ('k, 'x) parsed \<Rightarrow> bool" where
  "reads_as K T X ps a i v \<longleftrightarrow> a \<noteq> [] \<and> acc_data i \<noteq> [] \<and> runParser K T X (ps a) (keyOfString K a) i = Inr (Some v)"

definition known_as :: "(string \<Rightarrow> AccountParser) \<Rightarrow> string \<Rightarrow> ('k, 'x, 't) cache \<Rightarrow> bool" where
  "known_as ps a st \<longleftrightarrow> map_of (keyToAccountParser st) a = Some (ps a)"

interpretation store: account_store cache_get "\<lambda>a i. cache_add K T X a i None" "reads_as K T X ps" "known_as ps"
  by unfold_locales (auto simp: reads_as_def known_as_def cache_add_def cache_get_def storeParsed_def registerParser_def
    emit_def alist_simps)

section \<open>Properties\<close>

text \<open>
  C26. However queries, answers, updates and resets interleave: a cached account is always listed under
  the parser registered for it, so that searching the cache by parser misses none; a pending call is a
  request for that very address which has not brought an account; and no address is held twice.
\<close>

theorem cache_invariant:
  assumes "cache_reach K T X st"
  shows "(\<forall>a acc. cache_get a st = Some acc \<longrightarrow> (\<exists>p. map_of (keyToAccountParser st) a = Some p \<and> a \<in> set (byParser p st))) \<and>
    (\<forall>a q. map_of (pendingCalls st) a = Some q \<longrightarrow> q < length (promises st) \<and> pr_address (promises st ! q) = a \<and>
      (\<forall>acc. pr_result (promises st ! q) \<noteq> Some (Inr (Some acc)))) \<and>
    distinct (map fst (genericCache st)) \<and> distinct (map fst (pendingCalls st))"
proof -
  have inv: "cache_inv st"
    using assms by (rule cache_reach_inv)
  then have "\<exists>p. map_of (keyToAccountParser st) a = Some p" if "cache_get a st = Some acc" for a acc
    using that by (auto simp: cache_inv_defs cache_get_def)
  then have "\<exists>p. map_of (keyToAccountParser st) a = Some p \<and> a \<in> set (byParser p st)" if "cache_get a st = Some acc" for a acc
    using that byParser_registered by metis
  moreover have "pending_ok st" "keys_distinct st"
    using inv by (simp_all add: cache_inv_def)
  ultimately show ?thesis
    by (simp add: pending_ok_def keys_distinct_def)
qed

lemma sample_run:
  fixes X :: "(key, 'x) others"
  defines "st \<equiv> cache_settle sample_keys sample_tokenlib X 0 (Inr (Some (sample_account [1])))
    (snd (cache_query ''a'' (Some GenericAccountParser) (emptyCache :: (key, 'x, unit) cache)))"
  shows "cache_reach sample_keys sample_tokenlib X st" "cache_get ''a'' st \<noteq> None"
proof -
  let ?q = "snd (cache_query ''a'' (Some GenericAccountParser) (emptyCache :: (key, 'x, unit) cache))"
  have "cache_reach sample_keys sample_tokenlib X ?q"
    by (rule cache_reach.step [OF cache_reach.init cache_step.query]) simp
  then show "cache_reach sample_keys sample_tokenlib X st"
    unfolding st_def by (rule cache_reach.step [OF _ cache_step.settle]) (simp_all add: cache_query_def emptyCache_def)
  show "cache_get ''a'' st \<noteq> None"
    by (simp add: st_def cache_settle_def cache_query_def emptyCache_def cache_add_def sample_account_def registerParser_def
      storeParsed_def emit_def cache_get_def)
qed

theorem cache_invariant_witness:
  "\<exists>st :: (key, unit, unit) cache. cache_get ''a'' st \<noteq> None \<and>
    (\<exists>p. map_of (keyToAccountParser st) ''a'' = Some p \<and> ''a'' \<in> set (byParser p st))"
  using cache_invariant [OF sample_run(1) [of "\<lambda>n k i. Inr (Some ())"]] sample_run(2) [of "\<lambda>n k i. Inr (Some ())"] by blast

text \<open>
  A failed query is never repeated: once the request for an address has failed, because the cluster
  was unreachable or the account did not exist yet, every later query for that address waits on the same
  rejected promise and sends no new request, even when the account exists by then.
\<close>

lemma failed_query_sticks:
  assumes "cache_reach K T X st" "cache_get addr st = None" "map_of (pendingCalls st) addr = Some q"
    "answer = Inl e \<or> answer = Inr None" "st' = cache_settle K T X q answer st"
  shows "cache_query addr p st' = (Await q, st') \<and> (\<exists>e'. pr_result (promises st' ! q) = Some (Inl e'))"
proof -
  have "q < length (promises st)"
    using cache_reach_inv [OF assms(1)] assms(3) by (simp add: cache_inv_defs)
  then show ?thesis
    using assms(2-5) by (auto simp: cache_settle_def cache_query_def cache_get_def)
qed

lemma failed_query_sticks_witness:
  "\<exists>st' :: (key, unit, unit) cache. cache_query ''a'' None st' = (Await 0, st') \<and>
    (\<exists>e'. pr_result (promises st' ! 0) = Some (Inl e'))"
proof -
  let ?X = "\<lambda>n k i. Inr (Some ())"
  let ?st = "snd (cache_query ''a'' (Some MintParser) (emptyCache :: (key, unit, unit) cache))"
  have r: "cache_reach sample_keys sample_tokenlib ?X ?st"
    by (rule cache_reach.step [OF cache_reach.init cache_step.query]) simp
  have "cache_get ''a'' ?st = None" "map_of (pendingCalls ?st) ''a'' = Some 0"
    by (simp_all add: cache_query_def emptyCache_def cache_get_def)
  then show ?thesis
    using failed_query_sticks [OF r _ _ _ refl, of "''a''" 0 "Inr None" TypeError None] by blast
qed

text \<open>Listeners for updates are also called, with no \<open>isNew\<close> and no parser, when an account is deleted.\<close>

lemma delete_reported_as_update:
  "cache_get a st \<noteq> None \<Longrightarrow> onCache_args (emitter (snd (cache_delete a st))) = onCache_args (emitter st) @ [CacheDeleteEvent a]"
  by (simp add: cache_delete_def cache_get_def emit_def onCache_args_def)

end
