(* ===== verification/UI_Markets.thy ===== *)
theory UI_Markets
  imports UI_Cache_Invariants "HOL-Library.Multiset"
begin

text \<open>
  \<open>src/contexts/market.tsx\<close> and \<open>src/models/dex\<close>: the Serum markets the client watches for prices. The package
  serum is an argument. The accounts observed for the markets on the screen are counted; the multiset of
  live subscriptions is the abstract state the counting is proved to implement.
\<close>

section \<open>The package and its records\<close>

record 'k serum_market =
  sm_name :: string
  sm_address :: 'k
  sm_programId :: 'k

record 'k dex_market =
  dm_baseMint :: 'k
  dm_quoteMint :: 'k
  dm_bids :: 'k
  dm_asks :: 'k

datatype ('k, 'b) serum_info = DexI "'k dex_market" | BookI 'b

record ('k, 'b) serum =
  TOKEN_MINTS :: "(string \<times> 'k) list"
  MARKETS :: "'k serum_market list"
  market_decode :: "'k \<Rightarrow> buffer \<Rightarrow> 'k dex_market res"
  orderbook_decode :: "buffer \<Rightarrow> 'b res"
  getL2 :: "'k dex_market \<Rightarrow> nat \<Rightarrow> nat \<Rightarrow> 'b \<Rightarrow> (number \<times> number) list"

type_synonym ('k, 'b, 't) market_cache = "('k, ('k, 'b) serum_info, 't) cache"

definition DEFAULT_DEX_ID :: "'k keylib \<Rightarrow> 'k" where
  "DEFAULT_DEX_ID K = keyOfString K ''EUqojwWA2rd19FZrzeBncJsm38Jm1hEhE3zsmX3bRc2o''"

definition DexMarketParser :: AccountParser where
  "DexMarketParser = OtherParser 0"

definition OrderBookParser :: AccountParser where
  "OrderBookParser = OtherParser 1"

definition serumParsers :: "'k keylib \<Rightarrow> ('k, 'b) serum \<Rightarrow> ('k, ('k, 'b) serum_info) others" where
  "serumParsers K S n key acct =
     (if OtherParser n = DexMarketParser then
        (let program = (case find (\<lambda>m. sm_address m = key) (MARKETS S) of Some m \<Rightarrow> sm_programId m | None \<Rightarrow> DEFAULT_DEX_ID K)
         in bindE (market_decode S program (acc_data acct)) (\<lambda>d. Inr (Some (DexI d))))
      else bindE (orderbook_decode S (acc_data acct)) (\<lambda>b. Inr (Some (BookI b))))"

text \<open>
  Parsing a market also registers the parsers of its mints and books. The parser runs inside
  \<open>cache.add\<close>, which after it touches neither the registrations nor the result.
\<close>

definition addMarket ::
  "'k keylib \<Rightarrow> 'k tokenlib \<Rightarrow> ('k, 'b) serum \<Rightarrow> string \<Rightarrow> 'k account_info \<Rightarrow> ('k, 'b, 't) market_cache \<Rightarrow> unit res \<times> ('k, 'b, 't) market_cache" where
  "addMarket K T S addr item st =
     (case cache_add K T (serumParsers K S) addr item (Some DexMarketParser) st of
        (Inl e, st) \<Rightarrow> (Inl e, st)
      | (Inr None, st) \<Rightarrow> (Inr (), st)
      | (Inr (Some a), st) \<Rightarrow>
          (case pa_info a of
             OtherI (DexI d) \<Rightarrow>
               (let st = registerParser (toBase58 K (dm_baseMint d)) MintParser st;
                    st = registerParser (toBase58 K (dm_quoteMint d)) MintParser st;
                    st = registerParser (toBase58 K (dm_bids d)) OrderBookParser st;
                    st = registerParser (toBase58 K (dm_asks d)) OrderBookParser st
                in (Inr (), st))
           | _ \<Rightarrow> (Inr (), st)))"

section \<open>Markets by mint\<close>

definition MINT_TO_MARKET :: "(string \<times> string) list" where
  "MINT_TO_MARKET = []"

text \<open>The values of a \<open>Set\<close> built from a list: first occurrences, in order.\<close>

definition setValues :: "'a list \<Rightarrow> 'a list" where
  "setValues xs = rev (remdups (rev xs))"

definition serumToken :: "'k keylib \<Rightarrow> ('k, 'b) serum \<Rightarrow> string \<Rightarrow> string option" where
  "serumToken K S mint = map_option fst (find (\<lambda>(name, a). toBase58 K a = mint) (TOKEN_MINTS S))"

definition marketInfoFor :: "'k keylib \<Rightarrow> ('k, 'b) serum \<Rightarrow> string \<Rightarrow> 'k serum_market option" where
  "marketInfoFor K S mint =
     (let marketAddress = map_of MINT_TO_MARKET mint;
          marketName = (case serumToken K S mint of Some n \<Rightarrow> n | None \<Rightarrow> ''undefined'') @ ''/USDC''
      in find (\<lambda>m. sm_name m = marketName \<or> Some (toBase58 K (sm_address m)) = marketAddress) (MARKETS S))"

definition marketByMint :: "'k keylib \<Rightarrow> ('k, 'b) serum \<Rightarrow> string list \<Rightarrow> (string \<times> 'k serum_market) list" where
  "marketByMint K S marketMints =
     List.map_filter (\<lambda>mint. map_option (Pair mint) (marketInfoFor K S mint)) (setValues marketMints)"

definition precacheMarkets :: "string list \<Rightarrow> string list \<Rightarrow> string list" where
  "precacheMarkets marketMints mints =
     (let newMints = setValues (marketMints @ mints)
      in if length marketMints \<noteq> length newMints then newMints else marketMints)"

section \<open>Reading accounts\<close>

fun addAll ::
  "'k keylib \<Rightarrow> 'k tokenlib \<Rightarrow> ('k, 'x) others \<Rightarrow> (string \<times> 'k account_info) list \<Rightarrow> ('k, 'x, 't) cache \<Rightarrow> unit res \<times> ('k, 'x, 't) cache" where
  "addAll K T X [] st = (Inr (), st)"
| "addAll K T X ((addr, item) # items) st =
     (case cache_add K T X addr item None st of
        (Inl e, st) \<Rightarrow> (Inl e, st)
      | (Inr _, st) \<Rightarrow> addAll K T X items st)"

definition refreshAccounts ::
  "'k keylib \<Rightarrow> 'k tokenlib \<Rightarrow> ('k, 'x) others \<Rightarrow> (string \<Rightarrow> buffer) \<Rightarrow> (string list \<Rightarrow> 'k many_answer) \<Rightarrow> string list \<Rightarrow>
   ('k, 'x, 't) cache \<Rightarrow> unit res \<times> ('k, 'x, 't) cache" where
  "refreshAccounts K T X b64dec rpc ks st =
     (if length ks = 0 then (Inr (), st)
      else
        case getMultipleAccounts b64dec rpc ks of
          Inl e \<Rightarrow> (Inl e, st)
        | Inr (ks, array) \<Rightarrow> addAll K T X (zip ks array) st)"

fun addMarkets ::
  "'k keylib \<Rightarrow> 'k tokenlib \<Rightarrow> ('k, 'b) serum \<Rightarrow> (string \<times> 'k account_info) list \<Rightarrow> ('k, 'b, 't) market_cache \<Rightarrow> unit res \<times> ('k, 'b, 't) market_cache" where
  "addMarkets K T S [] st = (Inr (), st)"
| "addMarkets K T S ((addr, item) # items) st =
     (case addMarket K T S addr item st of
        (Inl e, st) \<Rightarrow> (Inl e, st)
      | (Inr _, st) \<Rightarrow> addMarkets K T S items st)"

definition marketOf :: "string \<Rightarrow> ('k, 'b, 't) market_cache \<Rightarrow> 'k dex_market option" where
  "marketOf addr st = (case cache_get addr st of Some a \<Rightarrow> (case pa_info a of OtherI (DexI d) \<Rightarrow> Some d | _ \<Rightarrow> None) | None \<Rightarrow> None)"

definition accountsToQuery :: "'k keylib \<Rightarrow> ('k, 'b, 't) market_cache \<Rightarrow> string list \<Rightarrow> string list" where
  "accountsToQuery K st allMarkets =
     setValues (concat (map (\<lambda>m.
       case marketOf m st of
         None \<Rightarrow> []
       | Some d \<Rightarrow>
           (if cache_get (toBase58 K (dm_baseMint d)) st = None then [toBase58 K (dm_baseMint d)] else []) @
           (if cache_get (toBase58 K (dm_baseMint d)) st = None then [toBase58 K (dm_quoteMint d)] else []) @
           [toBase58 K (dm_bids d), toBase58 K (dm_asks d)]) allMarkets))"

definition initalQuery ::
  "'k keylib \<Rightarrow> 'k tokenlib \<Rightarrow> ('k, 'b) serum \<Rightarrow> (string \<Rightarrow> buffer) \<Rightarrow> (string list \<Rightarrow> 'k many_answer) \<Rightarrow> (string list \<Rightarrow> 'k many_answer) \<Rightarrow>
   string list \<Rightarrow> ('k, 'b, 't) market_cache \<Rightarrow> unit res \<times> ('k, 'b, 't) market_cache" where
  "initalQuery K T S b64dec rpc rpc' marketMints st =
     (let markets = marketByMint K S marketMints;
          allMarkets = map (\<lambda>(mint, m). toBase58 K (sm_address m)) markets
      in case getMultipleAccounts b64dec rpc (filter (\<lambda>a. cache_get a st = None) allMarkets) of
           Inl e \<Rightarrow> (Inl e, st)
         | Inr (ks, array) \<Rightarrow>
             (case addMarkets K T S (zip ks array) st of
                (Inl e, st) \<Rightarrow> (Inl e, st)
              | (Inr _, st) \<Rightarrow>
                  (case refreshAccounts K T (serumParsers K S) b64dec rpc' (accountsToQuery K st allMarkets) st of
                     (Inl e, st) \<Rightarrow> (Inl e, st)
                   | (Inr _, st) \<Rightarrow> (Inr (), emit (MarketUpdateEvent (map fst markets)) st))))"

section \<open>Prices\<close>

definition bbo :: "(number \<times> number) list \<Rightarrow> (number \<times> number) list \<Rightarrow> number" where
  "bbo bestBid bestAsk =
     (case (bestBid, bestAsk) of
        ((b, _) # _, (a, _) # _) \<Rightarrow> js_div (js_add b a) 2
      | _ \<Rightarrow> 0)"

definition decimalsOf :: "string \<Rightarrow> ('k, 'x, 't) cache \<Rightarrow> nat" where
  "decimalsOf addr st = (case cache_get addr st of Some a \<Rightarrow> (case pa_info a of MintI m \<Rightarrow> mi_decimals m | _ \<Rightarrow> 0) | None \<Rightarrow> 0)"

definition bookOf :: "string \<Rightarrow> ('k, 'b, 't) market_cache \<Rightarrow> 'b option" where
  "bookOf addr st = (case cache_get addr st of Some a \<Rightarrow> (case pa_info a of OtherI (BookI b) \<Rightarrow> Some b | _ \<Rightarrow> None) | None \<Rightarrow> None)"

definition getMidPrice :: "'k keylib \<Rightarrow> ('k, 'b) serum \<Rightarrow> ('k, 'b, 't) market_cache \<Rightarrow> string option \<Rightarrow> string \<Rightarrow> number" where
  "getMidPrice K S st marketAddress mint =
     (if (case serumToken K S mint of Some n \<Rightarrow> n | None \<Rightarrow> []) \<in> set STABLE_COINS then 1
      else
        case truthyString marketAddress of
          None \<Rightarrow> 0
        | Some addr \<Rightarrow>
            (case marketOf addr st of
               None \<Rightarrow> 0
             | Some d \<Rightarrow>
                 (let base = decimalsOf (toBase58 K (dm_baseMint d)) st;
                      quote = decimalsOf (toBase58 K (dm_quoteMint d)) st
                  in case (bookOf (toBase58 K (dm_bids d)) st, bookOf (toBase58 K (dm_asks d)) st) of
                       (Some bids, Some asks) \<Rightarrow> bbo (getL2 S d base quote bids) (getL2 S d base quote asks)
                     | _ \<Rightarrow> 0)))"

definition midPriceInUSD :: "'k keylib \<Rightarrow> ('k, 'b) serum \<Rightarrow> string list \<Rightarrow> ('k, 'b, 't) market_cache \<Rightarrow> string \<Rightarrow> number" where
  "midPriceInUSD K S marketMints st mint =
     getMidPrice K S st (map_option (\<lambda>m. toBase58 K (sm_address m)) (map_of (marketByMint K S marketMints) mint)) mint"

section \<open>Subscriptions\<close>

type_synonym observed = "(string \<times> int) list"

definition countOf :: "observed \<Rightarrow> string \<Rightarrow> int" where
  "countOf obs k = (case map_of obs k of Some c \<Rightarrow> c | None \<Rightarrow> 0)"

definition bump :: "int \<Rightarrow> string \<Rightarrow> observed \<Rightarrow> observed" where
  "bump d k obs = AList.update k (countOf obs k + d) obs"

definition subscribeBooks :: "string \<Rightarrow> string \<Rightarrow> observed \<Rightarrow> observed" where
  "subscribeBooks bid ask obs = bump 1 ask (bump 1 bid obs)"

definition unsubscribeBooks :: "string \<Rightarrow> string \<Rightarrow> observed \<Rightarrow> observed" where
  "unsubscribeBooks bid ask obs =
     (let obs = bump (- 1) ask (bump (- 1) bid obs) in foldl (\<lambda>obs k. if countOf obs k \<le> 0 then AList.delete k obs else obs) obs (map fst obs))"

text \<open>\<open>None\<close> is the subscription to a market that is not cached, which does nothing.\<close>

definition subscribeToMarket ::
  "'k keylib \<Rightarrow> ('k, 'b) serum \<Rightarrow> string list \<Rightarrow> ('k, 'b, 't) market_cache \<Rightarrow> string \<Rightarrow> observed \<Rightarrow> (string \<times> string) option \<times> observed" where
  "subscribeToMarket K S marketMints st mint obs =
     (case marketOf (case map_of (marketByMint K S marketMints) mint of Some m \<Rightarrow> toBase58 K (sm_address m) | None \<Rightarrow> []) st of
        None \<Rightarrow> (None, obs)
      | Some d \<Rightarrow>
          (let bid = toBase58 K (dm_bids d); ask = toBase58 K (dm_asks d)
           in (Some (bid, ask), subscribeBooks bid ask obs)))"

definition unsubscribe :: "(string \<times> string) option \<Rightarrow> observed \<Rightarrow> observed" where
  "unsubscribe sub obs = (case sub of None \<Rightarrow> obs | Some (bid, ask) \<Rightarrow> unsubscribeBooks bid ask obs)"

section \<open>The counting implements the live subscriptions\<close>

definition occurrences :: "(string \<times> string) multiset \<Rightarrow> string \<Rightarrow> nat" where
  "occurrences live k = size (filter_mset (\<lambda>(b, a). b = k) live) + size (filter_mset (\<lambda>(b, a). a = k) live)"

text \<open>Components come and go: each subscription is cancelled at most once.\<close>

inductive obs_run :: "observed \<Rightarrow> (string \<times> string) multiset \<Rightarrow> bool" where
  start: "obs_run [] {#}"
| subscribe: "obs_run obs live \<Longrightarrow> obs_run (subscribeBooks bid ask obs) (add_mset (bid, ask) live)"
| cancel: "obs_run obs live \<Longrightarrow> (bid, ask) \<in># live \<Longrightarrow> obs_run (unsubscribe (Some (bid, ask)) obs) (live - {#(bid, ask)#})"

definition observed_by :: "observed \<Rightarrow> (string \<times> string) multiset \<Rightarrow> bool" where
  "observed_by obs live \<longleftrightarrow>
     (\<forall>k. map_of obs k = (if occurrences live k = 0 then None else Some (int (occurrences live k))))"

lemma map_of_bump: "map_of (bump d k obs) = (map_of obs)(k \<mapsto> countOf obs k + d)"
  by (simp add: bump_def update_conv')

lemma countOf_bump: "countOf (bump d k obs) k' = countOf obs k' + (if k = k' then d else 0)"
  by (simp add: countOf_def map_of_bump)

lemma map_of_cleanup:
  "map_of (foldl (\<lambda>obs k. if countOf obs k \<le> 0 then AList.delete k obs else obs) obs ks) k =
   (if k \<in> set ks \<and> countOf obs k \<le> 0 then None else map_of obs k)"
proof (induction ks arbitrary: obs)
  case (Cons x ks)
  let ?obs = "if countOf obs x \<le> 0 then AList.delete x obs else obs"
  have "map_of ?obs k = (if k = x \<and> countOf obs x \<le> 0 then None else map_of obs k)"
    by (simp add: delete_conv')
  moreover from this have "countOf ?obs k = (if k = x \<and> countOf obs x \<le> 0 then 0 else countOf obs k)"
    by (simp add: countOf_def)
  ultimately show ?case
    using Cons [of ?obs] by (cases "k = x"; cases "countOf obs x \<le> 0") simp_all
qed simp

lemma map_of_unsubscribe:
  "map_of (unsubscribeBooks bid ask obs) k =
   (if k = bid \<or> k = ask \<or> map_of obs k \<noteq> None
    then (let c = countOf obs k - (if k = bid then 1 else 0) - (if k = ask then 1 else 0) in if c \<le> 0 then None else Some c)
    else None)"
proof -
  let ?obs = "bump (- 1) ask (bump (- 1) bid obs)"
  have count: "countOf ?obs k = countOf obs k - (if k = bid then 1 else 0) - (if k = ask then 1 else 0)"
    by (simp add: countOf_bump)
  have dom: "map_of ?obs k = None \<longleftrightarrow> \<not> (k = bid \<or> k = ask \<or> map_of obs k \<noteq> None)"
    by (simp add: map_of_bump)
  have m: "map_of ?obs k = (if map_of ?obs k = None then None else Some (countOf ?obs k))"
    by (cases "map_of ?obs k") (simp_all add: countOf_def)
  have ks: "k \<in> set (map fst ?obs) \<longleftrightarrow> map_of ?obs k \<noteq> None"
    by (metis map_of_eq_None_iff set_map)
  have "map_of (unsubscribeBooks bid ask obs) k =
      (if map_of ?obs k \<noteq> None \<and> countOf ?obs k \<le> 0 then None else map_of ?obs k)"
    unfolding unsubscribeBooks_def Let_def map_of_cleanup ks by (rule refl)
  also have "\<dots> = (if map_of ?obs k = None then None else if countOf ?obs k \<le> 0 then None else Some (countOf ?obs k))"
    by (subst (2) m) simp
  finally show ?thesis
    unfolding count Let_def dom by simp
qed

lemma occurrences_add:
  "occurrences (add_mset (b, a) live) k = occurrences live k + (if k = b then 1 else 0) + (if k = a then 1 else 0)"
  by (simp add: occurrences_def)

lemma observed_count: "observed_by obs live \<Longrightarrow> countOf obs k = int (occurrences live k)"
  by (simp add: observed_by_def countOf_def)

lemma observed_subscribe:
  assumes "observed_by obs live"
  shows "observed_by (subscribeBooks b a obs) (add_mset (b, a) live)"
proof -
  have c: "countOf obs k = int (occurrences live k)" for k
    using assms by (rule observed_count)
  have m: "map_of obs k = (if occurrences live k = 0 then None else Some (int (occurrences live k)))" for k
    using assms by (simp add: observed_by_def)
  show ?thesis
    by (simp add: observed_by_def subscribeBooks_def map_of_bump countOf_bump occurrences_add c m)
qed

lemma observed_cancel:
  assumes "observed_by obs (add_mset (b, a) live)"
  shows "observed_by (unsubscribeBooks b a obs) live"
proof -
  have c: "countOf obs k = int (occurrences live k + (if k = b then 1 else 0) + (if k = a then 1 else 0))" for k
    using observed_count [OF assms, of k] by (simp only: occurrences_add)
  have m: "map_of obs k \<noteq> None \<longleftrightarrow> occurrences live k + (if k = b then 1 else 0) + (if k = a then 1 else 0) \<noteq> 0" for k
    using assms by (simp add: observed_by_def occurrences_add)
  show ?thesis
    unfolding observed_by_def map_of_unsubscribe Let_def c m by simp
qed

lemma obs_run_observed: "obs_run obs live \<Longrightarrow> observed_by obs live"
proof (induction rule: obs_run.induct)
  case start
  then show ?case
    by (simp add: observed_by_def occurrences_def)
next
  case (subscribe obs live bid ask)
  then show ?case
    by (intro observed_subscribe)
next
  case (cancel obs live bid ask)
  then show ?case
    using observed_cancel [of obs bid ask "live - {#(bid, ask)#}"] by (simp add: unsubscribe_def)
qed

section \<open>Refreshing\<close>

text \<open>The RPC answers each key by the account it names.\<close>

definition answers_keys :: "(string list \<Rightarrow> 'k many_answer) \<Rightarrow> (string \<Rightarrow> 'k raw_info option) \<Rightarrow> bool" where
  "answers_keys rpc look \<longleftrightarrow> (\<forall>ks. rpc ks = ManyValue (map look ks))"

lemma map_filter_concat: "concat (map (List.map_filter f) xss) = List.map_filter f (concat xss)"
  by (induction xss) (simp_all add: List.map_filter_def)

lemma map_filter_map: "List.map_filter g (map f xs) = List.map_filter (\<lambda>x. g (f x)) xs"
  by (simp add: List.map_filter_def filter_map comp_def)

lemma getMultipleAccounts_ok:
  assumes "answers_keys rpc look" "int (length ks) < MAX_SAFE"
  shows "getMultipleAccounts b64dec rpc ks = Inr (ks, List.map_filter (\<lambda>k. map_option (infoOfRaw b64dec) (look k)) ks)"
proof -
  have "mapE (getMultipleAccountsCore rpc) css = Inr (map (\<lambda>c. (c, map look c)) css)" for css
    using assms(1) by (intro mapE_map) (simp add: getMultipleAccountsCore_def answers_keys_def)
  then show ?thesis
    using chunks_concat(1) [of 99 ks] assms(2)
    by (simp add: getMultipleAccounts_def comp_def map_filter_map map_filter_concat)
qed

definition sample_raw :: "key raw_info" where
  "sample_raw = \<lparr>rw_owner = KeyRef 9 11, rw_lamports = 1, rw_data0 = ''AQ==''\<rparr>"

lemma sample_raw_info: "infoOfRaw (\<lambda>s. [1]) sample_raw = sample_account [1]"
  by (simp add: infoOfRaw_def sample_raw_def sample_account_def)

lemma refreshAccounts_aligned:
  assumes "answers_keys rpc look" "int (length ks) < MAX_SAFE" "\<And>k. k \<in> set ks \<Longrightarrow> look k = Some (raw k)"
  shows "refreshAccounts K T X b64dec rpc ks st = addAll K T X (map (\<lambda>k. (k, infoOfRaw b64dec (raw k))) ks) st"
proof -
  have "List.map_filter (\<lambda>k. map_option (infoOfRaw b64dec) (look k)) ks = map (\<lambda>k. infoOfRaw b64dec (raw k)) ks"
    using assms(3) by (induction ks) (simp_all add: List.map_filter_simps)
  then show ?thesis
    using getMultipleAccounts_ok [OF assms(1,2), of b64dec] by (simp add: refreshAccounts_def zip_map2 zip_same_conv_map comp_def)
qed

section \<open>Properties\<close>

text \<open>
  C27. The counter of observed accounts implements the set of live subscriptions: after any sequence of
  subscriptions and cancellations an order book is observed, with its exact count, as long as a
  component watches it, and dropped when the last one has gone.
\<close>

theorem observed_refines_live:
  assumes "obs_run obs live"
  shows "map_of obs k = (if occurrences live k = 0 then None else Some (int (occurrences live k)))"
  using obs_run_observed [OF assms] by (simp add: observed_by_def)

theorem observed_refines_live_witness:
  "map_of (unsubscribe (Some (''a'', ''b'')) (subscribeBooks ''a'' ''b'' (subscribeBooks ''a'' ''c'' []))) ''a'' = Some 1"
proof -
  have "obs_run (unsubscribe (Some (''a'', ''b'')) (subscribeBooks ''a'' ''b'' (subscribeBooks ''a'' ''c'' []))) {#(''a'', ''c'')#}"
    using obs_run.cancel [OF obs_run.subscribe [OF obs_run.subscribe [OF obs_run.start]], of "''a''" "''b''" "''a''" "''b''" "''a''" "''c''"]
    by simp
  then show ?thesis
    using observed_refines_live [of _ "{#(''a'', ''c'')#}" "''a''"] by (simp add: occurrences_def)
qed

text \<open>
  A refresh brings the cache up to date: when every requested account exists, has a registered parser and
  is read by it, the refresh succeeds however many requests it is split into, each of the accounts can be
  fetched under its own address, and every other entry of the cache is as before.
\<close>

lemma refreshAccounts_stores:
  assumes "answers_keys rpc look" "int (length ks) < MAX_SAFE" "distinct ks" "\<And>k. k \<in> set ks \<Longrightarrow> look k = Some (raw k)"
    and "list_all (\<lambda>k. known_as ps k st \<and> reads_as K T X ps k (infoOfRaw b64dec (raw k)) (v k)) ks"
  shows "\<exists>st'. refreshAccounts K T X b64dec rpc ks st = (Inr (), st') \<and>
    (\<forall>k. cache_get k st' = (if k \<in> set ks then Some (v k) else cache_get k st))"
proof -
  let ?xs = "map (\<lambda>k. (k, infoOfRaw b64dec (raw k))) ks"
  have "\<exists>st'. addAll K T X ?xs st = (Inr (), st') \<and> (\<forall>k. cache_get k st' = (if k \<in> fst ` set ?xs then Some (v k) else cache_get k st))"
    by (rule store.adds_all [where ps = ps and K = K and T = T and X = X])
      (use assms(3,5) in \<open>simp_all add: comp_def list_all_iff\<close>)
  then show ?thesis
    using refreshAccounts_aligned [OF assms(1,2,4), of K T X b64dec st] by (simp add: image_image)
qed

lemma refreshAccounts_stores_witness:
  "\<exists>st'. refreshAccounts sample_keys sample_tokenlib (\<lambda>n k i. Inr (Some ())) (\<lambda>s. [1]) (\<lambda>ks. ManyValue (map (\<lambda>k. Some sample_raw) ks))
      [''a'', ''b''] (registerParser ''b'' GenericAccountParser (registerParser ''a'' GenericAccountParser
        (emptyCache :: (key, unit, unit) cache))) = (Inr (), st') \<and>
    (\<exists>a. cache_get ''b'' st' = Some a \<and> pa_info a = BufferI [1])"
proof -
  have a: "answers_keys (\<lambda>ks. ManyValue (map (\<lambda>k. Some sample_raw) ks)) (\<lambda>k. Some sample_raw)"
    by (simp add: answers_keys_def)
  show ?thesis
    using refreshAccounts_stores [OF a, of "[''a'', ''b'']" "\<lambda>k. sample_raw" "\<lambda>k. GenericAccountParser"
      "registerParser ''b'' GenericAccountParser (registerParser ''a'' GenericAccountParser (emptyCache :: (key, unit, unit) cache))"
      sample_keys sample_tokenlib "\<lambda>n k i. Inr (Some ())" "\<lambda>s. [1]"
      "\<lambda>k. \<lparr>pa_pubkey = keyOfString sample_keys k, pa_account = sample_account [1], pa_info = BufferI [1]\<rparr>"]
    by (auto simp: MAX_SAFE_def sample_raw_info known_as_def reads_as_def registerParser_def emptyCache_def sample_account_def)
qed

text \<open>
  When a requested account does not exist, the accounts behind it move up: asked for \<open>a\<close> and \<open>b\<close>
  of which only \<open>b\<close> exists, the refresh stores the contents of \<open>b\<close> as those of \<open>a\<close>.
\<close>

lemma refreshAccounts_misaligned:
  assumes "answers_keys rpc look" "look a = None" "look b = Some raw"
  shows "refreshAccounts K T X b64dec rpc [a, b] st = addAll K T X [(a, infoOfRaw b64dec raw)] st"
  using getMultipleAccounts_ok [OF assms(1), of "[a, b]" b64dec] assms(2,3)
  by (simp add: refreshAccounts_def List.map_filter_simps MAX_SAFE_def)

lemma refreshAccounts_misaligned_witness:
  "refreshAccounts sample_keys sample_tokenlib (\<lambda>n k i. Inr (Some ())) (\<lambda>s. [1])
      (\<lambda>ks. ManyValue (map (\<lambda>k. if k = ''b'' then Some sample_raw else None) ks))
      [''a'', ''b''] (emptyCache :: (key, unit, unit) cache) =
    addAll sample_keys sample_tokenlib (\<lambda>n k i. Inr (Some ())) [(''a'', sample_account [1])] emptyCache"
proof -
  let ?look = "\<lambda>k. if k = ''b'' then Some sample_raw else None"
  have a: "answers_keys (\<lambda>ks. ManyValue (map ?look ks)) ?look"
    by (simp add: answers_keys_def)
  show ?thesis
    by (subst refreshAccounts_misaligned [OF a, where raw = sample_raw]) (simp_all add: sample_raw_info del: addAll.simps)
qed

end
