(* ===== verification/Ledger_Core.thy ===== *)
theory Ledger_Core
  imports Sample_Cluster
begin

text \<open>
  \<open>src/wallet-adapters/ledger/core.ts\<close>: talking to a Ledger device. The transport package is an argument;
  the messages handed to it, in order, are part of the state. \<open>reassemble\<close> is the protocol as the device
  sees it, the abstract specification the chunked send is proved to implement.
\<close>

unbundle bit_operations_syntax

section \<open>Constants\<close>

definition INS_GET_PUBKEY :: nat where "INS_GET_PUBKEY = 0x05"

definition INS_SIGN_MESSAGE :: nat where "INS_SIGN_MESSAGE = 0x06"

definition P1_NON_CONFIRM :: nat where "P1_NON_CONFIRM = 0x00"

definition P1_CONFIRM :: nat where "P1_CONFIRM = 0x01"

definition P2_EXTEND :: nat where "P2_EXTEND = 0x01"

definition P2_MORE :: nat where "P2_MORE = 0x02"

definition MAX_PAYLOAD :: nat where "MAX_PAYLOAD = 255"

definition LEDGER_CLA :: nat where "LEDGER_CLA = 0xe0"

section \<open>The transport\<close>

record apdu =
  cla :: nat
  ins :: nat
  p1 :: nat
  p2 :: nat
  payload :: buffer

record 'w device =
  dev_world :: 'w
  apdus :: "apdu list"

type_synonym 'w transport = "apdu \<Rightarrow> ('w, buffer) io"

definition transport_send :: "'w transport \<Rightarrow> apdu \<Rightarrow> ('w device, buffer) io" where
  "transport_send T m =
     (\<lambda>s. case T m (dev_world s) of (r, w) \<Rightarrow> (r, s\<lparr>dev_world := w, apdus := apdus s @ [m]\<rparr>))"

section \<open>Chunked send\<close>

function ledgerLoop ::
  "'w transport \<Rightarrow> nat \<Rightarrow> nat \<Rightarrow> buffer \<Rightarrow> nat \<Rightarrow> nat \<Rightarrow> ('w device, nat \<times> nat) io" where
  "ledgerLoop T instruction q1 pl q2 payloadOffset =
     (if payloadOffset + MAX_PAYLOAD < length pl then
        bindIO (transport_send T \<lparr>cla = LEDGER_CLA, ins = instruction, p1 = q1, p2 = q2 OR P2_MORE,
                  payload = slice pl payloadOffset (payloadOffset + MAX_PAYLOAD)\<rparr>) (\<lambda>reply.
        if length reply \<noteq> 2 then throwIO (Error ''Received unexpected reply payload'')
        else ledgerLoop T instruction q1 pl (q2 OR P2_EXTEND) (payloadOffset + MAX_PAYLOAD))
      else returnIO (q2, payloadOffset))"
  by pat_completeness auto
termination
  by (relation "measure (\<lambda>(T, i, q1, pl, q2, off). length pl - off)") (auto simp: MAX_PAYLOAD_def)

declare ledgerLoop.simps [simp del]

definition ledgerSend :: "'w transport \<Rightarrow> nat \<Rightarrow> nat \<Rightarrow> buffer \<Rightarrow> ('w device, buffer) io" where
  "ledgerSend T instruction q1 pl =
     bindIO (if length pl > MAX_PAYLOAD then ledgerLoop T instruction q1 pl 0 0 else returnIO (0, 0)) (\<lambda>(q2, payloadOffset).
     bindIO (transport_send T \<lparr>cla = LEDGER_CLA, ins = instruction, p1 = q1, p2 = q2, payload = drop payloadOffset pl\<rparr>) (\<lambda>reply.
     returnIO (take (length reply - 2) reply)))"

section \<open>Derivation paths\<close>

definition writeUInt32BE :: "buffer \<Rightarrow> int \<Rightarrow> nat \<Rightarrow> (buffer \<times> nat) res" where
  "writeUInt32BE buf v p =
     (if 0 \<le> v \<and> v < 2 ^ 32 \<and> p + 4 \<le> length buf
      then Inr (overwrite buf p (rev (le_bytes 4 (nat v))), p + 4) else Inl RangeError)"

definition BIP32_HARDENED_BIT :: "32 word" where
  "BIP32_HARDENED_BIT = push_bit 31 1"

definition harden :: "nat \<Rightarrow> 32 word" where
  "harden n = of_nat n OR BIP32_HARDENED_BIT"

definition getSolanaDerivationPath :: "nat option \<Rightarrow> nat option \<Rightarrow> buffer res" where
  "getSolanaDerivationPath account change =
     (let len = (case account of Some _ \<Rightarrow> (case change of Some _ \<Rightarrow> 4 | None \<Rightarrow> 3) | None \<Rightarrow> 2);
          derivationPath = alloc (1 + len * 4)
      in bindE (writeUInt8 derivationPath (int len) 0) (\<lambda>(d, off).
         bindE (writeUInt32BE d (uint (harden 44)) off) (\<lambda>(d, off).
         bindE (writeUInt32BE d (uint (harden 501)) off) (\<lambda>(d, off).
         if len > 2 then
           bindE (writeUInt32BE d (uint (harden (case account of Some a \<Rightarrow> a | None \<Rightarrow> 0))) off) (\<lambda>(d, off).
           if len = 4 then
             bindE (writeUInt32BE d (uint (harden (case change of Some c \<Rightarrow> c | None \<Rightarrow> 0))) off) (\<lambda>(d, off). Inr d)
           else Inr d)
         else Inr d))))"

section \<open>Requests\<close>

definition signBytes :: "'w transport \<Rightarrow> buffer \<Rightarrow> buffer \<Rightarrow> ('w device, buffer) io" where
  "signBytes T bytes derivationPath =
     bindIO (liftE (writeUInt8 (alloc 1) 1 0)) (\<lambda>(numPaths, _).
     ledgerSend T INS_SIGN_MESSAGE P1_CONFIRM (numPaths @ derivationPath @ bytes))"

text \<open>The bytes of the message are what web3.js serializes; the path is the default one.\<close>

definition signTransaction :: "'w transport \<Rightarrow> buffer \<Rightarrow> ('w device, buffer) io" where
  "signTransaction T messageBytes =
     bindIO (liftE (getSolanaDerivationPath None None)) (signBytes T messageBytes)"

definition getPublicKey :: "'k keylib \<Rightarrow> 'w transport \<Rightarrow> ('w device, 'k) io" where
  "getPublicKey K T =
     bindIO (liftE (getSolanaDerivationPath None None)) (\<lambda>derivationPath.
     bindIO (ledgerSend T INS_GET_PUBKEY P1_NON_CONFIRM derivationPath) (\<lambda>publicKeyBytes.
     liftE (newPublicKey K publicKeyBytes)))"

section \<open>The protocol as the device sees it\<close>

text \<open>
  A message is open while chunks announce that more follow. The first chunk must not claim to extend
  one, every later one must; the message is complete at the first chunk that announces no more.
\<close>

fun reassemble :: "buffer option \<Rightarrow> apdu list \<Rightarrow> buffer option" where
  "reassemble st [] = None"
| "reassemble st (m # ms) =
     (let got = (case st of None \<Rightarrow> [] | Some b \<Rightarrow> b) @ payload m in
      if (p2 m AND P2_EXTEND \<noteq> 0) \<noteq> (st \<noteq> None) then None
      else if p2 m AND P2_MORE \<noteq> 0 then reassemble (Some got) ms
      else if ms = [] then Some got else None)"

text \<open>A device acknowledges a chunk that is not the last by its two status bytes alone.\<close>

definition acknowledges :: "'w transport \<Rightarrow> bool" where
  "acknowledges T \<longleftrightarrow> (\<forall>m w. p2 m AND P2_MORE \<noteq> 0 \<longrightarrow> (\<exists>r w'. T m w = (Inr r, w') \<and> length r = 2))"

lemmas p2_defs = P2_MORE_def P2_EXTEND_def

text \<open>What the loop has sent from a given offset on, and what is still to be sent.\<close>

definition chunk_sent :: "nat \<Rightarrow> nat \<Rightarrow> apdu \<Rightarrow> bool" where
  "chunk_sent instruction q1 m \<longleftrightarrow>
     cla m = LEDGER_CLA \<and> ins m = instruction \<and> p1 m = q1 \<and> length (payload m) \<le> MAX_PAYLOAD"

lemma ledgerLoop_sends:
  assumes "acknowledges T" "off \<le> length pl" "q2 = (if off = 0 then 0 else 1)"
  shows "\<exists>ms s' q2' off'. ledgerLoop T i q1 pl q2 off s = (Inr (q2', off'), s') \<and> apdus s' = apdus s @ ms \<and>
    list_all (chunk_sent i q1) ms \<and> length pl \<le> off' + MAX_PAYLOAD \<and>
    (\<forall>m. p2 m = q2' \<and> payload m = drop off' pl \<longrightarrow>
      reassemble (if off = 0 then None else Some (take off pl)) (ms @ [m]) = Some pl)"
  using assms(2,3)
proof (induction "length pl - off" arbitrary: off q2 s rule: less_induct)
  case less
  let ?st = "if off = 0 then None else Some (take off pl)"
  show ?case
  proof (cases "off + MAX_PAYLOAD < length pl")
    case False
    have "reassemble ?st [m] = Some pl" if "p2 m = q2" "payload m = drop off pl" for m
      using that less.prems by (simp add: p2_defs)
    then show ?thesis
      using False by (subst ledgerLoop.simps) (auto intro!: exI [of _ "[]"])
  next
    case True
    let ?m = "\<lparr>cla = LEDGER_CLA, ins = i, p1 = q1, p2 = q2 OR P2_MORE, payload = slice pl off (off + MAX_PAYLOAD)\<rparr>"
    have more: "p2 ?m AND P2_MORE \<noteq> 0" "q2 OR P2_EXTEND = 1" "(p2 ?m AND P2_EXTEND \<noteq> 0) \<longleftrightarrow> off \<noteq> 0"
      using less.prems(2) by (simp_all add: p2_defs)
    obtain r w where rw: "T ?m (dev_world s) = (Inr r, w)" "length r = 2"
      using assms(1) [unfolded acknowledges_def, rule_format, OF more(1)] by blast
    let ?s = "s\<lparr>dev_world := w, apdus := apdus s @ [?m]\<rparr>"
    have sent: "transport_send T ?m s = (Inr r, ?s)"
      using rw(1) by (simp add: transport_send_def)
    have smaller: "length pl - (off + MAX_PAYLOAD) < length pl - off" "off + MAX_PAYLOAD \<noteq> 0"
      using True by (simp_all add: MAX_PAYLOAD_def)
    obtain ms s' q2' off' where IH: "ledgerLoop T i q1 pl 1 (off + MAX_PAYLOAD) ?s = (Inr (q2', off'), s')"
      "apdus s' = apdus ?s @ ms" "list_all (chunk_sent i q1) ms" "length pl \<le> off' + MAX_PAYLOAD"
      "\<And>m. p2 m = q2' \<Longrightarrow> payload m = drop off' pl \<Longrightarrow> reassemble (Some (take (off + MAX_PAYLOAD) pl)) (ms @ [m]) = Some pl"
      using less.hyps [OF smaller(1), of 1 ?s] True smaller(2) by auto
    have "ledgerLoop T i q1 pl q2 off s = (Inr (q2', off'), s')"
      using True IH(1) rw(2) more(2) sent by (subst ledgerLoop.simps) (simp add: bindIO_def)
    moreover have "reassemble ?st ((?m # ms) @ [m]) = Some pl" if "p2 m = q2'" "payload m = drop off' pl" for m
      using IH(5) [OF that] more by (cases "off = 0") (simp_all add: slice_def take_add)
    moreover have "chunk_sent i q1 ?m"
      by (simp add: chunk_sent_def slice_def)
    ultimately show ?thesis
      using IH(2-4) by (intro exI [of _ "?m # ms"] exI [of _ s'] exI [of _ q2'] exI [of _ off']) simp
  qed
qed

lemma writeUInt32BE_tail:
  "writeUInt32BE (w @ alloc (4 + n)) (uint (v :: 32 word)) (length w) = Inr ((w @ rev (le_bytes 4 (unat v))) @ alloc n, length w + 4)"
proof -
  have "uint v < 2 ^ 32"
    using unsigned_less [of v, where 'a = int] by simp
  then show ?thesis
    using overwrite_tail [of "rev (le_bytes 4 (unat v))" "4 + n" w]
    by (simp add: writeUInt32BE_def)
qed

definition path_bytes :: "nat list \<Rightarrow> buffer" where
  "path_bytes is = of_nat (length is) # concat (map (\<lambda>i. rev (le_bytes 4 (unat (harden i)))) is)"

lemma derivationPath_bytes:
  "getSolanaDerivationPath account change =
     Inr (path_bytes ([44, 501] @ (case account of None \<Rightarrow> [] | Some a \<Rightarrow> a # (case change of None \<Rightarrow> [] | Some c \<Rightarrow> [c]))))"
proof -
  have tag: "writeUInt8 (alloc (1 + n)) (int l) 0 = Inr (of_nat l # alloc n, 1)" if "l < 256" for l n
    using u8.write_tail [of "int l" "Suc n" 0 "[]"] that by (simp add: alloc_def)
  note w1 = writeUInt32BE_tail [of "[x]" for x, simplified]
    and w5 = writeUInt32BE_tail [of "x # rev (le_bytes 4 a)" for x a, simplified]
    and w9 = writeUInt32BE_tail [of "x # rev (le_bytes 4 a) @ rev (le_bytes 4 b)" for x a b, simplified]
    and w13 = writeUInt32BE_tail [of "x # rev (le_bytes 4 a) @ rev (le_bytes 4 b) @ rev (le_bytes 4 c)" for x a b c, simplified]
  note ws = w1 [where n = 4, simplified] w1 [where n = 8, simplified] w1 [where n = 12, simplified]
    w5 [where n = 0, simplified] w5 [where n = 4, simplified] w5 [where n = 8, simplified]
    w9 [where n = 0, simplified] w9 [where n = 4, simplified] w13 [where n = 0, simplified]
  show ?thesis
    using tag [of 2 8] tag [of 3 12] tag [of 4 16]
    by (cases account; cases change) (simp_all add: getSolanaDerivationPath_def path_bytes_def Let_def alloc_def [of 0] ws)
qed

lemma harden_value:
  assumes "i < 2 ^ 31"
  shows "unat (harden i) = 2 ^ 31 + i"
proof -
  have "\<not> bit i 31"
    using assms by (simp add: bit_iff_odd)
  moreover have "bit BIP32_HARDENED_BIT n \<Longrightarrow> n = 31" for n
    unfolding BIP32_HARDENED_BIT_def bit_push_bit_iff by (auto simp: bit_1_iff)
  ultimately have "of_nat i AND BIP32_HARDENED_BIT = (0 :: 32 word)"
    by (intro bit_word_eqI) (auto simp: bit_simps)
  then have "harden i = of_nat i + 2 ^ 31"
    by (simp add: harden_def disjunctive_add_eq_or [symmetric]) (simp add: BIP32_HARDENED_BIT_def)
  also have "\<dots> = of_nat (i + 2 ^ 31)"
    by simp
  finally show ?thesis
    using assms by (simp only: unat_of_nat) simp
qed

lemma ledgerSend_sends:
  assumes "acknowledges T"
  shows "\<exists>ms w. apdus (snd (ledgerSend T i q1 pl s)) = apdus s @ ms \<and> list_all (chunk_sent i q1) ms \<and>
    reassemble None ms = Some pl \<and>
    fst (ledgerSend T i q1 pl s) = (case fst (T (last ms) w) of Inl e \<Rightarrow> Inl e | Inr r \<Rightarrow> Inr (take (length r - 2) r))"
proof -
  let ?pre = "if length pl > MAX_PAYLOAD then ledgerLoop T i q1 pl 0 0 else returnIO (0, 0)"
  let ?last = "\<lambda>q2 off. \<lparr>cla = LEDGER_CLA, ins = i, p1 = q1, p2 = q2, payload = drop off pl\<rparr>"
  obtain ms t q2 off where pre: "?pre s = (Inr (q2, off), t)" "apdus t = apdus s @ ms" "list_all (chunk_sent i q1) ms"
    "length pl \<le> off + MAX_PAYLOAD" "reassemble None (ms @ [?last q2 off]) = Some pl"
  proof (cases "length pl > MAX_PAYLOAD")
    case True
    then show ?thesis
      using that ledgerLoop_sends [OF assms, of 0 pl 0 i q1 s] by auto
  next
    case False
    then show ?thesis
      using that [of 0 0 s "[]"] by (simp add: p2_defs)
  qed
  obtain r w where rw: "T (?last q2 off) (dev_world t) = (r, w)"
    by fastforce
  have "chunk_sent i q1 (?last q2 off)"
    using pre(4) by (simp add: chunk_sent_def)
  moreover have "ledgerSend T i q1 pl s =
      (case r of Inl e \<Rightarrow> Inl e | Inr r \<Rightarrow> Inr (take (length r - 2) r), t\<lparr>dev_world := w, apdus := apdus t @ [?last q2 off]\<rparr>)"
    using pre(1) rw by (cases r) (simp_all add: ledgerSend_def bindIO_def transport_send_def)
  ultimately show ?thesis
    using pre rw by (intro exI [of _ "ms @ [?last q2 off]"] exI [of _ "dev_world t"]) simp
qed

section \<open>Properties\<close>

text \<open>
  C25. The chunked send implements the device's protocol: whatever the length of the payload, the
  messages sent carry at most 255 bytes each and the device puts exactly the payload together from
  them; the result is the answer to the last one without its two status bytes.
\<close>

theorem ledgerSend_delivers:
  assumes "acknowledges T"
  shows "\<exists>ms w. apdus (snd (ledgerSend T i q1 pl s)) = apdus s @ ms \<and>
    (\<forall>m \<in> set ms. cla m = LEDGER_CLA \<and> ins m = i \<and> p1 m = q1 \<and> length (payload m) \<le> 255) \<and>
    reassemble None ms = Some pl \<and>
    fst (ledgerSend T i q1 pl s) = (case fst (T (last ms) w) of Inl e \<Rightarrow> Inl e | Inr r \<Rightarrow> Inr (take (length r - 2) r))"
  using ledgerSend_sends [OF assms, of i q1 pl s] by (simp add: list_all_iff chunk_sent_def MAX_PAYLOAD_def)

theorem ledgerSend_delivers_witness:
  "\<exists>ms. apdus (snd (ledgerSend (\<lambda>m w. (Inr [0x90, 0], w)) 6 1 (replicate 300 7) \<lparr>dev_world = (), apdus = []\<rparr>)) = ms \<and>
    reassemble None ms = Some (replicate 300 7)"
proof -
  have "acknowledges (\<lambda>m w. (Inr [0x90, 0], w) :: buffer res \<times> unit)"
    by (simp add: acknowledges_def)
  then show ?thesis
    using ledgerSend_delivers [of "\<lambda>m w. (Inr [0x90, 0], w)" 6 1 "replicate 300 7" "\<lparr>dev_world = (), apdus = []\<rparr>"] by auto
qed

text \<open>
  A signature is asked for under the hardened path 44'/501', with the account and change indices
  appended when given: the path is its length and each index plus \<open>2 ^ 31\<close> in big-endian order, and the
  device receives one path, then the path, then the message.
\<close>

lemma signing_request:
  assumes "acknowledges T" "\<And>a. account = Some a \<Longrightarrow> a < 2 ^ 31" "\<And>c. change = Some c \<Longrightarrow> c < 2 ^ 31"
    "is = [44, 501] @ (case account of None \<Rightarrow> [] | Some a \<Rightarrow> a # (case change of None \<Rightarrow> [] | Some c \<Rightarrow> [c]))"
    "path = of_nat (length is) # concat (map (\<lambda>i. rev (le_bytes 4 (2 ^ 31 + i))) is)"
  shows "getSolanaDerivationPath account change = Inr path \<and>
    (\<exists>ms. apdus (snd (signBytes T message path s)) = apdus s @ ms \<and> reassemble None ms = Some (1 # path @ message) \<and>
      (\<forall>m \<in> set ms. ins m = INS_SIGN_MESSAGE \<and> p1 m = P1_CONFIRM))"
proof -
  have "unat (harden i) = 2 ^ 31 + i" if "i \<in> set is" for i
    using that assms(2-4) by (intro harden_value) (auto split: option.splits)
  then have "path_bytes is = path"
    unfolding path_bytes_def assms(5) by (metis (no_types, lifting) map_eq_conv)
  moreover have "writeUInt8 (alloc 1) 1 0 = Inr ([1], 1)"
    using u8.write_tail [of 1 1 0 "[]"] by (simp add: alloc_def)
  then have "signBytes T message path s = ledgerSend T INS_SIGN_MESSAGE P1_CONFIRM (1 # path @ message) s"
    by (simp add: signBytes_def)
  ultimately show ?thesis
    using derivationPath_bytes [of account change] assms(4)
      ledgerSend_sends [OF assms(1), of INS_SIGN_MESSAGE P1_CONFIRM "1 # path @ message" s]
    by (auto simp: list_all_iff chunk_sent_def)
qed

lemma signing_request_witness:
  "getSolanaDerivationPath (Some 3) None =
    Inr (of_nat 3 # concat (map (\<lambda>i. rev (le_bytes 4 (2 ^ 31 + i))) [44, 501, 3]))"
proof -
  have "acknowledges (\<lambda>m w. (Inr [0x90, 0], w) :: buffer res \<times> unit)"
    by (simp add: acknowledges_def)
  then show ?thesis
    using signing_request [of "\<lambda>m w. (Inr [0x90, 0], w)" "Some 3" None "[44, 501, 3]" _ "[]" "\<lparr>dev_world = (), apdus = []\<rparr>"]
    by simp
qed

end
