(* ===== verification/Wallets.thy ===== *)
theory Wallets
  imports Ledger_Core
begin

text \<open>
  \<open>src/wallet-adapters\<close> and \<open>src/contexts/wallet.tsx\<close>: the Ledger and Solong adapters as state machines, the
  list of providers, and the handlers of the provider component that follow an adapter's events. The
  USB transport and the browser extension are arguments. An operation runs to its end before the
  next one starts.
\<close>

section \<open>Events and notices\<close>

datatype 'k wallet_event = Connected 'k | Disconnected

record notice =
  n_message :: string
  n_description :: string

definition finallyIO :: "('s, 'a) io \<Rightarrow> ('s \<Rightarrow> 's) \<Rightarrow> ('s, 'a) io" where
  "finallyIO m f = (\<lambda>s. case m s of (r, s') \<Rightarrow> (r, f s'))"

definition stepIO :: "('s \<Rightarrow> 's) \<Rightarrow> ('s, unit) io" where
  "stepIO f = (\<lambda>s. (Inr (), f s))"

fun error_message :: "js_error \<Rightarrow> string" where
  "error_message (Error m) = m"
| "error_message (AssertionError m) = m"
| "error_message (RpcError m) = m"
| "error_message (ErrorNum m n) = m"
| "error_message RangeError = []"
| "error_message TypeError = []"

section \<open>The Ledger adapter\<close>

record ('k, 'w) LedgerWalletAdapter =
  connecting :: bool
  lw_publicKey :: "'k option"
  lw_transport :: "'w transport option"
  emitted :: "'k wallet_event list"
  notices :: "notice list"
  dev :: "'w device"

definition newLedgerWallet :: "'w device \<Rightarrow> ('k, 'w) LedgerWalletAdapter" where
  "newLedgerWallet d =
     \<lparr>connecting = False, lw_publicKey = None, lw_transport = None, emitted = [], notices = [], dev = d\<rparr>"

definition onDevice :: "('w device, 'a) io \<Rightarrow> (('k, 'w) LedgerWalletAdapter, 'a) io" where
  "onDevice m = (\<lambda>s. case m (dev s) of (r, d) \<Rightarrow> (r, s\<lparr>dev := d\<rparr>))"

text \<open>The USB package: opening a transport and closing one.\<close>

record 'w usb =
  usb_create :: "('w device, 'w transport) io"
  usb_close :: "'w transport \<Rightarrow> ('w device, unit) io"

definition ledger_disconnect :: "'w usb \<Rightarrow> (('k, 'w) LedgerWalletAdapter, unit) io" where
  "ledger_disconnect U =
     (\<lambda>s. (case lw_transport s of
        None \<Rightarrow> stepIO (\<lambda>s. s\<lparr>connecting := False, lw_publicKey := None\<rparr>)
      | Some t \<Rightarrow>
          bindIO (onDevice (usb_close U t)) (\<lambda>_.
          bindIO (stepIO (\<lambda>s. s\<lparr>lw_transport := None\<rparr>)) (\<lambda>_.
          bindIO (stepIO (\<lambda>s. s\<lparr>connecting := False, lw_publicKey := None\<rparr>)) (\<lambda>_.
          stepIO (\<lambda>s. s\<lparr>emitted := emitted s @ [Disconnected]\<rparr>))))) s)"

definition ledger_open :: "'k keylib \<Rightarrow> 'w usb \<Rightarrow> (('k, 'w) LedgerWalletAdapter, unit) io" where
  "ledger_open K U =
     bindIO (onDevice (usb_create U)) (\<lambda>t.
     bindIO (stepIO (\<lambda>s. s\<lparr>lw_transport := Some t\<rparr>)) (\<lambda>_.
     bindIO (onDevice (getPublicKey K t)) (\<lambda>k.
     stepIO (\<lambda>s. s\<lparr>lw_publicKey := Some k, emitted := emitted s @ [Connected k]\<rparr>))))"

definition ledger_connect :: "'k keylib \<Rightarrow> 'w usb \<Rightarrow> (('k, 'w) LedgerWalletAdapter, unit) io" where
  "ledger_connect K U =
     (\<lambda>s. if connecting s then (Inr (), s)
          else
            finallyIO
              (catchIO (ledger_open K U)
                 (\<lambda>e. bindIO (stepIO (\<lambda>s. s\<lparr>notices := notices s @
                        [\<lparr>n_message = ''Ledger Error'', n_description = error_message e\<rparr>]\<rparr>)) (\<lambda>_.
                      ledger_disconnect U)))
              (\<lambda>s. s\<lparr>connecting := False\<rparr>)
              (s\<lparr>connecting := True\<rparr>))"

record 'k transaction =
  message :: buffer
  signatures :: "('k \<times> buffer) list"

definition ledger_signTransaction ::
  "'k transaction \<Rightarrow> (('k, 'w) LedgerWalletAdapter, 'k transaction) io" where
  "ledger_signTransaction t =
     (\<lambda>s. (case (lw_transport s, lw_publicKey s) of
        (Some T, Some k) \<Rightarrow>
          bindIO (onDevice (signTransaction T (message t))) (\<lambda>signature.
          returnIO (t\<lparr>signatures := signatures t @ [(k, signature)]\<rparr>))
      | _ \<Rightarrow> throwIO (Error ''Not connected to Ledger'')) s)"

section \<open>The Solong adapter\<close>

record 'k SolongWalletAdapter =
  sw_publicKey :: "'k option"
  onProcess :: bool
  sw_emitted :: "'k wallet_event list"
  sw_notices :: "notice list"

definition solong_disconnect :: "'k SolongWalletAdapter \<Rightarrow> 'k SolongWalletAdapter" where
  "solong_disconnect s =
     (if sw_publicKey s \<noteq> None then s\<lparr>sw_publicKey := None, sw_emitted := sw_emitted s @ [Disconnected]\<rparr> else s)"

text \<open>
  \<open>selected\<close> is what the extension's \<open>selectAccount\<close> settles to, \<open>None\<close> when the extension is not installed.
\<close>

definition solong_connect ::
  "(string \<Rightarrow> 'k res) \<Rightarrow> string res option \<Rightarrow> 'k SolongWalletAdapter \<Rightarrow> 'k SolongWalletAdapter" where
  "solong_connect parseKey selected s =
     (if onProcess s then s
      else
        case selected of
          None \<Rightarrow> s\<lparr>sw_notices := sw_notices s @
            [\<lparr>n_message = ''Solong Error'', n_description = ''Please install solong wallet from Chrome ''\<rparr>]\<rparr>
        | Some settled \<Rightarrow>
            (let s = s\<lparr>onProcess := True\<rparr>;
                 s = (case bindE settled parseKey of
                        Inr k \<Rightarrow> s\<lparr>sw_publicKey := Some k, sw_emitted := sw_emitted s @ [Connected k]\<rparr>
                      | Inl e \<Rightarrow> solong_disconnect s)
             in s\<lparr>onProcess := False\<rparr>))"

section \<open>The provider component\<close>

datatype adapter = Solong | Ledger

record wallet_provider =
  wp_name :: string
  wp_url :: string
  wp_icon :: string
  wp_adapter :: "adapter option"

definition ASSETS_URL :: string where
  "ASSETS_URL = ''https://raw.githubusercontent.com/solana-labs/oyster/main/assets/wallets/''"

definition WALLET_PROVIDERS :: "wallet_provider list" where
  "WALLET_PROVIDERS =
     [\<lparr>wp_name = ''Sollet'', wp_url = ''https://www.sollet.io'', wp_icon = ASSETS_URL @ ''sollet.svg'', wp_adapter = None\<rparr>,
      \<lparr>wp_name = ''Solong'', wp_url = ''https://solongwallet.com'', wp_icon = ASSETS_URL @ ''solong.png'', wp_adapter = Some Solong\<rparr>,
      \<lparr>wp_name = ''Solflare'', wp_url = ''https://solflare.com/access-wallet'', wp_icon = ASSETS_URL @ ''solflare.svg'', wp_adapter = None\<rparr>,
      \<lparr>wp_name = ''MathWallet'', wp_url = ''https://mathwallet.org'', wp_icon = ASSETS_URL @ ''mathwallet.svg'', wp_adapter = None\<rparr>,
      \<lparr>wp_name = ''Ledger'', wp_url = ''https://www.ledger.com'', wp_icon = ASSETS_URL @ ''ledger.svg'', wp_adapter = Some Ledger\<rparr>]"

definition walletProvider :: "string \<Rightarrow> wallet_provider option" where
  "walletProvider providerUrl = find (\<lambda>p. wp_url p = providerUrl) WALLET_PROVIDERS"

definition keyToDisplay :: "string \<Rightarrow> string" where
  "keyToDisplay walletPublicKey =
     (if length walletPublicKey > 20
      then take 7 walletPublicKey @ ''.....'' @ drop (length walletPublicKey - 7) walletPublicKey
      else walletPublicKey)"

record wallet_view =
  connected :: bool
  wv_notices :: "notice list"

fun onWalletEvent :: "'k keylib \<Rightarrow> wallet_view \<Rightarrow> 'k wallet_event \<Rightarrow> wallet_view" where
  "onWalletEvent K v (Connected k) =
     v\<lparr>connected := True, wv_notices := wv_notices v @
       [\<lparr>n_message = ''Wallet update'', n_description = ''Connected to wallet '' @ keyToDisplay (toBase58 K k)\<rparr>]\<rparr>"
| "onWalletEvent K v Disconnected =
     v\<lparr>connected := False, wv_notices := wv_notices v @
       [\<lparr>n_message = ''Wallet update'', n_description = ''Disconnected from wallet''\<rparr>]\<rparr>"

definition walletView :: "'k keylib \<Rightarrow> 'k wallet_event list \<Rightarrow> wallet_view" where
  "walletView K evs = foldl (onWalletEvent K) \<lparr>connected = False, wv_notices = []\<rparr> evs"

section \<open>The invariant\<close>

inductive ledger_run :: "'k keylib \<Rightarrow> 'w usb \<Rightarrow> ('k, 'w) LedgerWalletAdapter \<Rightarrow> bool" for K U where
  new: "ledger_run K U (newLedgerWallet d)"
| connect: "ledger_run K U s \<Longrightarrow> ledger_connect K U s = (r, s') \<Longrightarrow> ledger_run K U s'"
| disconnect: "ledger_run K U s \<Longrightarrow> ledger_disconnect U s = (r, s') \<Longrightarrow> ledger_run K U s'"
| sign: "ledger_run K U s \<Longrightarrow> ledger_signTransaction t s = (q, s') \<Longrightarrow> ledger_run K U s'"

definition wallet_inv :: "'k keylib \<Rightarrow> ('k, 'w) LedgerWalletAdapter \<Rightarrow> bool" where
  "wallet_inv K s \<longleftrightarrow>
     (lw_publicKey s \<noteq> None \<longrightarrow> lw_transport s \<noteq> None) \<and>
     connected (walletView K (emitted s)) = (lw_publicKey s \<noteq> None)"

lemmas ledger_defs = bindIO_def stepIO_def onDevice_def

lemma walletView_snoc [simp]: "walletView K (evs @ [e]) = onWalletEvent K (walletView K evs) e"
  by (simp add: walletView_def)

lemma disconnect_inv:
  "wallet_inv K s \<Longrightarrow> ledger_disconnect U s = (r, s') \<Longrightarrow>
   wallet_inv K s' \<and> (r = Inr () \<longrightarrow> lw_publicKey s' = None \<and> lw_transport s' = None) \<and> (connecting s' \<longrightarrow> connecting s)"
  by (auto simp: ledger_disconnect_def wallet_inv_def ledger_defs split: option.splits prod.splits sum.splits)

lemma open_inv:
  assumes "wallet_inv K s" "ledger_open K U s = (r, s')"
  shows "wallet_inv K s' \<and> (r = Inr () \<longrightarrow> lw_publicKey s' \<noteq> None)"
  using assms by (auto simp: ledger_open_def wallet_inv_def ledger_defs split: prod.splits sum.splits)

lemma connect_inv:
  assumes "wallet_inv K s" "ledger_connect K U s = (r, s')" "\<not> connecting s"
  shows "wallet_inv K s' \<and> \<not> connecting s'"
proof -
  obtain r1 s1 where o: "ledger_open K U (s\<lparr>connecting := True\<rparr>) = (r1, s1)"
    by fastforce
  have "wallet_inv K s1"
    using open_inv [OF _ o] assms(1) by (simp add: wallet_inv_def)
  show ?thesis
  proof (cases r1)
    case (Inr u)
    then show ?thesis
      using o assms(2,3) \<open>wallet_inv K s1\<close> by (auto simp: ledger_connect_def finallyIO_def catchIO_def wallet_inv_def)
  next
    case (Inl e)
    let ?s2 = "s1\<lparr>notices := notices s1 @ [\<lparr>n_message = ''Ledger Error'', n_description = error_message e\<rparr>]\<rparr>"
    obtain r3 s3 where d: "ledger_disconnect U ?s2 = (r3, s3)"
      by fastforce
    have "wallet_inv K s3"
      using disconnect_inv [where K = K, OF _ d] \<open>wallet_inv K s1\<close> by (simp add: wallet_inv_def)
    moreover have "s' = s3\<lparr>connecting := False\<rparr>"
      using o d Inl assms(2,3) by (simp add: ledger_connect_def finallyIO_def catchIO_def bindIO_def stepIO_def)
    ultimately show ?thesis
      by (simp add: wallet_inv_def)
  qed
qed

lemma sign_inv: "ledger_signTransaction t s = (q, s') \<Longrightarrow> \<exists>d. s' = s\<lparr>dev := d\<rparr>"
  by (auto simp: ledger_signTransaction_def ledger_defs split: option.splits prod.splits sum.splits intro: exI [of _ "dev s"])

lemma ledger_run_inv: "ledger_run K U s \<Longrightarrow> wallet_inv K s \<and> \<not> connecting s"
proof (induction rule: ledger_run.induct)
  case (new d)
  then show ?case
    by (simp add: wallet_inv_def newLedgerWallet_def walletView_def)
next
  case (connect s r s')
  then show ?case
    using connect_inv by blast
next
  case (disconnect s r s')
  then show ?case
    using disconnect_inv by blast
next
  case (sign s t q s')
  then show ?case
    using sign_inv by (force simp: wallet_inv_def)
qed

section \<open>Properties\<close>



end
