(* ===== verification/UI_Actions.thy ===== *)
theory UI_Actions
  imports UI_Cache Wallets
begin

text \<open>
  \<open>src/actions\<close>, \<open>approve\<close> of \<open>src/models/account.ts\<close>, \<open>sendTransaction\<close> of \<open>src/contexts/connection.tsx\<close> and the
  buttons of \<open>src/components/DepositInput\<close> and \<open>WithdrawInput\<close>: how a user's deposit, withdrawal or credit becomes one
  signed transaction. The arrays the helpers push to are a record; \<open>new Account()\<close> draws the next key of
  an argument \<open>newAccount\<close>.
\<close>

section \<open>Building a transaction\<close>

record 'k txbuild =
  instructions :: "'k tx_instr list"
  cleanupInstructions :: "'k tx_instr list"
  tx_signers :: "'k list"
  made :: nat

definition emptyBuild :: "nat \<Rightarrow> 'k txbuild" where
  "emptyBuild n = \<lparr>instructions = [], cleanupInstructions = [], tx_signers = [], made = n\<rparr>"

definition push :: "'k tx_instr \<Rightarrow> 'k txbuild \<Rightarrow> 'k txbuild" where
  "push i b = b\<lparr>instructions := instructions b @ [i]\<rparr>"

definition pushCleanup :: "'k tx_instr \<Rightarrow> 'k txbuild \<Rightarrow> 'k txbuild" where
  "pushCleanup i b = b\<lparr>cleanupInstructions := cleanupInstructions b @ [i]\<rparr>"

definition approve ::
  "(nat \<Rightarrow> 'k) \<Rightarrow> 'k keylib \<Rightarrow> 'k tokenlib \<Rightarrow> 'k \<Rightarrow> 'k \<Rightarrow> number \<Rightarrow> bool \<Rightarrow> 'k option \<Rightarrow> 'k txbuild \<Rightarrow> 'k \<times> 'k txbuild" where
  "approve newAccount K T account own amount autoRevoke delegate b =
     (let tokenProgram = TOKEN_PROGRAM_ID K;
          transferAuthority = newAccount (made b);
          b = b\<lparr>made := made b + 1\<rparr>;
          b = push (Instr (createApproveInstruction T tokenProgram account
                (case delegate of Some d \<Rightarrow> d | None \<Rightarrow> transferAuthority) own [] amount)) b;
          b = (if autoRevoke then pushCleanup (Instr (createRevokeInstruction T tokenProgram account own [])) b else b)
      in (transferAuthority, b))"

definition createSystemAccount ::
  "(nat \<Rightarrow> 'k) \<Rightarrow> 'k \<Rightarrow> number \<Rightarrow> nat \<Rightarrow> 'k \<Rightarrow> 'k txbuild \<Rightarrow> 'k \<times> 'k txbuild" where
  "createSystemAccount newAccount pay lam space prog b =
     (let account = newAccount (made b);
          b = b\<lparr>made := made b + 1\<rparr>;
          b = push (SystemCreateAccount pay account lam space prog) b
      in (account, b\<lparr>tx_signers := tx_signers b @ [account]\<rparr>))"

definition DEFAULT_TEMP_MEM_SPACE :: nat where "DEFAULT_TEMP_MEM_SPACE = 65548"

definition createTempMemoryAccount :: "(nat \<Rightarrow> 'k) \<Rightarrow> 'k \<Rightarrow> 'k \<Rightarrow> nat option \<Rightarrow> 'k txbuild \<Rightarrow> 'k \<times> 'k txbuild" where
  "createTempMemoryAccount newAccount pay own space b =
     createSystemAccount newAccount pay 0 (case space of Some n \<Rightarrow> n | None \<Rightarrow> DEFAULT_TEMP_MEM_SPACE) own b"

definition createUninitializedMint :: "(nat \<Rightarrow> 'k) \<Rightarrow> 'k keylib \<Rightarrow> 'k tokenlib \<Rightarrow> 'k \<Rightarrow> number \<Rightarrow> 'k txbuild \<Rightarrow> 'k \<times> 'k txbuild" where
  "createUninitializedMint newAccount K T pay amount b =
     createSystemAccount newAccount pay amount (MintLayout_span T) (TOKEN_PROGRAM_ID K) b"

definition createUninitializedAccount :: "(nat \<Rightarrow> 'k) \<Rightarrow> 'k keylib \<Rightarrow> 'k tokenlib \<Rightarrow> 'k \<Rightarrow> number \<Rightarrow> 'k txbuild \<Rightarrow> 'k \<times> 'k txbuild" where
  "createUninitializedAccount newAccount K T pay amount b =
     createSystemAccount newAccount pay amount (AccountLayout_span T) (TOKEN_PROGRAM_ID K) b"

definition createTokenAccount ::
  "(nat \<Rightarrow> 'k) \<Rightarrow> 'k keylib \<Rightarrow> 'k tokenlib \<Rightarrow> 'k \<Rightarrow> number \<Rightarrow> 'k \<Rightarrow> 'k \<Rightarrow> 'k txbuild \<Rightarrow> 'k \<times> 'k txbuild" where
  "createTokenAccount newAccount K T pay accountRentExempt mint own b =
     (case createUninitializedAccount newAccount K T pay accountRentExempt b of
        (account, b) \<Rightarrow> (account, push (Instr (createInitAccountInstruction T (TOKEN_PROGRAM_ID K) mint account own)) b))"

definition ensureSplAccount ::
  "(nat \<Rightarrow> 'k) \<Rightarrow> 'k keylib \<Rightarrow> 'k tokenlib \<Rightarrow> 'k TokenAccount \<Rightarrow> 'k \<Rightarrow> number \<Rightarrow> 'k txbuild \<Rightarrow> 'k \<times> 'k txbuild" where
  "ensureSplAccount newAccount K T toCheck pay amount b =
     (if \<not> ti_isNative (pa_info toCheck) then (pa_pubkey toCheck, b)
      else
        case createUninitializedAccount newAccount K T pay amount b of
          (account, b) \<Rightarrow>
            (let b = push (Instr (createInitAccountInstruction T (TOKEN_PROGRAM_ID K) (WRAPPED_SOL_MINT K) account pay)) b;
                 b = pushCleanup (Instr (createCloseAccountInstruction T (TOKEN_PROGRAM_ID K) account pay pay [])) b
             in (account, b)))"

definition findAccountByMint :: "'k keylib \<Rightarrow> ('k, 'x, 't) cache \<Rightarrow> 'k \<Rightarrow> 'k \<Rightarrow> string list option \<Rightarrow> 'k TokenAccount option" where
  "findAccountByMint K st mint own excluded =
     find (\<lambda>acc. toBase58 K (ti_mint (pa_info acc)) = toBase58 K mint \<and> toBase58 K (ti_owner (pa_info acc)) = toBase58 K own \<and>
                 (case excluded of None \<Rightarrow> True | Some ex \<Rightarrow> toBase58 K (pa_pubkey acc) \<notin> set ex)) (tokenAccounts st)"

definition findOrCreateAccountByMint ::
  "(nat \<Rightarrow> 'k) \<Rightarrow> 'k keylib \<Rightarrow> 'k tokenlib \<Rightarrow> ('k, 'x, 't) cache \<Rightarrow> 'k \<Rightarrow> 'k \<Rightarrow> number \<Rightarrow> 'k \<Rightarrow> string list option \<Rightarrow> 'k txbuild \<Rightarrow> 'k \<times> 'k txbuild" where
  "findOrCreateAccountByMint newAccount K T st pay own accountRentExempt mint excluded b =
     (let isWrappedSol = (toBase58 K mint = toBase58 K (WRAPPED_SOL_MINT K));
          fresh =
            (case createTokenAccount newAccount K T pay accountRentExempt mint own b of
               (toAccount, b) \<Rightarrow>
                 (toAccount,
                  if isWrappedSol
                  then pushCleanup (Instr (createCloseAccountInstruction T (TOKEN_PROGRAM_ID K) toAccount pay pay [])) b
                  else b))
      in case findAccountByMint K st mint own excluded of
           Some account \<Rightarrow> if \<not> isWrappedSol then (pa_pubkey account, b) else fresh
         | None \<Rightarrow> fresh)"

section \<open>Sending\<close>

record 'k signed_tx =
  stx_instructions :: "'k tx_instr list"
  stx_blockhash :: string
  stx_signers :: "'k list"
  stx_signed :: "'k list"

record ('k, 'w) WalletAdapter =
  wallet_publicKey :: "'k option"
  wallet_sign :: "'k signed_tx \<Rightarrow> ('w, 'k signed_tx) io"

record ('k, 'w) web3 =
  w3_getAccountInfo :: "'k \<Rightarrow> ('w, 'k account_info option) io"
  w3_getMinimumBalance :: "nat \<Rightarrow> ('w, number) io"
  w3_getRecentBlockhash :: "('w, string) io"
  w3_serialize :: "'k signed_tx \<Rightarrow> unit res"
  w3_sendRawTransaction :: "'k signed_tx \<Rightarrow> ('w, string) io"
  w3_confirmTransaction :: "string \<Rightarrow> string \<Rightarrow> ('w, string option) io"
  w3_getLogs :: "string \<Rightarrow> ('w, string list option) io"

record ('k, 'w) web =
  web_world :: 'w
  web_sent :: "'k signed_tx list"
  web_notices :: "notice list"

type_synonym ('k, 'w, 'a) webio = "(('k, 'w) web, 'a) io"

definition onWeb :: "('w, 'a) io \<Rightarrow> ('k, 'w, 'a) webio" where
  "onWeb m = (\<lambda>s. case m (web_world s) of (r, w) \<Rightarrow> (r, s\<lparr>web_world := w\<rparr>))"

definition notify :: "string \<Rightarrow> string \<Rightarrow> ('k, 'w, unit) webio" where
  "notify m d = (\<lambda>s. (Inr (), s\<lparr>web_notices := web_notices s @ [\<lparr>n_message = m, n_description = d\<rparr>]\<rparr>))"

definition sendRaw :: "('k, 'w) web3 \<Rightarrow> 'k signed_tx \<Rightarrow> ('k, 'w, string) webio" where
  "sendRaw C t = (\<lambda>s. onWeb (w3_sendRawTransaction C t) (s\<lparr>web_sent := web_sent s @ [t]\<rparr>))"

text \<open>
  The notice of a failed transaction shows the errors found in its logs; the markup around them and the
  link to an explorer are left out. The matches of \<open>/Error: (.*)/gm\<close> in a log line; the dot stops at a line terminator.
\<close>

function errorsIn :: "string \<Rightarrow> string list" where
  "errorsIn s =
     (if s = [] then []
      else if take 7 s = ''Error: '' then
        takeWhile (\<lambda>c. of_char c \<notin> {10, 13 :: nat}) (drop 7 s) # errorsIn (dropWhile (\<lambda>c. of_char c \<notin> {10, 13 :: nat}) (drop 7 s))
      else errorsIn (tl s))"
  by pat_completeness auto
termination
proof (relation "measure length")
  fix s :: string
  assume "s \<noteq> []"
  then have "length (drop 7 s) < length s"
    by simp
  then show "(dropWhile (\<lambda>c. of_char c \<notin> {10, 13 :: nat}) (drop 7 s), s) \<in> measure length"
    using length_dropWhile_le [of "\<lambda>c. of_char c \<notin> {10, 13 :: nat}" "drop 7 s"] by simp
qed auto

declare errorsIn.simps [simp del]

definition getErrorForTransaction :: "('k, 'w) web3 \<Rightarrow> string \<Rightarrow> ('k, 'w, string list) webio" where
  "getErrorForTransaction C txid =
     bindIO (onWeb (w3_confirmTransaction C txid ''max'')) (\<lambda>_.
     bindIO (onWeb (w3_getLogs C txid)) (\<lambda>logs.
     returnIO (case logs of None \<Rightarrow> [] | Some ls \<Rightarrow> concat (map errorsIn ls))))"

definition checkStatus :: "('k, 'w) web3 \<Rightarrow> string \<Rightarrow> ('k, 'w, unit) webio" where
  "checkStatus C txid =
     bindIO (onWeb (w3_confirmTransaction C txid ''singleGossip'')) (\<lambda>err.
     case err of
       None \<Rightarrow> returnIO ()
     | Some status \<Rightarrow>
         bindIO (getErrorForTransaction C txid) (\<lambda>errors.
         bindIO (notify ''Transaction failed...'' (concat errors)) (\<lambda>_.
         throwIO (Error (''Raw transaction '' @ txid @ '' failed ('' @ status @ '')'')))))"

definition sendTransaction ::
  "('k, 'w) web3 \<Rightarrow> ('k, 'w) WalletAdapter \<Rightarrow> 'k tx_instr list \<Rightarrow> 'k list \<Rightarrow> bool \<Rightarrow> ('k, 'w, string) webio" where
  "sendTransaction C wallet instrs ss awaitConfirmation =
     (case wallet_publicKey wallet of
        None \<Rightarrow> throwIO (Error ''Wallet is not connected'')
      | Some pk \<Rightarrow>
          bindIO (onWeb (w3_getRecentBlockhash C)) (\<lambda>blockhash.
          let transaction = \<lparr>stx_instructions = instrs, stx_blockhash = blockhash, stx_signers = pk # ss,
                             stx_signed = (if length ss > 0 then ss else [])\<rparr> in
          bindIO (onWeb (wallet_sign wallet transaction)) (\<lambda>transaction.
          bindIO (liftE (w3_serialize C transaction)) (\<lambda>_.
          bindIO (sendRaw C transaction) (\<lambda>txid.
          bindIO (if awaitConfirmation then checkStatus C txid else returnIO ()) (\<lambda>_. returnIO txid))))))"

section \<open>Deposit, withdraw, credit\<close>

text \<open>
  \<open>fromAccounts[0]\<close> and \<open>wallet!\<close> are undefined when there is none, so both arrive as options; reading a
  property of undefined is a \<^const>\<open>TypeError\<close>. The number \<open>n\<close> counts the accounts drawn before.
\<close>

definition defined :: "'a option \<Rightarrow> 'a res" where
  "defined x = (case x of None \<Rightarrow> Inl TypeError | Some y \<Rightarrow> Inr y)"

definition connectedKey :: "('k, 'w) WalletAdapter option \<Rightarrow> 'k res" where
  "connectedKey wallet =
     bindE (defined wallet) (\<lambda>w.
     case wallet_publicKey w of None \<Rightarrow> Inl (Error ''Wallet is not connected'') | Some pk \<Rightarrow> Inr pk)"

definition depositBuild ::
  "(nat \<Rightarrow> 'k) \<Rightarrow> 'k keylib \<Rightarrow> 'k tokenlib \<Rightarrow> 'k uilib \<Rightarrow> ('k, 'x, 't) cache \<Rightarrow> 'k TokenAccount option \<Rightarrow> number \<Rightarrow> 'k \<Rightarrow> number \<Rightarrow> nat
     \<Rightarrow> 'k txbuild res" where
  "depositBuild newAccount K T L st from amountLamports pk accountRentExempt n =
     bindE (defined from) (\<lambda>from.
     case ensureSplAccount newAccount K T from pk (js_add amountLamports accountRentExempt) (emptyBuild n) of
       (fromAccount, b) \<Rightarrow>
         case approve newAccount K T fromAccount pk amountLamports True (Some (WITHDRAW_AUTHORITY_PDA K)) b of
           (_, b) \<Rightarrow>
             case findOrCreateAccountByMint newAccount K T st pk pk accountRentExempt (TENDERIZED_SOL_MINT_ID K) None b of
               (toAccount, b) \<Rightarrow>
                 bindE (depositInstruction_ui K L \<lparr>ui_userSource = fromAccount, ui_dep_amount = amountLamports, ui_userToken = toAccount\<rparr>)
                   (\<lambda>i. Inr (push (Instr i) b)))"

definition deposit_ui ::
  "(nat \<Rightarrow> 'k) \<Rightarrow> 'k keylib \<Rightarrow> 'k tokenlib \<Rightarrow> 'k uilib \<Rightarrow> ('k, 'x, 't) cache \<Rightarrow> ('k, 'w) web3 \<Rightarrow> nat
     \<Rightarrow> 'k TokenAccount option \<Rightarrow> number \<Rightarrow> ('k, 'w) WalletAdapter option \<Rightarrow> ('k, 'w, unit) webio" where
  "deposit_ui newAccount K T L st C n from amountLamports wallet =
     bindIO (liftE (connectedKey wallet)) (\<lambda>pk.
     bindIO (notify ''Depositing funds...'' ''Please review transactions to approve.'') (\<lambda>_.
     bindIO (onWeb (w3_getMinimumBalance C (AccountLayout_span T))) (\<lambda>accountRentExempt.
     bindIO (liftE (depositBuild newAccount K T L st from amountLamports pk accountRentExempt n)) (\<lambda>b.
     catchIO
       (bindIO (sendTransaction C (the wallet) (instructions b @ cleanupInstructions b) (tx_signers b) True) (\<lambda>t.
        notify ''Funds deposited.'' (''Transaction - '' @ t)))
       throwIO))))"

definition withdrawBuild ::
  "(nat \<Rightarrow> 'k) \<Rightarrow> 'k keylib \<Rightarrow> 'k tokenlib \<Rightarrow> 'k uilib \<Rightarrow> 'k TokenAccount option \<Rightarrow> number \<Rightarrow> 'k \<Rightarrow> 'k Tenderize \<Rightarrow> nat \<Rightarrow> 'k txbuild res" where
  "withdrawBuild newAccount K T L from amountLamports pk tenderize n =
     bindE (defined from) (\<lambda>from.
     case approve newAccount K T (pa_pubkey from) pk amountLamports True (Some (WITHDRAW_AUTHORITY_PDA K)) (emptyBuild n) of
       (_, b) \<Rightarrow>
         bindE (withdrawInstruction_ui K L
           \<lparr>ui_wd_userTokenSource = pa_pubkey from, ui_wd_userSolTarget = pk, ui_wd_amount = amountLamports\<rparr> tenderize)
           (\<lambda>i. Inr (push (Instr i) b)))"

text \<open>The handler of both actions: a failure to send is logged to the console and dropped.\<close>

definition sendLogged :: "('k, 'w) web3 \<Rightarrow> ('k, 'w) WalletAdapter \<Rightarrow> 'k txbuild \<Rightarrow> string \<Rightarrow> ('k, 'w, unit) webio" where
  "sendLogged C wallet b msg =
     catchIO
       (bindIO (sendTransaction C wallet (instructions b @ cleanupInstructions b) (tx_signers b) True) (\<lambda>t.
        notify msg (''Transaction - '' @ t)))
       (\<lambda>_. returnIO ())"

definition withdraw_ui ::
  "(nat \<Rightarrow> 'k) \<Rightarrow> 'k keylib \<Rightarrow> 'k tokenlib \<Rightarrow> 'k uilib \<Rightarrow> ('k, 'w) web3 \<Rightarrow> nat
     \<Rightarrow> 'k TokenAccount option \<Rightarrow> number \<Rightarrow> ('k, 'w) WalletAdapter option \<Rightarrow> 'k Tenderize \<Rightarrow> ('k, 'w, unit) webio" where
  "withdraw_ui newAccount K T L C n from amountLamports wallet tenderize =
     bindIO (liftE (connectedKey wallet)) (\<lambda>pk.
     bindIO (onWeb (w3_getAccountInfo C (RESERVE_ADDRESS_PDA K))) (\<lambda>reserveInfo.
     bindIO (onWeb (w3_getMinimumBalance C 0)) (\<lambda>r0.
     bindIO (onWeb (w3_getMinimumBalance C (AccountLayout_span T))) (\<lambda>rA.
     let minReserveBalance = js_add r0 rA in
     if (case reserveInfo of None \<Rightarrow> True | Some a \<Rightarrow> lamports a < js_add minReserveBalance amountLamports)
     then throwIO (Error ''Not enough funds'')
     else
       bindIO (notify ''Withdrawing funds...'' ''Please review transactions to approve.'') (\<lambda>_.
       bindIO (liftE (withdrawBuild newAccount K T L from amountLamports pk tenderize n)) (\<lambda>b.
       sendLogged C (the wallet) b ''Funds withdrawn.''))))))"

definition creditBuild ::
  "(nat \<Rightarrow> 'k) \<Rightarrow> 'k keylib \<Rightarrow> 'k tokenlib \<Rightarrow> 'k uilib \<Rightarrow> 'k TokenAccount option \<Rightarrow> number \<Rightarrow> 'k \<Rightarrow> 'k Tenderize \<Rightarrow> nat \<Rightarrow> 'k txbuild res" where
  "creditBuild newAccount K T L from amountLamports pk tenderize n =
     bindE (defined from) (\<lambda>from.
     case approve newAccount K T (pa_pubkey from) pk amountLamports True (Some (WITHDRAW_AUTHORITY_PDA K)) (emptyBuild n) of
       (_, b) \<Rightarrow>
         (let cancelAuthority = newAccount (made b); b = b\<lparr>made := made b + 1\<rparr> in
          bindE (creditInstruction_ui K L
            \<lparr>ui_cr_userTokenSource = pa_pubkey from, ui_cr_userSolTarget = pk, ui_cancelAuthority = cancelAuthority,
             ui_cr_amount = amountLamports\<rparr> tenderize)
            (\<lambda>i. Inr (push (Instr i) b))))"

definition credit_ui ::
  "(nat \<Rightarrow> 'k) \<Rightarrow> 'k keylib \<Rightarrow> 'k tokenlib \<Rightarrow> 'k uilib \<Rightarrow> ('k, 'w) web3 \<Rightarrow> nat
     \<Rightarrow> 'k TokenAccount option \<Rightarrow> number \<Rightarrow> ('k, 'w) WalletAdapter option \<Rightarrow> 'k Tenderize \<Rightarrow> ('k, 'w, unit) webio" where
  "credit_ui newAccount K T L C n from amountLamports wallet tenderize =
     bindIO (liftE (connectedKey wallet)) (\<lambda>pk.
     bindIO (notify ''Withdrawing funds...'' ''Please review transactions to approve.'') (\<lambda>_.
     bindIO (liftE (creditBuild newAccount K T L from amountLamports pk tenderize n)) (\<lambda>b.
     sendLogged C (the wallet) b ''Requested withdraw in the future'')))"

section \<open>The buttons\<close>

record ('k, 'w) page =
  pendingTx :: bool
  showConfirmation :: bool
  input :: slider
  page_web :: "('k, 'w) web"

definition onPage :: "('k, 'w, 'a) webio \<Rightarrow> (('k, 'w) page, 'a) io" where
  "onPage m = (\<lambda>p. case m (page_web p) of (r, s) \<Rightarrow> (r, p\<lparr>page_web := s\<rparr>))"

text \<open>The promise of both callbacks: clear the input and confirm, or log the error; in the end unlock the button.\<close>

definition submit :: "(string \<Rightarrow> number) \<Rightarrow> ('k, 'w, unit) webio \<Rightarrow> (('k, 'w) page, unit) io" where
  "submit conv action =
     (\<lambda>p. finallyIO
        (catchIO
          (bindIO (onPage action) (\<lambda>_. stepIO (\<lambda>p. p\<lparr>input := slider_setValue conv [] (input p), showConfirmation := True\<rparr>)))
          (\<lambda>_. returnIO ()))
        (\<lambda>p. p\<lparr>pendingTx := False\<rparr>)
        (p\<lparr>pendingTx := True\<rparr>))"

definition isReserveDepleted :: "'k account_info option \<Rightarrow> number \<Rightarrow> number \<Rightarrow> bool" where
  "isReserveDepleted reserve minimumBalance amount =
     (case reserve of None \<Rightarrow> True | Some r \<Rightarrow> lamports r < js_add minimumBalance amount)"

definition firstAccount :: "'k UserBalance \<Rightarrow> 'k TokenAccount option" where
  "firstAccount bal = (case ub_accounts bal of [] \<Rightarrow> None | a # _ \<Rightarrow> Some a)"

definition onDeposit ::
  "(nat \<Rightarrow> 'k) \<Rightarrow> 'k keylib \<Rightarrow> 'k tokenlib \<Rightarrow> 'k uilib \<Rightarrow> ('k, 'x, 't) cache \<Rightarrow> ('k, 'w) web3 \<Rightarrow> nat \<Rightarrow> (string \<Rightarrow> number)
     \<Rightarrow> (string \<Rightarrow> number) \<Rightarrow> 'k UserBalance \<Rightarrow> number \<Rightarrow> ('k, 'w) WalletAdapter option \<Rightarrow> (('k, 'w) page, unit) io" where
  "onDeposit newAccount K T L st C n conv parseFloat bal minimumBalance wallet p =
     submit conv
       (deposit_ui newAccount K T L st C n (firstAccount bal) (depositAmount parseFloat (input p) bal minimumBalance) wallet) p"

definition onWithdraw ::
  "(nat \<Rightarrow> 'k) \<Rightarrow> 'k keylib \<Rightarrow> 'k tokenlib \<Rightarrow> 'k uilib \<Rightarrow> ('k, 'w) web3 \<Rightarrow> nat \<Rightarrow> (string \<Rightarrow> number)
     \<Rightarrow> (string \<Rightarrow> number) \<Rightarrow> 'k UserBalance \<Rightarrow> 'k account_info option \<Rightarrow> number \<Rightarrow> ('k, 'w) WalletAdapter option
     \<Rightarrow> ('k, 'k Tenderize) ParsedAccount option \<Rightarrow> (('k, 'w) page, unit) io" where
  "onWithdraw newAccount K T L C n conv parseFloat bal reserve minimumBalance wallet tenderize p =
     (let amount = withdrawAmount parseFloat (input p) bal; from = firstAccount bal in
      submit conv
        (bindIO (liftE (defined tenderize)) (\<lambda>t.
         if \<not> isReserveDepleted reserve minimumBalance amount
         then withdraw_ui newAccount K T L C n from amount wallet (pa_info t)
         else credit_ui newAccount K T L C n from amount wallet (pa_info t))) p)"

section \<open>What the host answers\<close>

text \<open>
  The hypotheses on the cluster and the wallet: the rent of each size is a fixed number of lamports, a
  block hash is always served, a transaction with every signature serializes, and the wallet adds its own.
\<close>

definition rents_fixed :: "('k, 'w) web3 \<Rightarrow> (nat \<Rightarrow> int) \<Rightarrow> bool" where
  "rents_fixed C f \<longleftrightarrow> (\<forall>n w. \<exists>w'. w3_getMinimumBalance C n w = (Inr (of_int (f n)), w'))"

definition online :: "('k, 'w) web3 \<Rightarrow> bool" where
  "online C \<longleftrightarrow> (\<forall>w. \<exists>h w'. w3_getRecentBlockhash C w = (Inr h, w')) \<and>
     (\<forall>t. set (stx_signers t) \<subseteq> set (stx_signed t) \<longrightarrow> w3_serialize C t = Inr ())"

definition signs :: "('k, 'w) WalletAdapter \<Rightarrow> 'k \<Rightarrow> bool" where
  "signs wallet pk \<longleftrightarrow> wallet_publicKey wallet = Some pk \<and>
     (\<forall>t w. \<exists>w'. wallet_sign wallet t w = (Inr (t\<lparr>stx_signed := stx_signed t @ [pk]\<rparr>), w'))"

definition holds :: "('k, 'w) web3 \<Rightarrow> 'k \<Rightarrow> 'k account_info option \<Rightarrow> bool" where
  "holds C k a \<longleftrightarrow> (\<forall>w. \<exists>w'. w3_getAccountInfo C k w = (Inr a, w'))"

section \<open>One transaction\<close>

lemma onWeb_keeps [simp]: "web_sent (snd (onWeb m s)) = web_sent s" "web_notices (snd (onWeb m s)) = web_notices s"
  by (simp_all add: onWeb_def split: prod.split)

lemma onWeb_sent: "onWeb m s = (r, s') \<Longrightarrow> web_sent s' = web_sent s \<and> web_notices s' = web_notices s"
  using onWeb_keeps [of m s] by simp

lemma onWeb_eval: "m (web_world s) = (r, w) \<Longrightarrow> onWeb m s = (r, s\<lparr>web_world := w\<rparr>)"
  by (simp add: onWeb_def)

lemma liftE_eval: "r = Inr x \<Longrightarrow> liftE r s = (Inr x, s)"
  by (simp add: liftE_def)

lemma notify_eval [simp]: "notify m d s = (Inr (), s\<lparr>web_notices := web_notices s @ [\<lparr>n_message = m, n_description = d\<rparr>]\<rparr>)"
  by (simp add: notify_def)

definition silent :: "('k, 'w, 'a) webio \<Rightarrow> bool" where
  "silent m \<longleftrightarrow> (\<forall>s. web_sent (snd (m s)) = web_sent s)"

lemma silent_bind:
  assumes "silent m" "\<And>x. silent (f x)"
  shows "silent (bindIO m f)"
  unfolding silent_def
proof
  fix s
  obtain r s' where m: "m s = (r, s')"
    by fastforce
  then have "web_sent s' = web_sent s"
    using assms(1) [unfolded silent_def, rule_format, of s] by simp
  then show "web_sent (snd (bindIO m f s)) = web_sent s"
    using m assms(2) by (cases r) (simp_all add: bindIO_def silent_def)
qed

lemma silent_basic: "silent (onWeb m)" "silent (notify a b)" "silent (returnIO x)" "silent (throwIO e)" "silent (liftE r)"
  by (simp_all add: silent_def returnIO_def throwIO_def liftE_def)

lemma silent_Pair [simp]: "silent (Pair r)"
  by (simp add: silent_def)

lemma silent_errors: "silent (getErrorForTransaction C txid)"
  unfolding getErrorForTransaction_def by (intro silent_bind silent_basic)

lemma silent_status: "silent (checkStatus C txid)"
  unfolding checkStatus_def
  by (intro silent_bind silent_basic) (auto intro!: silent_bind silent_basic silent_errors split: option.split)

lemma sent_after: "(\<And>x. silent (f x)) \<Longrightarrow> web_sent (snd (bindIO m f s)) = web_sent (snd (m s))"
  by (auto simp: silent_def bindIO_def split: prod.split sum.split)

lemma sent_sendRaw: "web_sent (snd (sendRaw C t s)) = web_sent s @ [t]"
  by (simp add: sendRaw_def)

lemma sendTransaction_sends:
  assumes "signs wallet pk" "online C"
  shows "\<exists>h. web_sent (snd (sendTransaction C wallet instrs ss True s)) =
    web_sent s @ [\<lparr>stx_instructions = instrs, stx_blockhash = h, stx_signers = pk # ss, stx_signed = ss @ [pk]\<rparr>]"
proof -
  obtain h w1 where h: "w3_getRecentBlockhash C (web_world s) = (Inr h, w1)"
    using assms(2) unfolding online_def by blast
  let ?t = "\<lparr>stx_instructions = instrs, stx_blockhash = h, stx_signers = pk # ss, stx_signed = ss\<rparr>"
  let ?u = "?t\<lparr>stx_signed := ss @ [pk]\<rparr>"
  obtain w2 where "wallet_sign wallet ?t w1 = (Inr (?t\<lparr>stx_signed := stx_signed ?t @ [pk]\<rparr>), w2)"
    using assms(1) unfolding signs_def by blast
  then have sign: "wallet_sign wallet ?t w1 = (Inr ?u, w2)"
    by simp
  have ser: "w3_serialize C ?u = Inr ()"
    using assms(2) by (simp add: online_def subset_iff)
  have pk: "wallet_publicKey wallet = Some pk"
    using assms(1) by (simp add: signs_def)
  have "sendTransaction C wallet instrs ss True s =
      bindIO (sendRaw C ?u) (\<lambda>txid. bindIO (checkStatus C txid) (\<lambda>_. returnIO txid)) (s\<lparr>web_world := w2\<rparr>)"
    using h sign ser
    by (cases "ss = []") (simp_all add: sendTransaction_def pk bindIO_eval [OF onWeb_eval] bindIO_def [of "Pair r" for r])
  moreover have "silent (bindIO (checkStatus C txid) (\<lambda>_. returnIO txid))" for txid
    by (intro silent_bind silent_basic silent_status)
  ultimately show ?thesis
    using sent_after [of "\<lambda>txid. bindIO (checkStatus C txid) (\<lambda>_. returnIO txid)" "sendRaw C ?u" "s\<lparr>web_world := w2\<rparr>"]
    by (simp add: sent_sendRaw)
qed

section \<open>What an action asks the user to sign\<close>

text \<open>
  The specification of a deposit: a native balance is wrapped into a new account that is closed again,
  the pool may take exactly the amount for the length of the transaction, and an account for the pool's
  token is opened when the user has none.
\<close>

definition depositPlan ::
  "(nat \<Rightarrow> 'k) \<Rightarrow> 'k keylib \<Rightarrow> 'k tokenlib \<Rightarrow> 'k TokenAccount \<Rightarrow> 'k TokenAccount option \<Rightarrow> 'k \<Rightarrow> int \<Rightarrow> int \<Rightarrow> nat \<Rightarrow> 'k instruction
     \<Rightarrow> 'k tx_instr list \<times> 'k list" where
  "depositPlan newAccount K T from found pk a rent n ix =
     (let native = ti_isNative (pa_info from);
          src = (if native then newAccount n else pa_pubkey from);
          fresh = newAccount (if native then n + 2 else n + 1);
          open_account = (\<lambda>acct lam mint.
            [SystemCreateAccount pk acct (of_int lam) (AccountLayout_span T) (TOKEN_PROGRAM_ID K),
             Instr (createInitAccountInstruction T (TOKEN_PROGRAM_ID K) mint acct pk)])
      in ((if native then open_account src (a + rent) (WRAPPED_SOL_MINT K) else []) @
          [Instr (createApproveInstruction T (TOKEN_PROGRAM_ID K) src (WITHDRAW_AUTHORITY_PDA K) pk [] (of_int a))] @
          (if found = None then open_account fresh rent (TENDERIZED_SOL_MINT_ID K) else []) @
          [Instr ix] @
          (if native then [Instr (createCloseAccountInstruction T (TOKEN_PROGRAM_ID K) src pk pk [])] else []) @
          [Instr (createRevokeInstruction T (TOKEN_PROGRAM_ID K) src pk [])],
          (if native then [src] else []) @ (if found = None then [fresh] else [])))"

definition distinctMints :: "'k keylib \<Rightarrow> bool" where
  "distinctMints K \<longleftrightarrow> toBase58 K (TENDERIZED_SOL_MINT_ID K) \<noteq> toBase58 K (WRAPPED_SOL_MINT K)"

lemmas build_defs = depositBuild_def withdrawBuild_def creditBuild_def ensureSplAccount_def approve_def
  findOrCreateAccountByMint_def createTokenAccount_def createUninitializedAccount_def createSystemAccount_def
  push_def pushCleanup_def emptyBuild_def defined_def Let_def

lemma depositInstruction_ok:
  assumes "wf_ui L" "0 \<le> a" "a < MAX_SAFE"
  shows "\<exists>ix. depositInstruction_ui K L \<lparr>ui_userSource = u, ui_dep_amount = of_int a, ui_userToken = t\<rparr> = Inr ix \<and>
    deserialize_instruction (data ix) = Inr (Deposit (nat a)) \<and> pubkey (keys ix ! 3) = u \<and> pubkey (keys ix ! 4) = t"
proof -
  have "nat a < 2 ^ 64"
    using assms(3) by (simp add: MAX_SAFE_def)
  then show ?thesis
    using assms by (simp add: depositInstruction_ui_def encodeAmount_ok deserialize_instruction_def read_u64_written meta_def)
qed

lemma depositBuild_plan:
  assumes "wf_ui L" "0 \<le> a" "0 \<le> rent" "a + rent < MAX_SAFE" "distinctMints K"
    and found: "found = findAccountByMint K st (TENDERIZED_SOL_MINT_ID K) pk None"
  shows "\<exists>b ix. depositBuild newAccount K T L st (Some from) (of_int a) pk (of_int rent) n = Inr b \<and>
    (instructions b @ cleanupInstructions b, tx_signers b) = depositPlan newAccount K T from found pk a rent n ix \<and>
    deserialize_instruction (data ix) = Inr (Deposit (nat a)) \<and>
    pubkey (keys ix ! 4) = (case found of Some acct \<Rightarrow> pa_pubkey acct | None \<Rightarrow> newAccount (if ti_isNative (pa_info from) then n + 2 else n + 1))"
proof -
  let ?src = "if ti_isNative (pa_info from) then newAccount n else pa_pubkey from"
  let ?to = "case found of Some acct \<Rightarrow> pa_pubkey acct | None \<Rightarrow> newAccount (if ti_isNative (pa_info from) then n + 2 else n + 1)"
  obtain ix where ix: "depositInstruction_ui K L \<lparr>ui_userSource = ?src, ui_dep_amount = of_int a, ui_userToken = ?to\<rparr> = Inr ix"
      "deserialize_instruction (data ix) = Inr (Deposit (nat a))" "pubkey (keys ix ! 4) = ?to"
    using depositInstruction_ok [OF assms(1,2), of K ?src ?to] assms(3,4) by fastforce
  have add: "js_add (of_int a) (of_int rent) = of_int (a + rent)"
    using assms(2-4) by (intro js_add_int) simp
  show ?thesis
    using ix assms(5) unfolding found distinctMints_def
    by (cases "findAccountByMint K st (TENDERIZED_SOL_MINT_ID K) pk None"; cases "ti_isNative (pa_info from)")
      (simp_all add: build_defs depositPlan_def add)
qed


definition sample_web3 :: "number \<Rightarrow> (key, unit) web3" where
  "sample_web3 l =
     \<lparr>w3_getAccountInfo = (\<lambda>k w. (Inr (Some ((sample_account [])\<lparr>lamports := l\<rparr>)), w)),
      w3_getMinimumBalance = (\<lambda>n w. (Inr (of_int (6960 * (int n + 128))), w)),
      w3_getRecentBlockhash = (\<lambda>w. (Inr ''hash'', w)),
      w3_serialize = (\<lambda>t. if set (stx_signers t) \<subseteq> set (stx_signed t) then Inr () else Inl (Error ''Signature verification failed'')),
      w3_sendRawTransaction = (\<lambda>t w. (Inr ''txid'', w)),
      w3_confirmTransaction = (\<lambda>t c w. (Inr None, w)), w3_getLogs = (\<lambda>t w. (Inr None, w))\<rparr>"

definition sample_wallet :: "(key, unit) WalletAdapter" where
  "sample_wallet = \<lparr>wallet_publicKey = Some 70, wallet_sign = (\<lambda>t w. (Inr (t\<lparr>stx_signed := stx_signed t @ [70]\<rparr>), w))\<rparr>"

definition sample_web :: "(key, unit) web" where
  "sample_web = \<lparr>web_world = (), web_sent = [], web_notices = []\<rparr>"

definition sample_token :: "bool \<Rightarrow> key TokenAccount" where
  "sample_token native =
     \<lparr>pa_pubkey = 71, pa_account = sample_account [],
      pa_info = \<lparr>ti_mint = 72, ti_owner = 70, ti_amount = 5, ti_delegate = None, ti_delegatedAmount = 0, ti_isInitialized = True,
        ti_isFrozen = False, ti_isNative = native, ti_rentExemptReserve = None, ti_closeAuthority = None\<rparr>\<rparr>"

lemma sample_web3_ok:
  "rents_fixed (sample_web3 l) (\<lambda>n. 6960 * (int n + 128))" "online (sample_web3 l)" "signs sample_wallet 70"
  "holds (sample_web3 l) k (Some ((sample_account [])\<lparr>lamports := l\<rparr>))"
  by (simp_all add: rents_fixed_def online_def signs_def holds_def sample_web3_def sample_wallet_def)


lemma withdrawInstruction_ok:
  assumes "wf_ui L" "0 \<le> a" "a < MAX_SAFE"
  shows "\<exists>ix. withdrawInstruction_ui K L \<lparr>ui_wd_userTokenSource = u, ui_wd_userSolTarget = t, ui_wd_amount = of_int a\<rparr> td = Inr ix \<and>
    deserialize_instruction (data ix) = Inr (Withdraw (nat a))"
proof -
  have "nat a < 2 ^ 64"
    using assms(3) by (simp add: MAX_SAFE_def)
  then show ?thesis
    using assms by (simp add: withdrawInstruction_ui_def encodeAmount_ok deserialize_instruction_def read_u64_written)
qed

lemma withdrawBuild_plan:
  assumes "wf_ui L" "0 \<le> a" "a < MAX_SAFE"
  shows "\<exists>b ix. withdrawBuild newAccount K T L (Some from) (of_int a) pk td n = Inr b \<and> tx_signers b = [] \<and>
    instructions b @ cleanupInstructions b =
      [Instr (createApproveInstruction T (TOKEN_PROGRAM_ID K) (pa_pubkey from) (WITHDRAW_AUTHORITY_PDA K) pk [] (of_int a)),
       Instr ix, Instr (createRevokeInstruction T (TOKEN_PROGRAM_ID K) (pa_pubkey from) pk [])] \<and>
    deserialize_instruction (data ix) = Inr (Withdraw (nat a))"
proof -
  obtain ix where "withdrawInstruction_ui K L
      \<lparr>ui_wd_userTokenSource = pa_pubkey from, ui_wd_userSolTarget = pk, ui_wd_amount = of_int a\<rparr> td = Inr ix"
      "deserialize_instruction (data ix) = Inr (Withdraw (nat a))"
    using withdrawInstruction_ok [OF assms, of K] by blast
  then show ?thesis
    by (simp add: build_defs)
qed

lemma sendLogged_sends:
  assumes "signs wallet pk" "online C"
  shows "\<exists>h. web_sent (snd (sendLogged C wallet b msg s)) = web_sent s @
    [\<lparr>stx_instructions = instructions b @ cleanupInstructions b, stx_blockhash = h, stx_signers = pk # tx_signers b,
      stx_signed = tx_signers b @ [pk]\<rparr>]"
proof -
  have "web_sent (snd (catchIO m (\<lambda>_. returnIO ()) s)) = web_sent (snd (m s))" for m :: "('a, 'b, unit) webio"
    by (simp add: catchIO_def split: prod.split sum.split)
  then show ?thesis
    unfolding sendLogged_def using sendTransaction_sends [OF assms] by (simp only: sent_after [OF silent_basic(2)])
qed

lemma withdraw_branches:
  assumes "signs wallet pk" "rents_fixed C rent" "holds C (RESERVE_ADDRESS_PDA K) (Some acct)"
    and "lamports acct = of_int l" "0 \<le> a" "0 \<le> rent 0" "0 \<le> rent (AccountLayout_span T)"
    and "rent 0 + rent (AccountLayout_span T) + a < MAX_SAFE"
  shows "l < rent 0 + rent (AccountLayout_span T) + a \<Longrightarrow>
      \<exists>s'. withdraw_ui newAccount K T L C n from (of_int a) (Some wallet) td s = (Inl (Error ''Not enough funds''), s') \<and>
        web_sent s' = web_sent s \<and> web_notices s' = web_notices s"
    and "\<not> l < rent 0 + rent (AccountLayout_span T) + a \<Longrightarrow> withdrawBuild newAccount K T L from (of_int a) pk td n = Inr b \<Longrightarrow>
      \<exists>s'. withdraw_ui newAccount K T L C n from (of_int a) (Some wallet) td s = sendLogged C wallet b ''Funds withdrawn.'' s' \<and>
        web_sent s' = web_sent s"
proof -
  let ?rA = "rent (AccountLayout_span T)"
  obtain w1 where w1: "w3_getAccountInfo C (RESERVE_ADDRESS_PDA K) (web_world s) = (Inr (Some acct), w1)"
    using assms(3) unfolding holds_def by blast
  obtain w2 where w2: "w3_getMinimumBalance C 0 w1 = (Inr (of_int (rent 0)), w2)"
    using assms(2) unfolding rents_fixed_def by blast
  obtain w3 where w3: "w3_getMinimumBalance C (AccountLayout_span T) w2 = (Inr (of_int ?rA), w3)"
    using assms(2) unfolding rents_fixed_def by blast
  have pk: "connectedKey (Some wallet) = Inr pk"
    using assms(1) by (simp add: connectedKey_def defined_def signs_def)
  have add: "js_add (js_add (of_int (rent 0)) (of_int ?rA)) (of_int a) = of_int (rent 0 + ?rA + a)"
    using assms(5-8) by (simp add: js_add_int del: of_int_add)
  have short: "lamports acct < js_add (js_add (of_int (rent 0)) (of_int ?rA)) (of_int a) \<longleftrightarrow> l < rent 0 + ?rA + a"
    unfolding add assms(4) by (rule of_int_less_iff)
  note run = withdraw_ui_def pk bindIO_eval [OF onWeb_eval] bindIO_def [of "notify x y" for x y] Let_def
  show "l < rent 0 + ?rA + a \<Longrightarrow>
      \<exists>s'. withdraw_ui newAccount K T L C n from (of_int a) (Some wallet) td s = (Inl (Error ''Not enough funds''), s') \<and>
        web_sent s' = web_sent s \<and> web_notices s' = web_notices s"
    using w1 w2 w3 short by (simp add: run)
  let ?s = "s\<lparr>web_world := w3, web_notices := web_notices s @
    [\<lparr>n_message = ''Withdrawing funds...'', n_description = ''Please review transactions to approve.''\<rparr>]\<rparr>"
  assume "\<not> l < rent 0 + ?rA + a" "withdrawBuild newAccount K T L from (of_int a) pk td n = Inr b"
  then have "withdraw_ui newAccount K T L C n from (of_int a) (Some wallet) td s = sendLogged C wallet b ''Funds withdrawn.'' ?s"
    using w1 w2 w3 short by (simp add: run)
  then show "\<exists>s'. withdraw_ui newAccount K T L C n from (of_int a) (Some wallet) td s = sendLogged C wallet b ''Funds withdrawn.'' s' \<and>
      web_sent s' = web_sent s"
    by (rule exI [where x = ?s, OF conjI]) simp
qed

text \<open>
  C29. A withdrawal is guarded by the reserve: unless it keeps the rent of an empty account and of a token
  account beyond the amount, the action fails with \<open>Not enough funds\<close> and neither sends nor announces
  anything; otherwise it asks for exactly one transaction, which approves the amount, withdraws it and revokes.
\<close>

theorem withdraw_guarded:
  assumes "wf_ui L" "signs wallet pk" "online C" "rents_fixed C rent" "holds C (RESERVE_ADDRESS_PDA K) (Some acct)"
    and "lamports acct = of_int l" "0 \<le> a" "0 \<le> rent 0" "0 \<le> rent (AccountLayout_span T)"
    and "rent 0 + rent (AccountLayout_span T) + a < MAX_SAFE"
  shows "if l < rent 0 + rent (AccountLayout_span T) + a
    then \<exists>s'. withdraw_ui newAccount K T L C n (Some frm) (of_int a) (Some wallet) td s = (Inl (Error ''Not enough funds''), s') \<and>
      web_sent s' = web_sent s \<and> web_notices s' = web_notices s
    else \<exists>h ix. deserialize_instruction (data ix) = Inr (Withdraw (nat a)) \<and>
      web_sent (snd (withdraw_ui newAccount K T L C n (Some frm) (of_int a) (Some wallet) td s)) = web_sent s @
        [\<lparr>stx_instructions =
            [Instr (createApproveInstruction T (TOKEN_PROGRAM_ID K) (pa_pubkey frm) (WITHDRAW_AUTHORITY_PDA K) pk [] (of_int a)),
             Instr ix, Instr (createRevokeInstruction T (TOKEN_PROGRAM_ID K) (pa_pubkey frm) pk [])],
          stx_blockhash = h, stx_signers = [pk], stx_signed = [pk]\<rparr>]"
proof (cases "l < rent 0 + rent (AccountLayout_span T) + a")
  case True
  then show ?thesis
    using withdraw_branches(1) [OF assms(2,4-10) True, of newAccount L n "Some frm" td s] by simp
next
  case False
  have "a < MAX_SAFE"
    using assms(8-10) by linarith
  then obtain b ix where b: "withdrawBuild newAccount K T L (Some frm) (of_int a) pk td n = Inr b" "tx_signers b = []"
      "instructions b @ cleanupInstructions b =
        [Instr (createApproveInstruction T (TOKEN_PROGRAM_ID K) (pa_pubkey frm) (WITHDRAW_AUTHORITY_PDA K) pk [] (of_int a)),
         Instr ix, Instr (createRevokeInstruction T (TOKEN_PROGRAM_ID K) (pa_pubkey frm) pk [])]"
      "deserialize_instruction (data ix) = Inr (Withdraw (nat a))"
    using withdrawBuild_plan [OF assms(1,7), of newAccount K T frm pk td n] by blast
  obtain s' where s': "withdraw_ui newAccount K T L C n (Some frm) (of_int a) (Some wallet) td s = sendLogged C wallet b ''Funds withdrawn.'' s'"
      "web_sent s' = web_sent s"
    using withdraw_branches(2) [OF assms(2,4-10) False b(1), of s] by blast
  show ?thesis
    using False b(2-4) s' sendLogged_sends [OF assms(2,3), of b "''Funds withdrawn.''" s'] by auto
qed

theorem withdraw_guarded_witness:
  "\<forall>td. (\<exists>s'. withdraw_ui of_nat sample_keys sample_tokenlib sample_ui (sample_web3 (of_int 2930160)) 0 (Some (sample_token False)) (of_int 1)
      (Some sample_wallet) td sample_web = (Inl (Error ''Not enough funds''), s') \<and> web_sent s' = []) \<and>
   (\<exists>t. web_sent (snd (withdraw_ui of_nat sample_keys sample_tokenlib sample_ui (sample_web3 (of_int 2930161)) 0 (Some (sample_token False))
      (of_int 1) (Some sample_wallet) td sample_web)) = [t] \<and> stx_signed t = [70])"
proof
  fix td
  note run = withdraw_guarded [where L = sample_ui and wallet = sample_wallet and pk = 70 and rent = "\<lambda>n. 6960 * (int n + 128)" and K = sample_keys
    and a = 1 and T = sample_tokenlib and s = sample_web and td = td and n = 0 and newAccount = of_nat and frm = "sample_token False",
    OF sample_ui_wf sample_web3_ok(3,2,1,4)]
  show "(\<exists>s'. withdraw_ui of_nat sample_keys sample_tokenlib sample_ui (sample_web3 (of_int 2930160)) 0 (Some (sample_token False)) (of_int 1)
      (Some sample_wallet) td sample_web = (Inl (Error ''Not enough funds''), s') \<and> web_sent s' = []) \<and>
   (\<exists>t. web_sent (snd (withdraw_ui of_nat sample_keys sample_tokenlib sample_ui (sample_web3 (of_int 2930161)) 0 (Some (sample_token False))
      (of_int 1) (Some sample_wallet) td sample_web)) = [t] \<and> stx_signed t = [70])"
    using run [of "of_int 2930160" 2930160] run [of "of_int 2930161" 2930161]
    by (auto simp: sample_tokenlib_def [THEN arg_cong, of AccountLayout_span] MAX_SAFE_def sample_web_def)
qed

text \<open>
  The withdraw button and the withdraw action disagree on what the reserve must keep: the button asks
  for one lamport beyond the rent of a token account, the action for the rent of an empty account beyond it.
  With a reserve in between, a press neither withdraws nor files a credit: no transaction, no notice,
  no confirmation.
\<close>

lemma withdraw_gap:
  assumes "wf_ui L" "signs wallet pk" "online C" "rents_fixed C rent" "holds C (RESERVE_ADDRESS_PDA K) (Some acct)"
    and "lamports acct = of_int l" "0 \<le> a" "0 \<le> rent (AccountLayout_span T)" "0 \<le> rent 0"
    and "rent 0 + rent (AccountLayout_span T) + a < MAX_SAFE"
    and gap: "rent (AccountLayout_span T) + 1 + a \<le> l" "l < rent 0 + rent (AccountLayout_span T) + a"
    and "ub_accounts bal = frm # rest" "withdrawAmount parseFloat (input p) bal = of_int a"
  shows "\<exists>p'. onWithdraw newAccount K T L C n conv parseFloat bal (Some acct) (of_int (rent (AccountLayout_span T) + 1)) (Some wallet)
      (Some td) p = (Inr (), p') \<and> web_sent (page_web p') = web_sent (page_web p) \<and>
    web_notices (page_web p') = web_notices (page_web p) \<and> showConfirmation p' = showConfirmation p \<and> \<not> pendingTx p'"
proof -
  have "\<bar>rent (AccountLayout_span T) + 1 + a\<bar> \<le> MAX_SAFE"
    using assms(7-9) gap assms(10) by linarith
  then have deep: "\<not> isReserveDepleted (Some acct) (of_int (rent (AccountLayout_span T) + 1)) (of_int a)"
    using gap(1) assms(6) by (simp add: isReserveDepleted_def js_add_int del: of_int_add)
  obtain s' where "withdraw_ui newAccount K T L C n (Some frm) (of_int a) (Some wallet) (pa_info td) (page_web p) =
      (Inl (Error ''Not enough funds''), s')" "web_sent s' = web_sent (page_web p)" "web_notices s' = web_notices (page_web p)"
    using withdraw_branches(1) [OF assms(2,4-7,9,8,10) gap(2)] by blast
  then show ?thesis
    using deep assms(13,14)
    by (simp add: onWithdraw_def submit_def firstAccount_def defined_def onPage_def finallyIO_def catchIO_def bindIO_def Let_def)
qed

definition sample_balance :: "key UserBalance" where
  "sample_balance = \<lparr>ub_balance = 1, ub_balanceLamports = of_int 1000, ub_accounts = [sample_token False], ub_hasBalance = True\<rparr>"

definition sample_page :: "(key, unit) page" where
  "sample_page = \<lparr>pendingTx = False, showConfirmation = False, input = \<lparr>sl_value = [], sl_pct = of_int 100, sl_type = Percent\<rparr>, page_web = sample_web\<rparr>"

lemma sample_amount: "withdrawAmount f (input sample_page) sample_balance = of_int 1000"
proof -
  have "js_mul (of_int 100) (of_int 1000) = of_int 100000"
    using fl_of_int [of 100000] by (simp add: js_mul_def MAX_SAFE_def)
  then show ?thesis
    using fl_of_int [of 1000] by (simp add: withdrawAmount_def sample_page_def sample_balance_def js_div_def MAX_SAFE_def)
qed

lemma withdraw_gap_witness:
  "\<forall>td. \<exists>p'. onWithdraw of_nat sample_keys sample_tokenlib sample_ui (sample_web3 (of_int 2500000)) 0 (\<lambda>_. 0) (\<lambda>_. 0) sample_balance
      (Some ((sample_account [])\<lparr>lamports := of_int 2500000\<rparr>)) (of_int 2039281) (Some sample_wallet) (Some td) sample_page = (Inr (), p') \<and>
    web_sent (page_web p') = [] \<and> web_notices (page_web p') = [] \<and> \<not> showConfirmation p'"
proof
  fix td :: "(key, key Tenderize) ParsedAccount"
  show "\<exists>p'. onWithdraw of_nat sample_keys sample_tokenlib sample_ui (sample_web3 (of_int 2500000)) 0 (\<lambda>_. 0) (\<lambda>_. 0) sample_balance
      (Some ((sample_account [])\<lparr>lamports := of_int 2500000\<rparr>)) (of_int 2039281) (Some sample_wallet) (Some td) sample_page = (Inr (), p') \<and>
    web_sent (page_web p') = [] \<and> web_notices (page_web p') = [] \<and> \<not> showConfirmation p'"
    using withdraw_gap [where K = sample_keys and l = 2500000 and a = 1000 and T = sample_tokenlib and bal = sample_balance
      and C = "sample_web3 (of_int 2500000)" and frm = "sample_token False" and rest = "[]" and parseFloat = "\<lambda>_. 0" and p = sample_page
      and newAccount = of_nat and n = 0 and conv = "\<lambda>_. 0" and td = td, OF sample_ui_wf sample_web3_ok(3,2,1,4)] sample_amount [of "\<lambda>_. 0"]
    by (simp add: sample_tokenlib_def [THEN arg_cong, of AccountLayout_span] MAX_SAFE_def sample_balance_def sample_page_def sample_web_def) blast
qed

definition refuses :: "('k, 'w) WalletAdapter \<Rightarrow> 'k \<Rightarrow> bool" where
  "refuses wallet pk \<longleftrightarrow> wallet_publicKey wallet = Some pk \<and> (\<forall>t w. \<exists>e w'. wallet_sign wallet t w = (Inl e, w'))"

lemma sendTransaction_refused:
  assumes "refuses wallet pk" "online C"
  shows "\<exists>e w. sendTransaction C wallet instrs ss aw s = (Inl e, s\<lparr>web_world := w\<rparr>)"
proof -
  obtain h w1 where h: "w3_getRecentBlockhash C (web_world s) = (Inr h, w1)"
    using assms(2) unfolding online_def by blast
  let ?t = "\<lparr>stx_instructions = instrs, stx_blockhash = h, stx_signers = pk # ss, stx_signed = if length ss > 0 then ss else []\<rparr>"
  obtain e w2 where sign: "wallet_sign wallet ?t w1 = (Inl e, w2)"
    using assms(1) unfolding refuses_def by blast
  have pk: "wallet_publicKey wallet = Some pk"
    using assms(1) by (simp add: refuses_def)
  have "sendTransaction C wallet instrs ss aw s = (Inl e, s\<lparr>web_world := w2\<rparr>)"
    using h sign unfolding sendTransaction_def pk option.case Let_def by (simp add: bindIO_def onWeb_def)
  then show ?thesis
    by blast
qed

lemma creditBuild_ok:
  assumes "wf_ui L" "0 \<le> a" "a < MAX_SAFE"
  shows "\<exists>b. creditBuild newAccount K T L (Some frm) (of_int a) pk td n = Inr b"
proof -
  have "nat a < 2 ^ 64"
    using assms(3) by (simp add: MAX_SAFE_def)
  then show ?thesis
    using assms by (simp add: build_defs creditInstruction_ui_def encodeAmount_ok)
qed

text \<open>
  A refused signature is confirmed to the user: when the reserve is depleted and the wallet declines to
  sign the credit, nothing is sent, and the page still clears the input and shows its confirmation, because the
  action drops the error.
\<close>

lemma refused_credit_confirmed:
  assumes "wf_ui L" "refuses wallet pk" "online C" "0 \<le> a" "a < MAX_SAFE"
    and "isReserveDepleted reserve minimumBalance (of_int a)"
    and "ub_accounts bal = frm # rest" "withdrawAmount parseFloat (input p) bal = of_int a"
  shows "\<exists>p'. onWithdraw newAccount K T L C n conv parseFloat bal reserve minimumBalance (Some wallet) (Some td) p = (Inr (), p') \<and>
    web_sent (page_web p') = web_sent (page_web p) \<and> showConfirmation p' \<and> sl_value (input p') = []"
proof -
  obtain b where b: "creditBuild newAccount K T L (Some frm) (of_int a) pk (pa_info td) n = Inr b"
    using creditBuild_ok [OF assms(1,4,5)] by blast
  let ?s = "(page_web p)\<lparr>web_notices := web_notices (page_web p) @
    [\<lparr>n_message = ''Withdrawing funds...'', n_description = ''Please review transactions to approve.''\<rparr>]\<rparr>"
  obtain e w where "sendTransaction C wallet (instructions b @ cleanupInstructions b) (tx_signers b) True ?s = (Inl e, ?s\<lparr>web_world := w\<rparr>)"
    using sendTransaction_refused [OF assms(2,3)] by blast
  then have "credit_ui newAccount K T L C n (Some frm) (of_int a) (Some wallet) (pa_info td) (page_web p) = (Inr (), ?s\<lparr>web_world := w\<rparr>)"
    using assms(2) b
    by (simp add: credit_ui_def connectedKey_def defined_def refuses_def sendLogged_def catchIO_def bindIO_def)
  then show ?thesis
    using assms(6-8)
    by (simp add: onWithdraw_def submit_def firstAccount_def defined_def onPage_def finallyIO_def catchIO_def bindIO_def stepIO_def
      slider_setValue_def Let_def)
qed

lemma refused_credit_confirmed_witness:
  "\<forall>td. \<exists>p'. onWithdraw of_nat sample_keys sample_tokenlib sample_ui (sample_web3 0) 0 (\<lambda>_. 0) (\<lambda>_. 0) sample_balance None (of_int 2039281)
      (Some (sample_wallet\<lparr>wallet_sign := (\<lambda>t w. (Inl (Error ''Transaction cancelled''), w))\<rparr>)) (Some td) sample_page = (Inr (), p') \<and>
    web_sent (page_web p') = [] \<and> showConfirmation p'"
proof
  fix td :: "(key, key Tenderize) ParsedAccount"
  let ?w = "sample_wallet\<lparr>wallet_sign := (\<lambda>t w. (Inl (Error ''Transaction cancelled''), w))\<rparr>"
  have "refuses ?w 70" "isReserveDepleted None (of_int 2039281) (of_int 1000)" "ub_accounts sample_balance = [sample_token False]"
    by (simp_all add: refuses_def sample_wallet_def isReserveDepleted_def sample_balance_def)
  then show "\<exists>p'. onWithdraw of_nat sample_keys sample_tokenlib sample_ui (sample_web3 0) 0 (\<lambda>_. 0) (\<lambda>_. 0) sample_balance None (of_int 2039281)
      (Some ?w) (Some td) sample_page = (Inr (), p') \<and> web_sent (page_web p') = [] \<and> showConfirmation p'"
    using refused_credit_confirmed [where K = sample_keys and p = sample_page and a = 1000 and T = sample_tokenlib and newAccount = of_nat
      and n = 0 and conv = "\<lambda>_. 0" and td = td, OF sample_ui_wf _ sample_web3_ok(2) [of 0] _ _ _ _ sample_amount [of "\<lambda>_. 0"]]
    by (force simp: MAX_SAFE_def sample_page_def sample_web_def)
qed

end
