(* ===== verification/UI_Storage.thy ===== *)
theory UI_Storage
  imports UI_Utils
begin

text \<open>
  \<open>useLocalStorageState\<close> of \<open>src/utils/utils.ts\<close>: a state kept in the browser's local storage as JSON. The page
  stores strings only, so \<open>JSON.stringify\<close> is modelled on strings and \<open>JSON.parse\<close> on the text of one string
  literal; any other text is an error here.
\<close>

section \<open>JSON strings\<close>

abbreviation quote :: char where "quote \<equiv> CHR 0x22"

abbreviation backslash :: char where "backslash \<equiv> CHR 0x5C"

definition hexDigit :: "nat \<Rightarrow> char" where
  "hexDigit n = (if n < 10 then char_of (n + 48) else char_of (n + 87))"

definition hexDigitValue :: "char \<Rightarrow> nat option" where
  "hexDigitValue c =
     (let n = of_char c :: nat
      in if 48 \<le> n \<and> n \<le> 57 then Some (n - 48)
         else if 97 \<le> n \<and> n \<le> 102 then Some (n - 87)
         else if 65 \<le> n \<and> n \<le> 70 then Some (n - 55) else None)"

text \<open>The characters with an escape of two characters.\<close>

definition shortEscapes :: "(char \<times> char) list" where
  "shortEscapes =
     [(quote, quote), (backslash, backslash), (CHR 0x08, CHR ''b''), (CHR 0x0C, CHR ''f''), (CHR 0x0A, CHR ''n''),
      (CHR 0x0D, CHR ''r''), (CHR 0x09, CHR ''t'')]"

definition escapeChar :: "char \<Rightarrow> string" where
  "escapeChar c =
     (case map_of shortEscapes c of
        Some e \<Rightarrow> [backslash, e]
      | None \<Rightarrow>
          (let n = of_char c :: nat
           in if n < 32 then [backslash, CHR ''u'', CHR ''0'', CHR ''0'', hexDigit (n div 16), hexDigit (n mod 16)] else [c]))"

definition JSON_stringify :: "string \<Rightarrow> string" where
  "JSON_stringify s = quote # concat (map escapeChar s) @ [quote]"

definition unescapeShort :: "char \<Rightarrow> char option" where
  "unescapeShort e = (if e = CHR ''/'' then Some e else map_of (map prod.swap shortEscapes) e)"

text \<open>One character of the literal and what follows it. Code units above 255 are outside the model's characters.\<close>

definition unescapeOne :: "string \<Rightarrow> (char \<times> string) option" where
  "unescapeOne cs =
     (case cs of
        [] \<Rightarrow> None
      | c # rest \<Rightarrow>
          if c = backslash then
            (case rest of
               [] \<Rightarrow> None
             | e # tail \<Rightarrow>
                 if e = CHR ''u'' then
                   (case map hexDigitValue (take 4 tail) of
                      [Some 0, Some 0, Some x, Some y] \<Rightarrow> Some (char_of (16 * x + y), drop 4 tail)
                    | _ \<Rightarrow> None)
                 else map_option (\<lambda>d. (d, tail)) (unescapeShort e))
          else if of_char c < (32 :: nat) then None else Some (c, rest))"

lemma unescapeOne_shorter: "unescapeOne cs = Some (c, rest) \<Longrightarrow> length rest < length cs"
  by (auto simp: unescapeOne_def split: list.splits if_splits option.splits nat.splits)

function unescape :: "string \<Rightarrow> string option" where
  "unescape cs =
     (if cs = [quote] then Some []
      else if cs = [] \<or> hd cs = quote then None
      else case unescapeOne cs of None \<Rightarrow> None | Some (c, rest) \<Rightarrow> map_option (Cons c) (unescape rest))"
  by pat_completeness auto

termination
  by (relation "measure length") (auto dest: unescapeOne_shorter)

declare unescape.simps [simp del]

definition JSON_parse :: "string \<Rightarrow> string option" where
  "JSON_parse t = (case t of c # cs \<Rightarrow> if c = quote then unescape cs else None | [] \<Rightarrow> None)"

lemma hex_small: "n < 16 \<Longrightarrow> hexDigitValue (hexDigit n) = Some n"
  by (auto simp: hexDigitValue_def hexDigit_def)

lemma escape_starts: "escapeChar c \<noteq> []" "hd (escapeChar c) \<noteq> quote"
  by (auto simp: escapeChar_def shortEscapes_def Let_def split: option.splits if_splits)

lemma unescapeOne_escape: "unescapeOne (escapeChar c @ rest) = Some (c, rest)"
proof (cases "map_of shortEscapes c")
  case (Some e)
  then show ?thesis
    by (auto simp: escapeChar_def unescapeOne_def unescapeShort_def shortEscapes_def split: if_splits)
next
  case None
  show ?thesis
  proof (cases "of_char c < (32 :: nat)")
    case True
    then have "(of_char c :: nat) div 16 < 16" "(of_char c :: nat) mod 16 < 16"
      by simp_all
    moreover have "hexDigitValue (CHR ''0'') = Some 0"
      by (simp add: hexDigitValue_def)
    ultimately show ?thesis
      using None True by (simp add: escapeChar_def unescapeOne_def hex_small Let_def)
  next
    case False
    then show ?thesis
      using None by (auto simp: escapeChar_def unescapeOne_def shortEscapes_def split: if_splits)
  qed
qed

lemma unescape_escape: "unescape (concat (map escapeChar s) @ [quote]) = Some s"
proof (induction s)
  case Nil
  then show ?case
    by (simp add: unescape.simps)
next
  case (Cons c s)
  then show ?case
    using escape_starts [of c] by (subst unescape.simps) (auto simp: unescapeOne_escape)
qed

lemma JSON_roundtrip: "JSON_parse (JSON_stringify s) = Some s"
  by (simp add: JSON_parse_def JSON_stringify_def unescape_escape)

section \<open>The hook\<close>

type_synonym local_storage = "string \<rightharpoonup> string"

datatype local_value = Undefined | Null | Str string

definition localStorageInit :: "string \<Rightarrow> local_value \<Rightarrow> local_storage \<Rightarrow> local_value res" where
  "localStorageInit key defaultState m =
     (case m key of
        Some (c # cs) \<Rightarrow>
          (case JSON_parse (c # cs) of None \<Rightarrow> Inl (Error ''SyntaxError'') | Some s \<Rightarrow> Inr (Str s))
      | _ \<Rightarrow> Inr defaultState)"

text \<open>\<open>JSON.stringify(undefined)\<close> is undefined, which \<open>setItem\<close> stores as a text.\<close>

definition setLocalStorageState ::
  "string \<Rightarrow> local_value \<Rightarrow> local_value \<times> local_storage \<Rightarrow> local_value \<times> local_storage" where
  "setLocalStorageState key newState = (\<lambda>(state, m).
     if state = newState then (state, m)
     else (newState,
           case newState of
             Null \<Rightarrow> m(key := None)
           | Undefined \<Rightarrow> m(key \<mapsto> ''undefined'')
           | Str s \<Rightarrow> m(key \<mapsto> JSON_stringify s)))"

lemma JSON_stringify_nonempty: "\<exists>c cs. JSON_stringify s = c # cs"
  by (simp add: JSON_stringify_def)

lemma set_then_init:
  assumes "localStorageInit key d m = Inr v"
  shows "localStorageInit key d (snd (setLocalStorageState key (Str s) (v, m))) = Inr (Str s)"
proof -
  obtain c cs where "JSON_stringify s = c # cs"
    using JSON_stringify_nonempty by blast
  then show ?thesis
    using assms JSON_roundtrip [of s] by (auto simp: setLocalStorageState_def localStorageInit_def)
qed

text \<open>
  C39. What the page shows survives a reload: after any number of changes to string values, starting
  from a state that was read from the storage or from the default, a new mount of the hook reads the
  last state back, and the values of other keys are untouched.
\<close>

theorem storage_restored:
  assumes "localStorageInit key d m = Inr v"
    "foldl (\<lambda>st s. setLocalStorageState key (Str s) st) (v, m) ss = (v', m')"
  shows "localStorageInit key d m' = Inr v' \<and> v' = (if ss = [] then v else Str (last ss)) \<and> (\<forall>k. k \<noteq> key \<longrightarrow> m' k = m k)"
  using assms
proof (induction ss arbitrary: v m)
  case (Cons s ss)
  obtain v1 m1 where 1: "setLocalStorageState key (Str s) (v, m) = (v1, m1)"
    by fastforce
  then have "v1 = Str s" "\<And>k. k \<noteq> key \<Longrightarrow> m1 k = m k"
    by (auto simp: setLocalStorageState_def split: if_splits)
  then show ?case
    using Cons.IH [where v = v1 and m = m1] Cons.prems 1 set_then_init [OF Cons.prems(1), of s] by auto
qed simp

theorem storage_restored_witness:
  "localStorageInit ''k'' Undefined (snd (foldl (\<lambda>st s. setLocalStorageState ''k'' (Str s) st) (Undefined, Map.empty)
    [''a'', [quote, CHR 0x01]])) = Inr (Str [quote, CHR 0x01])"
proof -
  have "localStorageInit ''k'' Undefined Map.empty = Inr Undefined"
    by (simp add: localStorageInit_def)
  from storage_restored [OF this, of "[''a'', [quote, CHR 0x01]]"] show ?thesis
    by (metis last.simps list.distinct(1) list.simps(3) prod.collapse)
qed

text \<open>
  Storing \<open>undefined\<close> breaks the next visit: the text stored is not JSON, so the hook raises when the page
  is loaded again.
\<close>

lemma undefined_breaks_reload:
  assumes "v \<noteq> Undefined"
  shows "\<exists>e. localStorageInit key d (snd (setLocalStorageState key Undefined (v, m))) = Inl e"
  using assms by (auto simp: setLocalStorageState_def localStorageInit_def JSON_parse_def)

end
