(* ===== verification/UI_Providers.thy ===== *)
theory UI_Providers
  imports UI_Storage UI_Cache_Invariants Wallets
begin

text \<open>
  The providers of the web client: \<open>ConnectionProvider\<close> (\<open>contexts/connection.tsx\<close>), \<open>TenderizeProvider\<close>
  (\<open>contexts/tenderize.tsx\<close>), \<open>AccountsProvider\<close> with \<open>UseNativeAccount\<close> (\<open>contexts/accounts.tsx\<close>) and \<open>WalletProvider\<close>
  (\<open>contexts/wallet.tsx\<close>). React runs an effect after the render in which its dependencies changed, and
  before that the cleanup which the effect's last run returned; here an effect is a function on the
  connection, its cleanup another one, and \<open>effect_step\<close> is React's rule. The listeners of a connection are
  the fields of \<open>listening\<close>, with what web3.js documents of them as the hypothesis \<open>wf_listening\<close>.
\<close>

section \<open>Settings of the connection\<close>

text \<open>\<open>clusterApiUrl\<close> of web3.js is an argument.\<close>

definition ENDPOINTS :: "(string \<Rightarrow> string) \<Rightarrow> (string \<times> string) list" where
  "ENDPOINTS clusterApiUrl =
     [(''localnet'', ''http://127.0.0.1:8899''),
      (''mainnet-beta'', ''https://solana-api.projectserum.com/''),
      (''testnet'', clusterApiUrl ''testnet''),
      (''devnet'', clusterApiUrl ''devnet'')]"

definition DEFAULT_ENDPOINT :: string where
  "DEFAULT_ENDPOINT = ''http://127.0.0.1:8899''"

definition connectionEnv :: "(string \<Rightarrow> string) \<Rightarrow> string \<Rightarrow> string" where
  "connectionEnv clusterApiUrl endpoint =
     (case find (\<lambda>e. snd e = endpoint) (ENDPOINTS clusterApiUrl) of
        Some e \<Rightarrow> fst e
      | None \<Rightarrow> fst (ENDPOINTS clusterApiUrl ! 0))"

definition knownMints :: "KnownToken list \<Rightarrow> KnownToken list \<Rightarrow> KnownTokenMap" where
  "knownMints LocalTokens list = foldl (\<lambda>m item. AList.update (mintAddress item) item m) [] (LocalTokens @ list)"

record token_list =
  tokens :: "KnownToken list"
  tokenMap :: KnownTokenMap

text \<open>A list that cannot be fetched counts as empty.\<close>

definition tokensFetched :: "KnownToken list \<Rightarrow> KnownToken list res \<Rightarrow> token_list" where
  "tokensFetched LocalTokens answer =
     (let list = (case answer of Inl e \<Rightarrow> [] | Inr l \<Rightarrow> l)
      in \<lparr>tokens = list, tokenMap = knownMints LocalTokens list\<rparr>)"

definition envChanged :: "('k, 'x, 't) cache \<Rightarrow> ('k, 'x, 't) cache" where
  "envChanged st = cache_clear st"

lemma map_of_foldl_update:
  "map_of (foldl (\<lambda>m i. AList.update (f i) i m) m xs) = map_of m ++ map_of (rev (map (\<lambda>i. (f i, i)) xs))"
  by (induction xs arbitrary: m) (simp_all add: update_conv' map_add_def fun_eq_iff split: option.splits)

text \<open>The published list overrides the local one, and of two entries for one mint the later counts.\<close>

lemma knownMints_last:
  "map_of (knownMints LocalTokens list) mint = find (\<lambda>t. mintAddress t = mint) (rev (LocalTokens @ list))"
proof -
  have "map_of (map (\<lambda>i. (mintAddress i, i)) xs) mint = find (\<lambda>t. mintAddress t = mint) xs" for xs
    by (induction xs) auto
  then show ?thesis
    using map_of_foldl_update [of mintAddress "[]" "LocalTokens @ list"]
    by (simp only: knownMints_def rev_map map_of.simps empty_map_add)
qed

section \<open>Listeners and effects\<close>

record ('k, 'h) listening =
  ask_account :: "'k \<Rightarrow> 'h \<Rightarrow> 'h"
  ask_tokens :: "'k \<Rightarrow> 'h \<Rightarrow> 'h"
  on_account :: "'k \<Rightarrow> 'h \<Rightarrow> nat \<times> 'h"
  off_account :: "nat \<Rightarrow> 'h \<Rightarrow> 'h"
  on_slot :: "'h \<Rightarrow> nat \<times> 'h"
  off_slot :: "nat \<Rightarrow> 'h \<Rightarrow> 'h"
  on_program :: "'k \<Rightarrow> 'h \<Rightarrow> nat \<times> 'h"
  off_program :: "nat \<Rightarrow> 'h \<Rightarrow> 'h"

datatype listener = AccountListener nat | SlotListener nat | ProgramListener nat

text \<open>A listener gets an id no live listener of its kind has; it is removed by that id; a request changes none.\<close>

definition subscribes :: "('h \<Rightarrow> listener set) \<Rightarrow> (nat \<Rightarrow> listener) \<Rightarrow> ('h \<Rightarrow> nat \<times> 'h) \<Rightarrow> (nat \<Rightarrow> 'h \<Rightarrow> 'h) \<Rightarrow> bool" where
  "subscribes heard mk on off \<longleftrightarrow>
     (\<forall>h i h'. on h = (i, h') \<longrightarrow> mk i \<notin> heard h \<and> heard h' = insert (mk i) (heard h)) \<and>
     (\<forall>i h. heard (off i h) = heard h - {mk i})"

definition wf_listening :: "('k, 'h) listening \<Rightarrow> ('h \<Rightarrow> listener set) \<Rightarrow> bool" where
  "wf_listening W heard \<longleftrightarrow>
     (\<forall>k h. heard (ask_account W k h) = heard h \<and> heard (ask_tokens W k h) = heard h) \<and>
     (\<forall>k. subscribes heard AccountListener (on_account W k) (off_account W)) \<and>
     subscribes heard SlotListener (on_slot W) (off_slot W) \<and>
     (\<forall>k. subscribes heard ProgramListener (on_program W k) (off_program W))"

definition tenderizeEffect :: "'k keylib \<Rightarrow> ('k, 'h) listening \<Rightarrow> 'h \<Rightarrow> nat \<times> 'h" where
  "tenderizeEffect K W h = on_account W (STAKE_POOL_ID K) (ask_account W (STAKE_POOL_ID K) h)"

definition reserveEffect :: "'k keylib \<Rightarrow> ('k, 'h) listening \<Rightarrow> 'h \<Rightarrow> nat \<times> 'h" where
  "reserveEffect K W h = on_account W (RESERVE_ADDRESS_PDA K) (ask_account W (RESERVE_ADDRESS_PDA K) h)"

text \<open>The listeners that keep a connection open; the key is that of a new account.\<close>

definition keepAccountEffect :: "('k, 'h) listening \<Rightarrow> 'k \<Rightarrow> 'h \<Rightarrow> nat \<times> 'h" where
  "keepAccountEffect W k h = on_account W k h"

definition keepSlotEffect :: "('k, 'h) listening \<Rightarrow> 'h \<Rightarrow> nat \<times> 'h" where
  "keepSlotEffect W h = on_slot W h"

definition tokenEffect :: "'k keylib \<Rightarrow> ('k, 'h) listening \<Rightarrow> 'k \<Rightarrow> 'h \<Rightarrow> nat \<times> 'h" where
  "tokenEffect K W pk h = on_program W (token (programIds K)) (ask_tokens W pk h)"

text \<open>
  The effects whose cleanup removes the listener they added: the pool's account, the reserve, the two kinds of listeners that keep
  the connection and the sending connection open, and the token accounts of the wallet.
\<close>

datatype page_effect = PoolAccount | ReserveAccount | KeepAccount bool | KeepSlot bool | TokenAccounts

fun runEffect :: "'k keylib \<Rightarrow> ('k, 'h) listening \<Rightarrow> 'k \<Rightarrow> 'k \<Rightarrow> page_effect \<Rightarrow> 'h \<Rightarrow> nat \<times> 'h" where
  "runEffect K W new pk PoolAccount = tenderizeEffect K W"
| "runEffect K W new pk ReserveAccount = reserveEffect K W"
| "runEffect K W new pk (KeepAccount sending) = keepAccountEffect W new"
| "runEffect K W new pk (KeepSlot sending) = keepSlotEffect W"
| "runEffect K W new pk TokenAccounts = tokenEffect K W pk"

fun cleanEffect :: "('k, 'h) listening \<Rightarrow> page_effect \<Rightarrow> nat \<Rightarrow> 'h \<Rightarrow> 'h" where
  "cleanEffect W PoolAccount = off_account W"
| "cleanEffect W ReserveAccount = off_account W"
| "cleanEffect W (KeepAccount sending) = off_account W"
| "cleanEffect W (KeepSlot sending) = off_slot W"
| "cleanEffect W TokenAccounts = off_program W"

fun ownListener :: "page_effect \<Rightarrow> nat \<Rightarrow> listener" where
  "ownListener (KeepSlot sending) i = SlotListener i"
| "ownListener TokenAccounts i = ProgramListener i"
| "ownListener _ i = AccountListener i"

text \<open>
  The page: its connections, and for each effect that has run the connection it ran on and the id it
  keeps for the cleanup. An effect runs when it is mounted or a dependency changed; it is only cleaned
  when it is unmounted or the new run returns early.
\<close>

record ('e, 'c, 'h) effects =
  conns :: "'c \<Rightarrow> 'h"
  handles :: "'e \<Rightarrow> ('c \<times> nat) option"

datatype ('e, 'c) effect_event = Ran 'e 'c | Cleaned 'e

definition cleanUp :: "('e \<Rightarrow> nat \<Rightarrow> 'h \<Rightarrow> 'h) \<Rightarrow> 'e \<Rightarrow> ('e, 'c, 'h) effects \<Rightarrow> ('e, 'c, 'h) effects" where
  "cleanUp clean e st =
     (case handles st e of
        None \<Rightarrow> st
      | Some (c, i) \<Rightarrow> st\<lparr>conns := (conns st)(c := clean e i (conns st c)), handles := (handles st)(e := None)\<rparr>)"

fun effect_step ::
  "('e \<Rightarrow> 'h \<Rightarrow> nat \<times> 'h) \<Rightarrow> ('e \<Rightarrow> nat \<Rightarrow> 'h \<Rightarrow> 'h) \<Rightarrow> ('e, 'c, 'h) effects \<Rightarrow> ('e, 'c) effect_event \<Rightarrow> ('e, 'c, 'h) effects" where
  "effect_step run clean st (Ran e c) =
     (let st = cleanUp clean e st; (i, h) = run e (conns st c)
      in st\<lparr>conns := (conns st)(c := h), handles := (handles st)(e \<mapsto> (c, i))\<rparr>)"
| "effect_step run clean st (Cleaned e) = cleanUp clean e st"

text \<open>The contract of an effect with its cleanup, and what it gives for the whole page.\<close>

locale scoped_effects =
  fixes ok :: bool
    and run :: "'e \<Rightarrow> 'h \<Rightarrow> nat \<times> 'h"
    and clean :: "'e \<Rightarrow> nat \<Rightarrow> 'h \<Rightarrow> 'h"
    and own :: "'e \<Rightarrow> nat \<Rightarrow> 'l"
    and heard :: "'h \<Rightarrow> 'l set"
  assumes run_adds: "ok \<Longrightarrow> run e h = (i, h') \<Longrightarrow> own e i \<notin> heard h \<and> heard h' = insert (own e i) (heard h)"
    and clean_removes: "ok \<Longrightarrow> heard (clean e i h) = heard h - {own e i}"
begin

definition balanced :: "('c \<Rightarrow> 'h) \<Rightarrow> ('e, 'c, 'h) effects \<Rightarrow> bool" where
  "balanced w0 st \<longleftrightarrow>
     (\<forall>c. heard (conns st c) = heard (w0 c) \<union> {own e i |e i. handles st e = Some (c, i)}) \<and>
     (\<forall>e c i. handles st e = Some (c, i) \<longrightarrow> own e i \<notin> heard (w0 c)) \<and>
     (\<forall>e e' c i j. handles st e = Some (c, i) \<longrightarrow> handles st e' = Some (c, j) \<longrightarrow> own e i = own e' j \<longrightarrow> e = e')"

lemma balanced_clean:
  assumes ok "balanced w0 st"
  shows "balanced w0 (cleanUp clean e st)"
proof (cases "handles st e")
  case None
  then show ?thesis
    using assms by (simp add: cleanUp_def)
next
  case (Some ci)
  obtain c i where ci: "ci = (c, i)"
    by fastforce
  have old: "own e i \<notin> heard (w0 c)" "heard (conns st c) = heard (w0 c) \<union> {own f j |f j. handles st f = Some (c, j)}"
    "\<And>f j. handles st f = Some (c, j) \<Longrightarrow> own f j = own e i \<Longrightarrow> f = e"
    using assms(2) Some ci unfolding balanced_def by blast+
  have "heard (conns st c) - {own e i} = heard (w0 c) \<union> {own f j |f j. f \<noteq> e \<and> handles st f = Some (c, j)}"
    unfolding old(2)
  proof (intro equalityI subsetI)
    fix l
    assume l: "l \<in> heard (w0 c) \<union> {own f j |f j. handles st f = Some (c, j)} - {own e i}"
    have "f \<noteq> e" if "handles st f = Some (c, j)" "own f j = l" for f j
      using that l Some ci by auto
    then show "l \<in> heard (w0 c) \<union> {own f j |f j. f \<noteq> e \<and> handles st f = Some (c, j)}"
      using l by blast
  qed (use old(1,3) in auto)
  then show ?thesis
    using assms Some ci by (auto simp: balanced_def cleanUp_def clean_removes) (metis option.inject prod.inject)
qed

lemma balanced_run:
  assumes ok "balanced w0 st" "handles st e = None" "run e (conns st c) = (i, h)"
  shows "balanced w0 (st\<lparr>conns := (conns st)(c := h), handles := (handles st)(e \<mapsto> (c, i))\<rparr>)"
proof -
  have new: "own e i \<notin> heard (conns st c)" "heard h = insert (own e i) (heard (conns st c))"
    using run_adds [OF assms(1,4)] by simp_all
  have mem: "own f j \<in> heard (conns st c)" if "handles st f = Some (c, j)" for f j
    using assms(2) that unfolding balanced_def by blast
  have "heard (w0 c) \<subseteq> heard (conns st c)"
    using assms(2) unfolding balanced_def by blast
  then have fresh: "own e i \<notin> heard (w0 c)" "handles st f = Some (c, j) \<Longrightarrow> own f j \<noteq> own e i" for f j
    using new(1) mem [of f j] by auto
  show ?thesis
    using assms(2,3) new fresh by (auto simp: balanced_def) (metis option.distinct(1))+
qed

lemma balanced_steps:
  assumes ok
  shows "balanced w0 (foldl (effect_step run clean) \<lparr>conns = w0, handles = Map.empty\<rparr> evs)"
proof (induction evs rule: rev_induct)
  case Nil
  then show ?case
    by (simp add: balanced_def)
next
  case (snoc ev evs)
  have none: "handles (cleanUp clean e st) e = None" for e :: 'e and st :: "('e, 'c, 'h) effects"
    by (simp add: cleanUp_def split: option.splits)
  let ?st = "\<lambda>e. cleanUp clean e (foldl (effect_step run clean) \<lparr>conns = w0, handles = Map.empty\<rparr> evs)"
  show ?case
  proof (cases ev)
    case (Ran e c)
    obtain i h where "run e (conns (?st e) c) = (i, h)"
      by fastforce
    then show ?thesis
      using balanced_run [OF assms balanced_clean [OF assms snoc.IH] none] Ran by (simp add: Let_def)
  next
    case (Cleaned e)
    then show ?thesis
      using balanced_clean [OF assms snoc.IH] by simp
  qed
qed

end

interpretation page: scoped_effects "wf_listening W heard" "runEffect K W new pk" "cleanEffect W" ownListener heard
  for W heard K new pk
proof unfold_locales
  fix e h i h'
  assume W: "wf_listening W heard"
  then have asks: "heard (ask_account W k h) = heard h" "heard (ask_tokens W k h) = heard h" for k h
    by (simp_all add: wf_listening_def)
  show "heard (cleanEffect W e i h) = heard h - {ownListener e i}"
    using W by (cases e) (auto simp: wf_listening_def subscribes_def)
  assume "runEffect K W new pk e h = (i, h')"
  then show "ownListener e i \<notin> heard h \<and> heard h' = insert (ownListener e i) (heard h)"
    using W asks
    by (cases e) (auto simp: wf_listening_def subscribes_def tenderizeEffect_def reserveEffect_def keepAccountEffect_def
      keepSlotEffect_def tokenEffect_def dest!: spec)
qed

text \<open>
  C38. No listener is left behind by the effects for the pool's account, the reserve, the open connections
  and the wallet's token accounts. However they are mounted, run again on another connection and unmounted,
  a connection hears what it heard before the page and, for
  each effect that is running on it, the one listener of its last run; when all are unmounted, it hears
  what it heard at first.
\<close>

theorem page_listeners:
  assumes "wf_listening W heard"
    "foldl (effect_step (runEffect K W new pk) (cleanEffect W)) \<lparr>conns = w, handles = Map.empty\<rparr> evs = st"
  shows "heard (conns st c) = heard (w c) \<union> {ownListener e i |e i. handles st e = Some (c, i)} \<and>
    (\<forall>e i. handles st e = Some (c, i) \<longrightarrow> ownListener e i \<notin> heard (w c)) \<and>
    (handles st = Map.empty \<longrightarrow> heard (conns st c) = heard (w c))"
proof -
  have "page.balanced heard w st"
    using page.balanced_steps [OF assms(1)] assms(2) by blast
  then show ?thesis
    unfolding page.balanced_def by auto
qed

text \<open>A connection that is the list of its listeners and numbers a new one beyond all of them.\<close>

fun listener_id :: "listener \<Rightarrow> nat" where
  "listener_id (AccountListener i) = i"
| "listener_id (SlotListener i) = i"
| "listener_id (ProgramListener i) = i"

definition listen :: "(nat \<Rightarrow> listener) \<Rightarrow> listener list \<Rightarrow> nat \<times> listener list" where
  "listen mk ls = (let i = Suc (sum_list (map listener_id ls)) in (i, mk i # ls))"

definition unlisten :: "(nat \<Rightarrow> listener) \<Rightarrow> nat \<Rightarrow> listener list \<Rightarrow> listener list" where
  "unlisten mk i ls = removeAll (mk i) ls"

definition sample_listening :: "(key, listener list) listening" where
  "sample_listening =
     \<lparr>ask_account = (\<lambda>k h. h), ask_tokens = (\<lambda>k h. h),
      on_account = (\<lambda>k. listen AccountListener), off_account = unlisten AccountListener,
      on_slot = listen SlotListener, off_slot = unlisten SlotListener,
      on_program = (\<lambda>k. listen ProgramListener), off_program = unlisten ProgramListener\<rparr>"

lemma sample_listening_wf: "wf_listening sample_listening set"
proof -
  have "l \<notin> set ls" if "listener_id l = Suc (sum_list (map listener_id ls))" for l ls
  proof
    assume "l \<in> set ls"
    then have "listener_id l \<in> set (map listener_id ls)"
      by simp
    from member_le_sum_list [OF this] show False
      using that by simp
  qed
  then have "subscribes set mk (listen mk) (unlisten mk)" if "\<And>i. listener_id (mk i) = i" for mk
    using that unfolding subscribes_def listen_def unlisten_def Let_def by simp
  then show ?thesis
    by (simp add: wf_listening_def sample_listening_def)
qed

theorem page_listeners_witness:
  "set (conns (foldl (effect_step (runEffect sample_keys sample_listening 8 9) (cleanEffect sample_listening))
      \<lparr>conns = (\<lambda>c. [SlotListener 3]), handles = Map.empty\<rparr>
      [Ran PoolAccount False, Ran TokenAccounts False, Ran PoolAccount True, Cleaned TokenAccounts, Cleaned PoolAccount]) True) =
    {SlotListener 3}"
  using page_listeners [OF sample_listening_wf refl, where K = sample_keys and new = 8 and pk = 9 and
      w = "\<lambda>c. [SlotListener 3]" and c = True and
      evs = "[Ran PoolAccount False, Ran TokenAccounts False, Ran PoolAccount True, Cleaned TokenAccounts, Cleaned PoolAccount]"]
  by (simp add: cleanUp_def split_beta)

section \<open>The native account of the wallet\<close>

text \<open>
  \<open>UseNativeAccount\<close>: its effect asks for the account of the wallet's key and listens to it, and returns no
  cleanup, so the listeners of earlier keys stay. Each callback keeps the key of the run that made it.
\<close>

record ('k, 'x, 't) native_hook =
  nh_key :: "'k option"
  nh_listening :: "'k list"
  nativeAccount :: "'k account_info option"
  nh_cache :: "('k, 'x, 't) cache"

definition nativeEffect :: "'k option \<Rightarrow> ('k, 'x, 't) native_hook \<Rightarrow> ('k, 'x, 't) native_hook" where
  "nativeEffect pk st =
     (case pk of None \<Rightarrow> st\<lparr>nh_key := None\<rparr> | Some k \<Rightarrow> st\<lparr>nh_key := Some k, nh_listening := nh_listening st @ [k]\<rparr>)"

definition nativeCallback ::
  "'k keylib \<Rightarrow> (number \<Rightarrow> int) \<Rightarrow> 'k \<Rightarrow> 'k account_info option \<Rightarrow> ('k, 'x, 't) native_hook \<Rightarrow> ('k, 'x, 't) native_hook" where
  "nativeCallback K new_u64 k acc st =
     (case acc of
        None \<Rightarrow> st
      | Some a \<Rightarrow> st\<lparr>nh_cache := updateCache K new_u64 (Some k) acc (nh_cache st), nativeAccount := Some a\<rparr>)"



end
