(* ===== verification/Onchain_Runtime.thy ===== *)
theory Onchain_Runtime
  imports Onchain_Layout
begin

text \<open>
  What the on-chain program stands on: its errors (\<open>program/src/error.rs\<close>), the accounts it is handed, the
  calls it makes into other programs, and the stake program's types and instructions (\<open>stake.rs\<close>).
  Accounts live in a store keyed by address, so that an account named twice is one account. The system
  program, the token program, the stake program and the runtime that derives addresses and reads the
  sysvars are outside the repository: they are the fields of \<open>runtime\<close>, an argument of every handler.
  The chain program is a release build, so that unchecked \<open>u64\<close> and \<open>u32\<close> arithmetic wraps.
\<close>

section \<open>Errors\<close>

datatype StakePoolError =
    AlreadyInUse
  | InvalidProgramAddress
  | InvalidState
  | CalculationFailure
  | FeeTooHigh
  | WrongAccountMint
  | NonZeroBalance
  | WrongOwner
  | SignatureMissing
  | InvalidValidatorStakeList
  | InvalidFeeAccount
  | WrongPoolMint
  | WrongStakeState
  | UserStakeNotActive
  | ValidatorAlreadyAdded
  | ValidatorNotFound
  | InvalidStakeAccountAddress
  | StakeListOutOfDate
  | StakeListAndPoolOutOfDate
  | UnknownValidatorStakeAccount
  | WrongMintingAuthority
  | MintHasInitialSupply
  | AccountNotRentExempt
  | ValidatorListOverflow
  | ValidatorHasStakes
  | FirstDepositIsTooSmall
  | WrongCreditOwner
  | WrongCreditState
  | InvalidStakeIndex
  | CreditListOverfow
  | UnknownCreditor

primrec error_code :: "StakePoolError \<Rightarrow> nat" where
  "error_code AlreadyInUse = 0"
| "error_code InvalidProgramAddress = 1"
| "error_code InvalidState = 2"
| "error_code CalculationFailure = 3"
| "error_code FeeTooHigh = 4"
| "error_code WrongAccountMint = 5"
| "error_code NonZeroBalance = 6"
| "error_code WrongOwner = 7"
| "error_code SignatureMissing = 8"
| "error_code InvalidValidatorStakeList = 9"
| "error_code InvalidFeeAccount = 10"
| "error_code WrongPoolMint = 11"
| "error_code WrongStakeState = 12"
| "error_code UserStakeNotActive = 13"
| "error_code ValidatorAlreadyAdded = 14"
| "error_code ValidatorNotFound = 15"
| "error_code InvalidStakeAccountAddress = 16"
| "error_code StakeListOutOfDate = 17"
| "error_code StakeListAndPoolOutOfDate = 18"
| "error_code UnknownValidatorStakeAccount = 19"
| "error_code WrongMintingAuthority = 20"
| "error_code MintHasInitialSupply = 21"
| "error_code AccountNotRentExempt = 22"
| "error_code ValidatorListOverflow = 23"
| "error_code ValidatorHasStakes = 24"
| "error_code FirstDepositIsTooSmall = 25"
| "error_code WrongCreditOwner = 26"
| "error_code WrongCreditState = 27"
| "error_code InvalidStakeIndex = 28"
| "error_code CreditListOverfow = 29"
| "error_code UnknownCreditor = 30"

definition into :: "StakePoolError \<Rightarrow> program_error" where
  "into e = Custom (error_code e)"

definition bindP :: "'e + 'a \<Rightarrow> ('a \<Rightarrow> 'e + 'b) \<Rightarrow> 'e + 'b" where
  "bindP r f = (case r of Inl e \<Rightarrow> Inl e | Inr x \<Rightarrow> f x)"

definition ok_or :: "'a option \<Rightarrow> 'e \<Rightarrow> 'e + 'a" where
  "ok_or x e = (case x of None \<Rightarrow> Inl e | Some y \<Rightarrow> Inr y)"

lemma bindP_simps [simp]: "bindP (Inr x) f = f x" "bindP (Inl e) f = Inl e"
  by (simp_all add: bindP_def)

lemma ok_or_simps [simp]: "ok_or (Some x) e = Inr x" "ok_or None e = Inl e"
  by (simp_all add: ok_or_def)

lemma bindP_cong [fundef_cong]: "r = r' \<Longrightarrow> (\<And>x. r' = Inr x \<Longrightarrow> f x = g x) \<Longrightarrow> bindP r f = bindP r' g"
  by (cases r') simp_all

lemma bindP_Inr: "bindP r f = Inr y \<longleftrightarrow> (\<exists>x. r = Inr x \<and> f x = Inr y)"
  by (cases r) simp_all

lemma guard_Inr: "(if c then Inl e else r) = Inr y \<longleftrightarrow> \<not> c \<and> r = Inr y"
  by simp

lemma ok_or_Inr: "ok_or r e = Inr y \<longleftrightarrow> r = Some y"
  by (cases r) simp_all

section \<open>Unsigned arithmetic\<close>

definition wadd64 :: "nat \<Rightarrow> nat \<Rightarrow> nat" where "wadd64 a b = (a + b) mod 2 ^ 64"

definition wsub64 :: "nat \<Rightarrow> nat \<Rightarrow> nat" where "wsub64 a b = nat ((int a - int b) mod 2 ^ 64)"

definition wadd32 :: "nat \<Rightarrow> nat \<Rightarrow> nat" where "wadd32 a b = (a + b) mod 2 ^ 32"

definition wsub32 :: "nat \<Rightarrow> nat \<Rightarrow> nat" where "wsub32 a b = nat ((int a - int b) mod 2 ^ 32)"

definition checked_sub :: "nat \<Rightarrow> nat \<Rightarrow> nat option" where
  "checked_sub a b = (if b \<le> a then Some (a - b) else None)"

definition saturating_sub :: "nat \<Rightarrow> nat \<Rightarrow> nat" where
  "saturating_sub a b = (if b \<le> a then a - b else 0)"

definition checked_mul128 :: "nat \<Rightarrow> nat \<Rightarrow> nat option" where
  "checked_mul128 a b = (if a * b < 2 ^ 128 then Some (a * b) else None)"

definition checked_div128 :: "nat \<Rightarrow> nat \<Rightarrow> nat option" where
  "checked_div128 a b = (if b = 0 then None else Some (a div b))"

definition u64_try_from :: "nat \<Rightarrow> nat option" where
  "u64_try_from a = (if a < 2 ^ 64 then Some a else None)"

lemma checked_sub_Some: "checked_sub a b = Some c \<longleftrightarrow> b \<le> a \<and> c = a - b"
  by (auto simp: checked_sub_def)

lemma wadd64_exact: "a + b < 2 ^ 64 \<Longrightarrow> wadd64 a b = a + b"
  by (simp add: wadd64_def)

lemma wsub64_exact:
  assumes "b \<le> a" "a < 2 ^ 64"
  shows "wsub64 a b = a - b"
proof -
  have "(int a - int b) mod 2 ^ 64 = int (a - b)"
    using assms by (simp add: of_nat_diff)
  then show ?thesis
    by (simp add: wsub64_def)
qed

lemma wadd64_bound [simp]: "wadd64 a b < 2 ^ 64"
  by (simp add: wadd64_def)

lemma wsub64_bound [simp]: "wsub64 a b < 2 ^ 64"
  by (simp add: wsub64_def nat_less_iff)

lemma wadd32_exact: "a + b < 2 ^ 32 \<Longrightarrow> wadd32 a b = a + b"
  by (simp add: wadd32_def)

lemma wsub32_exact:
  assumes "b \<le> a" "a < 2 ^ 32"
  shows "wsub32 a b = a - b"
proof -
  have "(int a - int b) mod 2 ^ 32 = int (a - b)"
    using assms by (simp add: of_nat_diff)
  then show ?thesis
    by (simp add: wsub32_def)
qed

lemma wadd32_bound [simp]: "wadd32 a b < 2 ^ 32"
  by (simp add: wadd32_def)

lemma wsub32_bound [simp]: "wsub32 a b < 2 ^ 32"
  by (simp add: wsub32_def nat_less_iff)

lemma wsub32_le: "b \<le> a \<Longrightarrow> wsub32 a b \<le> a"
  by (simp add: wsub32_def nat_le_iff zmod_le_nonneg_dividend order_trans [OF zmod_le_nonneg_dividend])

text \<open>The bounds as the simplifier writes them.\<close>

lemmas wrapped_bounds [simp] =
  wadd64_bound [simplified] wsub64_bound [simplified] wadd32_bound [simplified] wsub32_bound [simplified]

section \<open>The stake program\<close>

record Authorized =
  staker :: buffer
  withdrawer :: buffer

record Lockup =
  unix_timestamp :: int
  lockup_epoch :: nat
  custodian :: buffer

record Meta =
  rent_exempt_reserve :: nat
  authorized :: Authorized
  lockup :: Lockup

text \<open>\<open>warmup_cooldown_rate\<close> is a \<open>f64\<close> that the program carries and never reads: its bits.\<close>

record Delegation =
  voter_pubkey :: buffer
  dlg_stake :: nat
  activation_epoch :: nat
  deactivation_epoch :: nat
  warmup_cooldown_rate :: nat

record Stake =
  delegation :: Delegation
  credits_observed :: nat

datatype StakeState = Uninitialized | Initialized Meta | Staked Meta Stake | RewardsPool

datatype StakeAuthorize = Staker | Withdrawer

datatype StakeInstruction =
    SI_Initialize Authorized Lockup
  | SI_Authorize buffer StakeAuthorize
  | SI_DelegateStake
  | SI_Split nat
  | SI_Withdraw nat
  | SI_Deactivate
  | SI_SetLockupNOTUSED
  | SI_Merge
  | SI_AuthorizeWithSeedNOTUSED

definition Lockup_default :: Lockup where
  "Lockup_default = \<lparr>unix_timestamp = 0, lockup_epoch = 0, custodian = replicate 32 0\<rparr>"

record AccountMeta =
  am_pubkey :: buffer
  am_is_signer :: bool
  am_is_writable :: bool

definition meta_new :: "buffer \<Rightarrow> bool \<Rightarrow> AccountMeta" where
  "meta_new k sg = \<lparr>am_pubkey = k, am_is_signer = sg, am_is_writable = True\<rparr>"

definition meta_new_readonly :: "buffer \<Rightarrow> bool \<Rightarrow> AccountMeta" where
  "meta_new_readonly k sg = \<lparr>am_pubkey = k, am_is_signer = sg, am_is_writable = False\<rparr>"

section \<open>Accounts, calls and the runtime\<close>

record account =
  ac_owner :: buffer
  ac_lamports :: nat
  ac_data :: buffer

record AccountInfo =
  ai_key :: buffer
  is_signer :: bool

text \<open>
  A call into another program. The instructions of the stake program are built in \<open>stake.rs\<close>; those of the
  system and token programs are named by the builder that makes them and its arguments.
\<close>

datatype cpi =
    StakeIx StakeInstruction "AccountMeta list"
  | Sys_transfer buffer buffer nat
  | Sys_create_account buffer buffer nat nat buffer
  | Token_mint_to buffer buffer buffer buffer nat
  | Token_burn buffer buffer buffer buffer nat
  | Token_transfer buffer buffer buffer buffer nat
  | Token_initialize_account buffer buffer buffer buffer
  | Token_close_account buffer buffer buffer buffer
  | Token_set_owner buffer buffer buffer buffer

record Rent =
  minimum_balance :: "nat \<Rightarrow> nat"
  is_exempt :: "nat \<Rightarrow> nat \<Rightarrow> bool"

record token_state =
  tk_mint :: buffer
  tk_initialized :: bool
  tk_delegate :: "buffer option"
  tk_close_authority :: "buffer option"

record mint_state =
  mint_authority :: "buffer option"
  mint_supply :: nat

record runtime =
  rt_invoke :: "cpi \<Rightarrow> buffer list \<Rightarrow> buffer list list \<Rightarrow> (buffer \<Rightarrow> account) \<Rightarrow> program_error + (buffer \<Rightarrow> account)"
  create_program_address :: "buffer list \<Rightarrow> buffer \<Rightarrow> buffer option"
  find_program_address :: "buffer list \<Rightarrow> buffer \<Rightarrow> buffer \<times> nat"
  clock_epoch :: "buffer \<Rightarrow> buffer \<Rightarrow> program_error + nat"
  rent_of :: "buffer \<Rightarrow> buffer \<Rightarrow> program_error + Rent"
  unpack_token :: "buffer \<Rightarrow> program_error + token_state"
  unpack_mint :: "buffer \<Rightarrow> program_error + mint_state"
  decode_stake :: "buffer \<Rightarrow> StakeState option"
  system_program_id :: buffer
  spl_token_id :: buffer
  native_mint_id :: buffer
  stake_id :: buffer
  sysvar_clock :: buffer
  sysvar_stake_history :: buffer
  sysvar_rent :: buffer
  STAKE_CONFIG :: buffer
  TokenAccount_LEN :: nat
  StakeState_size :: nat
  pad_pool :: buffer
  pad_vsi :: buffer

text \<open>The state of a transaction: the accounts, and the calls made so far with the seeds that sign them.\<close>

record chain =
  accts :: "buffer \<Rightarrow> account"
  cpis :: "(cpi \<times> buffer list list) list"

definition invoke_signed ::
  "runtime \<Rightarrow> cpi \<Rightarrow> AccountInfo list \<Rightarrow> buffer list list \<Rightarrow> chain \<Rightarrow> program_error + chain" where
  "invoke_signed R ix infos seeds s =
     bindP (rt_invoke R ix (map ai_key infos) seeds (accts s)) (\<lambda>a.
     Inr (s\<lparr>accts := a, cpis := cpis s @ [(ix, seeds)]\<rparr>))"

definition invoke :: "runtime \<Rightarrow> cpi \<Rightarrow> AccountInfo list \<Rightarrow> chain \<Rightarrow> program_error + chain" where
  "invoke R ix infos s = invoke_signed R ix infos [] s"

definition acct :: "AccountInfo \<Rightarrow> chain \<Rightarrow> account" where
  "acct i s = accts s (ai_key i)"

definition put_data :: "AccountInfo \<Rightarrow> buffer \<Rightarrow> chain \<Rightarrow> chain" where
  "put_data i d s = s\<lparr>accts := (accts s)(ai_key i := (acct i s)\<lparr>ac_data := d\<rparr>)\<rparr>"

text \<open>\<open>next_account_info\<close>, with the rest of the handler as its continuation: the iterator is what is left.\<close>

definition next_account_info ::
  "AccountInfo list \<Rightarrow> (AccountInfo \<Rightarrow> AccountInfo list \<Rightarrow> program_error + 'a) \<Rightarrow> program_error + 'a" where
  "next_account_info it k = (case it of [] \<Rightarrow> Inl NotEnoughAccountKeys | i # it' \<Rightarrow> k i it')"

definition Clock_from_account_info :: "runtime \<Rightarrow> AccountInfo \<Rightarrow> chain \<Rightarrow> program_error + nat" where
  "Clock_from_account_info R i s = clock_epoch R (ai_key i) (ac_data (acct i s))"

definition Rent_from_account_info :: "runtime \<Rightarrow> AccountInfo \<Rightarrow> chain \<Rightarrow> program_error + Rent" where
  "Rent_from_account_info R i s = rent_of R (ai_key i) (ac_data (acct i s))"

lemma next_account_info_simps [simp]:
  "next_account_info [] k = Inl NotEnoughAccountKeys" "next_account_info (i # it) k = k i it"
  by (simp_all add: next_account_info_def)

lemma next_account_info_Inr: "next_account_info it k = Inr y \<longleftrightarrow> (\<exists>i it'. it = i # it' \<and> k i it' = Inr y)"
  by (cases it) simp_all

lemma put_data_simps [simp]:
  "cpis (put_data i d s) = cpis s"
  "accts (put_data i d s) k = (if k = ai_key i then (accts s k)\<lparr>ac_data := d\<rparr> else accts s k)"
  by (simp_all add: put_data_def acct_def)

section \<open>Instructions of the stake program\<close>

definition split_only :: "buffer \<Rightarrow> buffer \<Rightarrow> nat \<Rightarrow> buffer \<Rightarrow> cpi" where
  "split_only stake_pubkey authorized_pubkey lam split_stake_pubkey =
     StakeIx (SI_Split lam)
       [meta_new stake_pubkey False, meta_new split_stake_pubkey False, meta_new_readonly authorized_pubkey True]"

definition authorize :: "runtime \<Rightarrow> buffer \<Rightarrow> buffer \<Rightarrow> buffer \<Rightarrow> StakeAuthorize \<Rightarrow> cpi" where
  "authorize R stake_pubkey authorized_pubkey new_authorized_pubkey stake_authorize =
     StakeIx (SI_Authorize new_authorized_pubkey stake_authorize)
       [meta_new stake_pubkey False, meta_new_readonly (sysvar_clock R) False, meta_new_readonly authorized_pubkey True]"

definition merge :: "runtime \<Rightarrow> buffer \<Rightarrow> buffer \<Rightarrow> buffer \<Rightarrow> cpi" where
  "merge R destination_stake_pubkey source_stake_pubkey authorized_pubkey =
     StakeIx SI_Merge
       [meta_new destination_stake_pubkey False, meta_new source_stake_pubkey False,
        meta_new_readonly (sysvar_clock R) False, meta_new_readonly (sysvar_stake_history R) False,
        meta_new_readonly authorized_pubkey True]"

definition stake_initialize :: "runtime \<Rightarrow> buffer \<Rightarrow> Authorized \<Rightarrow> Lockup \<Rightarrow> cpi" where
  "stake_initialize R stake_pubkey auth lock =
     StakeIx (SI_Initialize auth lock) [meta_new stake_pubkey False, meta_new_readonly (sysvar_rent R) False]"

definition stake_create_account :: "runtime \<Rightarrow> buffer \<Rightarrow> buffer \<Rightarrow> Authorized \<Rightarrow> Lockup \<Rightarrow> nat \<Rightarrow> cpi list" where
  "stake_create_account R from_pubkey stake_pubkey auth lock lam =
     [Sys_create_account from_pubkey stake_pubkey lam (StakeState_size R) (stake_id R), stake_initialize R stake_pubkey auth lock]"

definition delegate_stake :: "runtime \<Rightarrow> buffer \<Rightarrow> buffer \<Rightarrow> buffer \<Rightarrow> cpi" where
  "delegate_stake R stake_pubkey authorized_pubkey vote_pubkey =
     StakeIx SI_DelegateStake
       [meta_new stake_pubkey False, meta_new_readonly vote_pubkey False, meta_new_readonly (sysvar_clock R) False,
        meta_new_readonly (sysvar_stake_history R) False, meta_new_readonly (STAKE_CONFIG R) False,
        meta_new_readonly authorized_pubkey True]"

definition stake_withdraw :: "runtime \<Rightarrow> buffer \<Rightarrow> buffer \<Rightarrow> buffer \<Rightarrow> nat \<Rightarrow> buffer option \<Rightarrow> cpi" where
  "stake_withdraw R stake_pubkey withdrawer_pubkey to_pubkey lam custodian_pubkey =
     StakeIx (SI_Withdraw lam)
       ([meta_new stake_pubkey False, meta_new to_pubkey False, meta_new_readonly (sysvar_clock R) False,
         meta_new_readonly (sysvar_stake_history R) False, meta_new_readonly withdrawer_pubkey True] @
        (case custodian_pubkey of Some c \<Rightarrow> [meta_new_readonly c True] | None \<Rightarrow> []))"

definition deactivate_stake :: "runtime \<Rightarrow> buffer \<Rightarrow> buffer \<Rightarrow> cpi" where
  "deactivate_stake R stake_pubkey authorized_pubkey =
     StakeIx SI_Deactivate
       [meta_new stake_pubkey False, meta_new_readonly (sysvar_clock R) False, meta_new_readonly authorized_pubkey True]"

end
