(* ===== verification/Onchain_Pool.thy ===== *)
theory Onchain_Pool
  imports Onchain_Runtime
begin

text \<open>
  The pool's own bookkeeping: the conversions between lamports and pool tokens, the checks and the
  stored lists of \<open>program/src/state.rs\<close>, and the authorities and token calls that open
  \<open>processor.rs\<close>. The lemmas on the conversions are what the handlers' properties rest on: rounding is
  always in favour of the pool.
\<close>

section \<open>The price of a pool token\<close>

definition calc_pool_withdraw_amount :: "StakePool \<Rightarrow> nat \<Rightarrow> nat option" where
  "calc_pool_withdraw_amount p stake_lamports =
     Option.bind (checked_mul128 stake_lamports (pool_total p)) (\<lambda>m.
     Option.bind (checked_div128 m (stake_total p)) (\<lambda>q.
     u64_try_from q))"

definition calc_pool_deposit_amount :: "StakePool \<Rightarrow> nat \<Rightarrow> nat option" where
  "calc_pool_deposit_amount p stake_lamports =
     (if stake_total p = 0 then Some stake_lamports else calc_pool_withdraw_amount p stake_lamports)"

definition calc_lamports_amount :: "StakePool \<Rightarrow> nat \<Rightarrow> nat option" where
  "calc_lamports_amount p pool_tokens =
     Option.bind (checked_mul128 pool_tokens (stake_total p)) (\<lambda>m.
     Option.bind (checked_div128 m (pool_total p)) (\<lambda>q.
     u64_try_from q))"

definition calc_fee_amount :: "StakePool \<Rightarrow> nat \<Rightarrow> nat option" where
  "calc_fee_amount p pool_amount =
     (if pool_fee_denominator p = 0 then Some 0
      else
        Option.bind (checked_mul128 pool_amount (pool_fee_numerator p)) (\<lambda>m.
        Option.bind (checked_div128 m (pool_fee_denominator p)) (\<lambda>q.
        u64_try_from q)))"

section \<open>Authorities\<close>

definition AUTHORITY_DEPOSIT :: buffer where "AUTHORITY_DEPOSIT = Buffer_from ''deposit''"

definition AUTHORITY_WITHDRAW :: buffer where "AUTHORITY_WITHDRAW = Buffer_from ''withdraw''"

definition AUTHORITY_RESERVE :: buffer where "AUTHORITY_RESERVE = Buffer_from ''reserve''"

definition TEMP_ACCOUNT :: buffer where "TEMP_ACCOUNT = Buffer_from ''temp''"

definition authority_id :: "runtime \<Rightarrow> buffer \<Rightarrow> buffer \<Rightarrow> buffer \<Rightarrow> nat \<Rightarrow> program_error + buffer" where
  "authority_id R program_id stake_pool authority_type bump_seed =
     ok_or (create_program_address R [take 32 stake_pool, authority_type, le_bytes 1 bump_seed] program_id)
       (into InvalidProgramAddress)"

definition find_authority_bump_seed :: "runtime \<Rightarrow> buffer \<Rightarrow> buffer \<Rightarrow> buffer \<Rightarrow> buffer \<times> nat" where
  "find_authority_bump_seed R program_id stake_pool authority_type =
     find_program_address R [take 32 stake_pool, authority_type] program_id"

definition check_authority ::
  "runtime \<Rightarrow> buffer \<Rightarrow> buffer \<Rightarrow> buffer \<Rightarrow> buffer \<Rightarrow> nat \<Rightarrow> program_error + unit" where
  "check_authority R authority_to_check program_id stake_pool_key authority_type bump_seed =
     bindP (authority_id R program_id stake_pool_key authority_type bump_seed) (\<lambda>i.
     if authority_to_check \<noteq> i then Inl (into InvalidProgramAddress) else Inr ())"

definition get_reserve_adderess :: "runtime \<Rightarrow> buffer \<Rightarrow> buffer \<Rightarrow> buffer \<times> nat" where
  "get_reserve_adderess R program_id stake_pool =
     find_program_address R [take 32 stake_pool, AUTHORITY_RESERVE] program_id"

definition check_authority_withdraw :: "runtime \<Rightarrow> StakePool \<Rightarrow> buffer \<Rightarrow> buffer \<Rightarrow> buffer \<Rightarrow> program_error + unit" where
  "check_authority_withdraw R p authority_to_check program_id stake_pool_key =
     check_authority R authority_to_check program_id stake_pool_key AUTHORITY_WITHDRAW (withdraw_bump_seed p)"

definition check_authority_deposit :: "runtime \<Rightarrow> StakePool \<Rightarrow> buffer \<Rightarrow> buffer \<Rightarrow> buffer \<Rightarrow> program_error + unit" where
  "check_authority_deposit R p authority_to_check program_id stake_pool_key =
     check_authority R authority_to_check program_id stake_pool_key AUTHORITY_DEPOSIT (deposit_bump_seed p)"

definition check_owner :: "StakePool \<Rightarrow> AccountInfo \<Rightarrow> program_error + unit" where
  "check_owner p owner_info =
     (if ai_key owner_info \<noteq> pool_owner p then Inl (into WrongOwner)
      else if \<not> is_signer owner_info then Inl (into SignatureMissing)
      else Inr ())"

definition StakePool_is_initialized :: "StakePool \<Rightarrow> bool" where
  "StakePool_is_initialized p \<longleftrightarrow> pool_version p > 0"

definition ValidatorStakeList_is_initialized :: "ValidatorStakeList \<Rightarrow> bool" where
  "ValidatorStakeList_is_initialized l \<longleftrightarrow> vsl_version l > 0"

definition CreditList_is_initialized :: "CreditList \<Rightarrow> bool" where
  "CreditList_is_initialized l \<longleftrightarrow> cl_version l > 0"

definition pool_bytes :: "buffer \<Rightarrow> StakePool \<Rightarrow> buffer" where
  "pool_bytes pad p =
     le_bytes 1 (pool_version p) @ pool_owner p @ le_bytes 1 (deposit_bump_seed p) @
     le_bytes 1 (withdraw_bump_seed p) @ pool_validator_stake_list p @ pool_credit_list p @ pool_mint p @
     owner_fee_account p @ pool_credit_reserve p @ token_program_id p @ pad @
     le_bytes 8 (stake_total p) @ le_bytes 8 (pool_total p) @ le_bytes 8 (pool_last_update_epoch p) @
     le_bytes 8 (pool_fee_denominator p) @ le_bytes 8 (pool_fee_numerator p)"

definition StakePool_serialize :: "buffer \<Rightarrow> StakePool \<Rightarrow> buffer \<Rightarrow> program_error + buffer" where
  "StakePool_serialize pad p outp =
     (if length outp < StakePool_LEN then Inl InvalidAccountData
      else Inr (overwrite outp 0 (pool_bytes pad p)))"

section \<open>The stored lists\<close>

text \<open>A change through \<open>iter_mut().find\<close>: the first element that satisfies the predicate is replaced.\<close>

fun update_first :: "('a \<Rightarrow> bool) \<Rightarrow> 'a \<Rightarrow> 'a list \<Rightarrow> 'a list" where
  "update_first P y [] = []"
| "update_first P y (x # xs) = (if P x then y # xs else x # update_first P y xs)"

definition ValidatorStakeList_find :: "ValidatorStakeList \<Rightarrow> buffer \<Rightarrow> ValidatorStakeInfo option" where
  "ValidatorStakeList_find l v = find (\<lambda>x. validator_account x = v) (validators l)"

definition ValidatorStakeList_contains :: "ValidatorStakeList \<Rightarrow> buffer \<Rightarrow> bool" where
  "ValidatorStakeList_contains l v \<longleftrightarrow> list_ex (\<lambda>x. validator_account x = v) (validators l)"

definition ValidatorStakeList_replace :: "ValidatorStakeList \<Rightarrow> buffer \<Rightarrow> ValidatorStakeInfo \<Rightarrow> ValidatorStakeList" where
  "ValidatorStakeList_replace l v x = l\<lparr>validators := update_first (\<lambda>x. validator_account x = v) x (validators l)\<rparr>"

definition CreditList_find :: "CreditList \<Rightarrow> buffer \<Rightarrow> CreditRecord option" where
  "CreditList_find l user = find (\<lambda>x. sol_target x = user) (credits l)"

definition CreditList_replace :: "CreditList \<Rightarrow> buffer \<Rightarrow> CreditRecord \<Rightarrow> CreditList" where
  "CreditList_replace l user x = l\<lparr>credits := update_first (\<lambda>x. sol_target x = user) x (credits l)\<rparr>"

definition stake_address :: "runtime \<Rightarrow> ValidatorStakeInfo \<Rightarrow> buffer \<Rightarrow> buffer \<Rightarrow> nat \<Rightarrow> buffer \<times> nat" where
  "stake_address R v program_id stake_pool index =
     find_program_address R [take 32 (validator_account v), take 32 stake_pool, le_bytes 4 index] program_id"

definition check_validator_stake_address ::
  "runtime \<Rightarrow> ValidatorStakeInfo \<Rightarrow> buffer \<Rightarrow> buffer \<Rightarrow> nat \<Rightarrow> buffer \<Rightarrow> program_error + nat" where
  "check_validator_stake_address R v program_id stake_pool index stake_account_pubkey =
     (case stake_address R v program_id stake_pool index of (expected_stake_address, bump_seed) \<Rightarrow>
        if stake_account_pubkey \<noteq> expected_stake_address then Inl (into InvalidStakeAccountAddress)
        else Inr bump_seed)"

section \<open>What the handlers share\<close>

text \<open>
  The checks every handler opens with: the pool account belongs to the program and is initialised, and
  the list it is handed is the one of the pool and is initialised.
\<close>

definition load_pool :: "buffer \<Rightarrow> AccountInfo \<Rightarrow> chain \<Rightarrow> program_error + StakePool" where
  "load_pool program_id stake_pool_info s =
     (if ac_owner (acct stake_pool_info s) \<noteq> program_id then Inl (into WrongOwner)
      else
        bindP (StakePool_deserialize (ac_data (acct stake_pool_info s))) (\<lambda>stake_pool.
        if \<not> StakePool_is_initialized stake_pool then Inl (into InvalidState) else Inr stake_pool))"

definition load_validators :: "StakePool \<Rightarrow> AccountInfo \<Rightarrow> chain \<Rightarrow> program_error + ValidatorStakeList" where
  "load_validators stake_pool validator_stake_list_info s =
     (if ai_key validator_stake_list_info \<noteq> pool_validator_stake_list stake_pool
      then Inl (into InvalidValidatorStakeList)
      else
        bindP (ValidatorStakeList_deserialize (ac_data (acct validator_stake_list_info s))) (\<lambda>l.
        if \<not> ValidatorStakeList_is_initialized l then Inl (into InvalidState) else Inr l))"

definition load_credits :: "StakePool \<Rightarrow> AccountInfo \<Rightarrow> chain \<Rightarrow> program_error + CreditList" where
  "load_credits stake_pool credit_list_info s =
     (if ai_key credit_list_info \<noteq> pool_credit_list stake_pool then Inl InvalidArgument
      else
        bindP (CreditList_deserialize (ac_data (acct credit_list_info s))) (\<lambda>l.
        if \<not> CreditList_is_initialized l then Inl (into InvalidState) else Inr l))"

definition save_pool :: "runtime \<Rightarrow> StakePool \<Rightarrow> AccountInfo \<Rightarrow> chain \<Rightarrow> program_error + chain" where
  "save_pool R p i s =
     bindP (StakePool_serialize (pad_pool R) p (ac_data (acct i s))) (\<lambda>d. Inr (put_data i d s))"

definition save_validators :: "runtime \<Rightarrow> ValidatorStakeList \<Rightarrow> AccountInfo \<Rightarrow> chain \<Rightarrow> program_error + chain" where
  "save_validators R l i s =
     bindP (ValidatorStakeList_serialize (pad_vsi R) l (ac_data (acct i s))) (\<lambda>d. Inr (put_data i d s))"

definition save_credits :: "CreditList \<Rightarrow> AccountInfo \<Rightarrow> chain \<Rightarrow> program_error + chain" where
  "save_credits l i s =
     bindP (CreditList_serialize l (ac_data (acct i s))) (\<lambda>d. Inr (put_data i d s))"

definition authority_seeds :: "AccountInfo \<Rightarrow> buffer \<Rightarrow> nat \<Rightarrow> buffer list" where
  "authority_seeds stake_pool_info authority_type bump = [take 32 (ai_key stake_pool_info), authority_type, le_bytes 1 bump]"

definition token_burn ::
  "runtime \<Rightarrow> AccountInfo \<Rightarrow> AccountInfo \<Rightarrow> AccountInfo \<Rightarrow> AccountInfo \<Rightarrow> AccountInfo \<Rightarrow> buffer \<Rightarrow> nat \<Rightarrow> nat \<Rightarrow>
   chain \<Rightarrow> program_error + chain" where
  "token_burn R stake_pool token_program burn_account mint authority authority_type bump_seed amount s =
     invoke_signed R
       (Token_burn (ai_key token_program) (ai_key burn_account) (ai_key mint) (ai_key authority) amount)
       [burn_account, mint, authority, token_program] [authority_seeds stake_pool authority_type bump_seed] s"

definition token_mint_to ::
  "runtime \<Rightarrow> AccountInfo \<Rightarrow> AccountInfo \<Rightarrow> AccountInfo \<Rightarrow> AccountInfo \<Rightarrow> AccountInfo \<Rightarrow> buffer \<Rightarrow> nat \<Rightarrow> nat \<Rightarrow>
   chain \<Rightarrow> program_error + chain" where
  "token_mint_to R stake_pool token_program mint destination authority authority_type bump_seed amount s =
     invoke_signed R
       (Token_mint_to (ai_key token_program) (ai_key mint) (ai_key destination) (ai_key authority) amount)
       [mint, destination, authority, token_program] [authority_seeds stake_pool authority_type bump_seed] s"

definition MIN_RESERVE_BALANCE :: nat where "MIN_RESERVE_BALANCE = 1000000"

definition min_reserve_balance :: "runtime \<Rightarrow> Rent \<Rightarrow> nat" where
  "min_reserve_balance R rent =
     max MIN_RESERVE_BALANCE (wadd64 (minimum_balance rent 0) (minimum_balance rent (TokenAccount_LEN R)))"

definition PROGRAM_VERSION :: nat where "PROGRAM_VERSION = 1"

section \<open>The stored pool\<close>

definition pool_ok :: "StakePool \<Rightarrow> bool" where
  "pool_ok p \<longleftrightarrow> pool_version p < 256 \<and> deposit_bump_seed p < 256 \<and> withdraw_bump_seed p < 256 \<and>
     length (pool_owner p) = 32 \<and> length (pool_validator_stake_list p) = 32 \<and> length (pool_credit_list p) = 32 \<and>
     length (pool_mint p) = 32 \<and> length (owner_fee_account p) = 32 \<and> length (pool_credit_reserve p) = 32 \<and>
     length (token_program_id p) = 32 \<and> stake_total p < 2 ^ 64 \<and> pool_total p < 2 ^ 64 \<and>
     pool_last_update_epoch p < 2 ^ 64 \<and> pool_fee_denominator p < 2 ^ 64 \<and> pool_fee_numerator p < 2 ^ 64"

lemma length_pool_bytes: "pool_ok p \<Longrightarrow> length pad = 5 \<Longrightarrow> length (pool_bytes pad p) = 272"
  by (simp add: pool_ok_def pool_bytes_def)

lemma slice_append_cases:
  "slice (xs @ ys) a b =
     (if b \<le> length xs then slice xs a b
      else if length xs \<le> a then slice ys (a - length xs) (b - length xs)
      else slice xs a (length xs) @ slice ys 0 (b - length xs))"
  by (auto simp: slice_def)

lemma read_pool_bytes:
  assumes "pool_ok p" "length pad = 5"
  shows "StakePool_deserialize (pool_bytes pad p @ rest) = Inr p"
  using assms unfolding pool_ok_def
  by (simp add: StakePool_deserialize_def StakePool_LEN_def pool_bytes_def slice_append_cases slice_all
    le_val_le_bytes del: le_bytes.simps)

lemma StakePool_roundtrip:
  assumes "pool_ok p" "length pad = 5" "StakePool_LEN \<le> length outp"
  shows "\<exists>out. StakePool_serialize pad p outp = Inr out \<and> length out = length outp \<and> StakePool_deserialize out = Inr p"
  using assms read_pool_bytes [OF assms(1,2)] length_pool_bytes [OF assms(1,2)]
  by (simp add: StakePool_serialize_def overwrite_def StakePool_LEN_def)

lemma deserialized_ok: "StakePool_deserialize d = Inr p \<Longrightarrow> pool_ok p"
proof -
  assume "StakePool_deserialize d = Inr p"
  moreover have "le_val (slice d a b) < 256 ^ (b - a)" if "b \<le> length d" for a b
    using le_val_bound [of "slice d a b"] that by (simp add: slice_def)
  note this [of 1 0] this [of 34 33] this [of 35 34] this [of 240 232] this [of 248 240] this [of 256 248]
    this [of 264 256] this [of 272 264]
  ultimately show ?thesis
    by (auto simp: StakePool_deserialize_def StakePool_LEN_def pool_ok_def slice_def split: if_splits)
qed

section \<open>Conversions round in favour of the pool\<close>

definition u64 :: "nat \<Rightarrow> bool" where "u64 n \<longleftrightarrow> n < 2 ^ 64"

lemma mul128: "a < 2 ^ 64 \<Longrightarrow> b < 2 ^ 64 \<Longrightarrow> a * b < (2 :: nat) ^ 128"
  using mult_strict_mono' [of a "2 ^ 64" b "2 ^ 64"] by simp

text \<open>The 128-bit product of two \<open>u64\<close> never overflows: the checked operations only fail on a zero divisor or a wide quotient.\<close>

lemma checked_ratio:
  assumes "a < 2 ^ 64" "b < 2 ^ 64"
  shows "Option.bind (checked_mul128 a b) (\<lambda>m. Option.bind (checked_div128 m c) u64_try_from) =
    (if c = 0 \<or> a * b div c \<ge> 2 ^ 64 then None else Some (a * b div c))"
  using mul128 [OF assms] by (simp add: checked_mul128_def checked_div128_def u64_try_from_def)

lemma calc_lamports_amount_eq:
  assumes "pool_ok p" "t < 2 ^ 64"
  shows "calc_lamports_amount p t =
    (if pool_total p = 0 \<or> t * stake_total p div pool_total p \<ge> 2 ^ 64 then None
     else Some (t * stake_total p div pool_total p))"
  using assms checked_ratio [of t "stake_total p" "pool_total p"]
  by (simp add: calc_lamports_amount_def pool_ok_def del: bind_eq_None_conv)

lemma calc_pool_deposit_amount_eq:
  assumes "pool_ok p" "a < 2 ^ 64"
  shows "calc_pool_deposit_amount p a =
    (if stake_total p = 0 then Some a
     else if a * pool_total p div stake_total p \<ge> 2 ^ 64 then None
     else Some (a * pool_total p div stake_total p))"
  using assms checked_ratio [of a "pool_total p" "stake_total p"]
  by (simp add: calc_pool_deposit_amount_def calc_pool_withdraw_amount_def pool_ok_def del: bind_eq_None_conv)

lemma deposit_amount_bound:
  assumes "pool_ok p" "a < 2 ^ 64" "calc_pool_deposit_amount p a = Some t"
  shows "t < 2 ^ 64" "stake_total p * t \<le> a * pool_total p"
  using assms(2,3) unfolding calc_pool_deposit_amount_eq [OF assms(1,2)]
  by (auto split: if_splits)

lemma lamports_amount_bound:
  assumes "pool_ok p" "t < 2 ^ 64" "calc_lamports_amount p t = Some y"
  shows "y < 2 ^ 64" "0 < pool_total p" "y * pool_total p \<le> t * stake_total p"
    "t \<le> pool_total p \<Longrightarrow> y \<le> stake_total p"
proof -
  have y: "y = t * stake_total p div pool_total p" "y < 2 ^ 64" "0 < pool_total p"
    using assms(3) unfolding calc_lamports_amount_eq [OF assms(1,2)] by (auto split: if_splits)
  then show "y < 2 ^ 64" "0 < pool_total p" "y * pool_total p \<le> t * stake_total p"
    by simp_all
  assume "t \<le> pool_total p"
  then have "t * stake_total p div pool_total p \<le> pool_total p * stake_total p div pool_total p"
    by (intro div_le_mono mult_le_mono1)
  then show "y \<le> stake_total p"
    using y by simp
qed

lemma fee_amount_bound:
  assumes "pool_fee_numerator p \<le> pool_fee_denominator p" "calc_fee_amount p t = Some f"
  shows "f \<le> t"
proof (cases "pool_fee_denominator p = 0")
  case False
  then have "f = t * pool_fee_numerator p div pool_fee_denominator p"
    using assms(2)
    by (auto simp: calc_fee_amount_def checked_mul128_def checked_div128_def u64_try_from_def
      bind_eq_Some_conv split: if_splits)
  also have "\<dots> \<le> t * pool_fee_denominator p div pool_fee_denominator p"
    by (intro div_le_mono mult_le_mono2 assms(1))
  finally show ?thesis
    using False by simp
qed (use assms in \<open>simp add: calc_fee_amount_def\<close>)

text \<open>A pool after an exchange of lamports and tokens, and the order on the price \<open>stake_total / pool_total\<close>.\<close>

definition price_le :: "StakePool \<Rightarrow> StakePool \<Rightarrow> bool" where
  "price_le p q \<longleftrightarrow> stake_total p * pool_total q \<le> stake_total q * pool_total p"

definition pool_in :: "StakePool \<Rightarrow> nat \<Rightarrow> nat \<Rightarrow> StakePool" where
  "pool_in p t a = p\<lparr>pool_total := wadd64 (pool_total p) t, stake_total := wadd64 (stake_total p) a\<rparr>"

definition pool_out :: "StakePool \<Rightarrow> nat \<Rightarrow> nat \<Rightarrow> StakePool" where
  "pool_out p t y = p\<lparr>pool_total := wsub64 (pool_total p) t, stake_total := wsub64 (stake_total p) y\<rparr>"

lemma pool_in_ok: "pool_ok p \<Longrightarrow> pool_ok (pool_in p t a)"
  using wadd64_bound by (auto simp: pool_ok_def pool_in_def)

lemma pool_out_ok: "pool_ok p \<Longrightarrow> pool_ok (pool_out p t y)"
  using wsub64_bound by (auto simp: pool_ok_def pool_out_def)

lemma deposit_price:
  assumes "pool_ok p" "a < 2 ^ 64" "calc_pool_deposit_amount p a = Some t"
    "pool_total p + t < 2 ^ 64" "stake_total p + a < 2 ^ 64"
  shows "price_le p (pool_in p t a)"
  using deposit_amount_bound [OF assms(1-3)] assms(4,5)
  by (simp add: price_le_def pool_in_def wadd64_exact algebra_simps)

lemma withdraw_price:
  assumes "pool_ok p" "calc_lamports_amount p t = Some y" "t \<le> pool_total p"
  shows "price_le p (pool_out p t y)"
proof -
  have t: "t < 2 ^ 64" "pool_total p < 2 ^ 64" "stake_total p < 2 ^ 64"
    using assms(1,3) by (auto simp: pool_ok_def)
  note b = lamports_amount_bound [OF assms(1) t(1) assms(2)]
  have "stake_total p * (pool_total p - t) \<le> (stake_total p - y) * pool_total p"
    using b(3) b(4) [OF assms(3)] by (simp add: diff_mult_distrib diff_mult_distrib2 mult.commute diff_le_mono2)
  then show ?thesis
    using t b(4) [OF assms(3)] assms(3) by (simp add: price_le_def pool_out_def wsub64_exact)
qed

lemma ratio_back:
  assumes "stake_total p * t \<le> a * pool_total p" "u \<le> (t :: nat)" "0 < pool_total p + t"
  shows "u * (stake_total p + a) div (pool_total p + t) \<le> a"
proof -
  have "u * (stake_total p + a) \<le> t * (stake_total p + a)"
    using assms(2) by simp
  also have "\<dots> \<le> a * (pool_total p + t)"
    using assms(1) by (simp add: algebra_simps)
  finally have "u * (stake_total p + a) div (pool_total p + t) \<le> a * (pool_total p + t) div (pool_total p + t)"
    by (rule div_le_mono)
  then show ?thesis
    using assms(3) by (auto split: if_splits)
qed

lemma deposit_then_withdraw:
  assumes "pool_ok p" "a < 2 ^ 64" "calc_pool_deposit_amount p a = Some t" "u \<le> t"
    "pool_total p + t < 2 ^ 64" "stake_total p + a < 2 ^ 64"
    "calc_lamports_amount (pool_in p t a) u = Some y"
  shows "y \<le> a"
proof -
  have b: "t < 2 ^ 64" "stake_total p * t \<le> a * pool_total p"
    using deposit_amount_bound [OF assms(1-3)] by auto
  have "u < 2 ^ 64"
    using b(1) assms(4) by simp
  then have "y = u * (stake_total p + a) div (pool_total p + t)" "0 < pool_total p + t"
    using assms(5-7) unfolding calc_lamports_amount_eq [OF pool_in_ok [OF assms(1)] \<open>u < 2 ^ 64\<close>]
    by (auto simp: pool_in_def wadd64_exact split: if_splits)
  then show ?thesis
    using ratio_back [OF b(2) assms(4)] by simp
qed

section \<open>The shared checks, inverted\<close>

lemma load_pool_Inr:
  "load_pool pid i s = Inr p \<longleftrightarrow>
     ac_owner (acct i s) = pid \<and> StakePool_deserialize (ac_data (acct i s)) = Inr p \<and> StakePool_is_initialized p"
  by (auto simp: load_pool_def bindP_Inr)

lemma load_validators_Inr:
  "load_validators p i s = Inr l \<longleftrightarrow>
     ai_key i = pool_validator_stake_list p \<and>
     ValidatorStakeList_deserialize (ac_data (acct i s)) = Inr l \<and> ValidatorStakeList_is_initialized l"
  by (auto simp: load_validators_def bindP_Inr)

lemma load_credits_Inr:
  "load_credits p i s = Inr l \<longleftrightarrow>
     ai_key i = pool_credit_list p \<and>
     CreditList_deserialize (ac_data (acct i s)) = Inr l \<and> CreditList_is_initialized l"
  by (auto simp: load_credits_def bindP_Inr)

lemma check_owner_Inr: "check_owner p i = Inr u \<longleftrightarrow> ai_key i = pool_owner p \<and> is_signer i"
  by (auto simp: check_owner_def)

lemma save_pool_Inr:
  "save_pool R p i s = Inr s' \<longleftrightarrow>
     StakePool_LEN \<le> length (ac_data (acct i s)) \<and>
     s' = put_data i (overwrite (ac_data (acct i s)) 0 (pool_bytes (pad_pool R) p)) s"
  by (auto simp: save_pool_def StakePool_serialize_def)

lemma invoke_signed_Inr:
  "invoke_signed R ix infos seeds s = Inr s' \<longleftrightarrow>
     (\<exists>a. rt_invoke R ix (map ai_key infos) seeds (accts s) = Inr a \<and> s' = s\<lparr>accts := a, cpis := cpis s @ [(ix, seeds)]\<rparr>)"
  by (auto simp: invoke_signed_def bindP_Inr)

lemma load_pool_ok: "load_pool pid i s = Inr p \<Longrightarrow> pool_ok p"
  by (auto simp: load_pool_Inr dest: deserialized_ok)

lemma read_saved_pool:
  assumes "save_pool R p i s = Inr s'" "pool_ok p" "length (pad_pool R) = 5"
  shows "StakePool_deserialize (ac_data (acct i s')) = Inr p" "cpis s' = cpis s"
    "k \<noteq> ai_key i \<Longrightarrow> accts s' k = accts s k" "ac_owner (accts s' k) = ac_owner (accts s k)"
    "ac_lamports (accts s' k) = ac_lamports (accts s k)"
  using assms read_pool_bytes [OF assms(2,3)]
  by (auto simp: save_pool_Inr acct_def overwrite_def)

section \<open>Lists with one entry per key\<close>

lemma length_update_first [simp]: "length (update_first P y xs) = length xs"
  by (induction xs) simp_all

lemma map_update_first: "find (\<lambda>x. f x = k) xs = Some z \<Longrightarrow> f y = k \<Longrightarrow> map f (update_first (\<lambda>x. f x = k) y xs) = map f xs"
  by (induction xs) auto

lemma set_update_first: "set (update_first P y xs) \<subseteq> insert y (set xs)"
  by (induction xs) auto

lemma find_update_first:
  "find (\<lambda>x. f x = k) xs = Some z \<Longrightarrow> f y = k \<Longrightarrow>
    find (\<lambda>x. f x = j) (update_first (\<lambda>x. f x = k) y xs) = (if j = k then Some y else find (\<lambda>x. f x = j) xs)"
  by (induction xs) (auto split: if_splits)

lemma find_keyD: "find (\<lambda>x. f x = k) xs = Some z \<Longrightarrow> f z = k \<and> z \<in> set xs"
  by (auto simp: find_Some_iff in_set_conv_nth)

lemma list_all_update_first: "list_all Q xs \<Longrightarrow> Q y \<Longrightarrow> list_all Q (update_first P y xs)"
  by (induction xs) auto

section \<open>What the host guarantees\<close>

text \<open>
  The documented behaviour of the host that the stored state rests on: only its owner changes the data
  of an account, and a call into another program leaves the accounts of this one their owner and data;
  epochs are 64-bit; the padding has its size.
\<close>

definition host_ok :: "runtime \<Rightarrow> buffer \<Rightarrow> bool" where
  "host_ok R pid \<longleftrightarrow>
     (\<forall>ix ks seeds a a' k. rt_invoke R ix ks seeds a = Inr a' \<longrightarrow> ac_owner (a k) = pid \<longrightarrow>
        ac_owner (a' k) = pid \<and> ac_data (a' k) = ac_data (a k)) \<and>
     (\<forall>k d e. clock_epoch R k d = Inr e \<longrightarrow> e < 2 ^ 64) \<and>
     length (pad_pool R) = 5 \<and> length (pad_vsi R) = 4"

definition keeps :: "buffer \<Rightarrow> chain \<Rightarrow> chain \<Rightarrow> bool" where
  "keeps pid s s' \<longleftrightarrow> (\<forall>k. ac_owner (accts s k) = pid \<longrightarrow>
     ac_owner (accts s' k) = pid \<and> ac_data (accts s' k) = ac_data (accts s k))"

lemma keeps_refl [simp, intro]: "keeps pid s s"
  by (simp add: keeps_def)

lemma keeps_trans [trans]: "keeps pid s s' \<Longrightarrow> keeps pid s' s'' \<Longrightarrow> keeps pid s s''"
  by (simp add: keeps_def)

lemma invoke_signed_keeps: "invoke_signed R ix infos seeds s = Inr s' \<Longrightarrow> host_ok R pid \<Longrightarrow> keeps pid s s'"
  by (auto simp: invoke_signed_Inr keeps_def host_ok_def)

lemma calls_keep:
  assumes "host_ok R pid"
  shows "invoke R ix infos s = Inr s' \<Longrightarrow> keeps pid s s'"
    "token_burn R k tok src mint au ty bump amount s = Inr s' \<Longrightarrow> keeps pid s s'"
    "token_mint_to R k tok mint dst au ty bump amount s = Inr s' \<Longrightarrow> keeps pid s s'"
  using assms by (auto simp: invoke_def token_burn_def token_mint_to_def intro: invoke_signed_keeps)

end
