(* ===== verification/Onchain_Users.thy ===== *)
theory Onchain_Users
  imports Onchain_Pool "HOL-Library.Multiset"
begin

text \<open>
  The handlers of \<open>program/src/processor.rs\<close> that a user's transaction reaches: \<open>process_deposit\<close>,
  \<open>process_withdraw\<close>, \<open>process_credit\<close>, \<open>process_uncredit\<close> and \<open>process_pay_creditors\<close>.
\<close>

section \<open>Deposit\<close>

text \<open>The two ways lamports reach the reserve: through a temporary wrapped-SOL account, or by a plain transfer.\<close>

definition deposit_wrapped ::
  "runtime \<Rightarrow> buffer \<Rightarrow> Rent \<Rightarrow> nat \<Rightarrow> nat \<Rightarrow> nat \<Rightarrow> AccountInfo \<Rightarrow> AccountInfo \<Rightarrow> AccountInfo \<Rightarrow> AccountInfo \<Rightarrow>
   AccountInfo \<Rightarrow> AccountInfo \<Rightarrow> AccountInfo \<Rightarrow> AccountInfo \<Rightarrow> AccountInfo \<Rightarrow> chain \<Rightarrow> program_error + chain" where
  "deposit_wrapped R program_id rent amount withdraw_bump reserve_bump stake_pool_info withdraw_info
     reserve_account_info source_user_info rent_info system_program_info token_program_info temp_account_info
     native_mint_info s =
     (let (expected_temp_address, temp_bump) =
            find_program_address R [take 32 (ai_key stake_pool_info), TEMP_ACCOUNT] program_id;
          withdraw_signer_seeds = authority_seeds stake_pool_info AUTHORITY_WITHDRAW withdraw_bump
      in
      if ai_key temp_account_info \<noteq> expected_temp_address then Inl InvalidArgument
      else if ai_key native_mint_info \<noteq> native_mint_id R then Inl InvalidArgument
      else
        bindP (invoke_signed R
          (Sys_create_account (ai_key reserve_account_info) (ai_key temp_account_info)
             (minimum_balance rent (TokenAccount_LEN R)) (TokenAccount_LEN R) (spl_token_id R))
          [reserve_account_info, temp_account_info, system_program_info]
          [authority_seeds stake_pool_info TEMP_ACCOUNT temp_bump,
           authority_seeds stake_pool_info AUTHORITY_RESERVE reserve_bump] s) (\<lambda>s.
        bindP (invoke R
          (Token_initialize_account (ai_key token_program_info) (ai_key temp_account_info) (native_mint_id R)
             (ai_key withdraw_info))
          [token_program_info, temp_account_info, native_mint_info, withdraw_info, rent_info] s) (\<lambda>s.
        bindP (invoke_signed R
          (Token_transfer (ai_key token_program_info) (ai_key source_user_info) (ai_key temp_account_info)
             (ai_key withdraw_info) amount)
          [token_program_info, source_user_info, temp_account_info, withdraw_info] [withdraw_signer_seeds] s) (\<lambda>s.
        invoke_signed R
          (Token_close_account (ai_key token_program_info) (ai_key temp_account_info) (ai_key reserve_account_info)
             (ai_key withdraw_info))
          [token_program_info, temp_account_info, reserve_account_info, withdraw_info] [withdraw_signer_seeds] s))))"

definition deposit_plain ::
  "runtime \<Rightarrow> nat \<Rightarrow> nat \<Rightarrow> AccountInfo \<Rightarrow> AccountInfo \<Rightarrow> AccountInfo \<Rightarrow> chain \<Rightarrow> program_error + chain" where
  "deposit_plain R amount target_balance reserve_account_info source_user_info system_program_info s =
     (if target_balance < MIN_RESERVE_BALANCE then Inl (into FirstDepositIsTooSmall)
      else
        invoke R (Sys_transfer (ai_key source_user_info) (ai_key reserve_account_info) amount)
          [source_user_info, reserve_account_info, system_program_info] s)"

text \<open>The two accounts of a wrapped deposit are read only when the source is not a system account.\<close>

definition wrapped_accounts ::
  "runtime \<Rightarrow> AccountInfo \<Rightarrow> AccountInfo list \<Rightarrow> chain \<Rightarrow> program_error + (AccountInfo \<times> AccountInfo) option" where
  "wrapped_accounts R source_user_info it s =
     (if ac_owner (acct source_user_info s) \<noteq> system_program_id R then
        next_account_info it (\<lambda>temp_account_info it.
        next_account_info it (\<lambda>native_mint_info it.
        Inr (Some (temp_account_info, native_mint_info))))
      else Inr None)"

definition process_deposit ::
  "runtime \<Rightarrow> buffer \<Rightarrow> nat \<Rightarrow> AccountInfo list \<Rightarrow> chain \<Rightarrow> program_error + chain" where
  "process_deposit R program_id amount accounts s =
     (if amount = 0 then Inl InvalidArgument
      else
        next_account_info accounts (\<lambda>stake_pool_info it.
        next_account_info it (\<lambda>withdraw_info it.
        next_account_info it (\<lambda>reserve_account_info it.
        next_account_info it (\<lambda>source_user_info it.
        next_account_info it (\<lambda>dest_user_info it.
        next_account_info it (\<lambda>owner_fee_info it.
        next_account_info it (\<lambda>pool_mint_info it.
        next_account_info it (\<lambda>rent_info it.
        bindP (Rent_from_account_info R rent_info s) (\<lambda>rent.
        next_account_info it (\<lambda>system_program_info it.
        next_account_info it (\<lambda>token_program_info it.
        bindP (wrapped_accounts R source_user_info it s) (\<lambda>wrapped.
        bindP (load_pool program_id stake_pool_info s) (\<lambda>stake_pool.
        bindP (check_authority_withdraw R stake_pool (ai_key withdraw_info) program_id (ai_key stake_pool_info)) (\<lambda>_.
        let (expected_reserve, reserve_bump) = get_reserve_adderess R program_id (ai_key stake_pool_info) in
        if ai_key reserve_account_info \<noteq> expected_reserve then Inl IncorrectProgramId
        else if owner_fee_account stake_pool \<noteq> ai_key owner_fee_info then Inl (into InvalidFeeAccount)
        else if token_program_id stake_pool \<noteq> ai_key token_program_info then Inl IncorrectProgramId
        else
          let target_balance = wadd64 (ac_lamports (acct reserve_account_info s)) amount in
          if target_balance < min_reserve_balance R rent then Inl (into FirstDepositIsTooSmall)
          else
            bindP (ok_or (calc_pool_deposit_amount stake_pool amount) (into CalculationFailure)) (\<lambda>pool_amount.
            bindP (ok_or (calc_fee_amount stake_pool pool_amount) (into CalculationFailure)) (\<lambda>fee_amount.
            bindP (ok_or (checked_sub pool_amount fee_amount) (into CalculationFailure)) (\<lambda>user_amount.
            bindP (case wrapped of
                Some (temp_account_info, native_mint_info) \<Rightarrow>
                  deposit_wrapped R program_id rent amount (withdraw_bump_seed stake_pool) reserve_bump stake_pool_info
                    withdraw_info reserve_account_info source_user_info rent_info system_program_info
                    token_program_info temp_account_info native_mint_info s
              | None \<Rightarrow>
                  deposit_plain R amount target_balance reserve_account_info source_user_info system_program_info s) (\<lambda>s.
            bindP (token_mint_to R stake_pool_info token_program_info pool_mint_info dest_user_info withdraw_info
              AUTHORITY_WITHDRAW (withdraw_bump_seed stake_pool) user_amount s) (\<lambda>s.
            bindP (token_mint_to R stake_pool_info token_program_info pool_mint_info owner_fee_info withdraw_info
              AUTHORITY_WITHDRAW (withdraw_bump_seed stake_pool) fee_amount s) (\<lambda>s.
            save_pool R
              (stake_pool\<lparr>pool_total := wadd64 (pool_total stake_pool) pool_amount,
                stake_total := wadd64 (stake_total stake_pool) amount\<rparr>)
              stake_pool_info s)))))))))))))))))))))"

section \<open>Withdraw\<close>

definition process_withdraw ::
  "runtime \<Rightarrow> buffer \<Rightarrow> nat \<Rightarrow> AccountInfo list \<Rightarrow> chain \<Rightarrow> program_error + chain" where
  "process_withdraw R program_id pool_amount accounts s =
     (if pool_amount = 0 then Inl InvalidArgument
      else
        next_account_info accounts (\<lambda>stake_pool_info it.
        next_account_info it (\<lambda>withdraw_info it.
        next_account_info it (\<lambda>reserve_account_info it.
        next_account_info it (\<lambda>burn_from_info it.
        next_account_info it (\<lambda>pool_mint_info it.
        next_account_info it (\<lambda>target_account_info it.
        next_account_info it (\<lambda>rent_info it.
        bindP (Rent_from_account_info R rent_info s) (\<lambda>rent.
        next_account_info it (\<lambda>system_program_info it.
        next_account_info it (\<lambda>token_program_info it.
        bindP (load_pool program_id stake_pool_info s) (\<lambda>stake_pool.
        if token_program_id stake_pool \<noteq> ai_key token_program_info then Inl IncorrectProgramId
        else
          bindP (check_authority_withdraw R stake_pool (ai_key withdraw_info) program_id (ai_key stake_pool_info)) (\<lambda>_.
          let (expected_reserve, reserve_bump) = get_reserve_adderess R program_id (ai_key stake_pool_info) in
          if ai_key reserve_account_info \<noteq> expected_reserve then Inl IncorrectProgramId
          else
            bindP (ok_or (calc_lamports_amount stake_pool pool_amount) (into CalculationFailure)) (\<lambda>stake_amount.
            let reserve_balance = ac_lamports (acct reserve_account_info s) in
            if stake_amount > reserve_balance \<or> reserve_balance - stake_amount < MIN_RESERVE_BALANCE \<or>
               \<not> is_exempt rent (reserve_balance - stake_amount) 0
            then Inl InsufficientFunds
            else
              bindP (token_burn R stake_pool_info token_program_info burn_from_info pool_mint_info withdraw_info
                AUTHORITY_WITHDRAW (withdraw_bump_seed stake_pool) pool_amount s) (\<lambda>s.
              bindP (invoke_signed R
                (Sys_transfer (ai_key reserve_account_info) (ai_key target_account_info) stake_amount)
                [system_program_info, reserve_account_info, target_account_info]
                [authority_seeds stake_pool_info AUTHORITY_RESERVE reserve_bump] s) (\<lambda>s.
              save_pool R
                (stake_pool\<lparr>pool_total := wsub64 (pool_total stake_pool) pool_amount,
                  stake_total := wsub64 (stake_total stake_pool) stake_amount\<rparr>)
                stake_pool_info s))))))))))))))))"

section \<open>Credit and uncredit\<close>

text \<open>The change of the list of creditors by a credit of \<open>amount\<close>.\<close>

definition add_credit :: "CreditList \<Rightarrow> buffer \<Rightarrow> buffer \<Rightarrow> nat \<Rightarrow> program_error + CreditList" where
  "add_credit l target cancel amount =
     (case CreditList_find l target of
        Some credit_record \<Rightarrow>
          if cancel \<noteq> crd_cancel_authority credit_record then Inl InvalidArgument
          else Inr (CreditList_replace l target
            (credit_record\<lparr>token_amount := wadd64 (token_amount credit_record) amount\<rparr>))
      | None \<Rightarrow>
          if length (credits l) \<ge> MAX_CREDIT_RECORDS then Inl (into CreditListOverfow)
          else Inr (l\<lparr>credits := credits l @
            [\<lparr>sol_target = target, crd_cancel_authority = cancel, token_amount = amount\<rparr>]\<rparr>))"

definition process_credit ::
  "runtime \<Rightarrow> buffer \<Rightarrow> nat \<Rightarrow> AccountInfo list \<Rightarrow> chain \<Rightarrow> program_error + chain" where
  "process_credit R program_id amount accounts s =
     (if amount = 0 then Inl InvalidArgument
      else
        next_account_info accounts (\<lambda>stake_pool_info it.
        next_account_info it (\<lambda>credit_list_info it.
        next_account_info it (\<lambda>credit_reserve_info it.
        next_account_info it (\<lambda>withdraw_info it.
        next_account_info it (\<lambda>burn_from_info it.
        next_account_info it (\<lambda>target_account_info it.
        next_account_info it (\<lambda>cancel_authority_info it.
        next_account_info it (\<lambda>token_program_info it.
        bindP (load_pool program_id stake_pool_info s) (\<lambda>stake_pool.
        if token_program_id stake_pool \<noteq> ai_key token_program_info then Inl IncorrectProgramId
        else
          bindP (load_credits stake_pool credit_list_info s) (\<lambda>credit_list.
          if ai_key credit_reserve_info \<noteq> pool_credit_reserve stake_pool then Inl InvalidArgument
          else if ac_owner (acct target_account_info s) \<noteq> system_program_id R then Inl IncorrectProgramId
          else
            bindP (add_credit credit_list (ai_key target_account_info) (ai_key cancel_authority_info) amount) (\<lambda>credit_list.
            bindP (invoke_signed R
              (Token_transfer (ai_key token_program_info) (ai_key burn_from_info) (ai_key credit_reserve_info)
                 (ai_key withdraw_info) amount)
              [burn_from_info, credit_reserve_info, withdraw_info]
              [authority_seeds stake_pool_info AUTHORITY_WITHDRAW (withdraw_bump_seed stake_pool)] s) (\<lambda>s.
            save_credits credit_list credit_list_info s)))))))))))))"

definition remove_credit :: "CreditList \<Rightarrow> buffer \<Rightarrow> AccountInfo \<Rightarrow> nat \<Rightarrow> program_error + CreditList" where
  "remove_credit l target cancel_authority_info amount =
     (case CreditList_find l target of
        Some credit_record \<Rightarrow>
          if ai_key cancel_authority_info \<noteq> crd_cancel_authority credit_record then Inl InvalidArgument
          else if \<not> is_signer cancel_authority_info then Inl MissingRequiredSignature
          else if amount > token_amount credit_record then Inl InsufficientFunds
          else if amount = token_amount credit_record
          then Inr (l\<lparr>credits := filter (\<lambda>r. sol_target r \<noteq> target) (credits l)\<rparr>)
          else Inr (CreditList_replace l target
            (credit_record\<lparr>token_amount := wsub64 (token_amount credit_record) amount\<rparr>))
      | None \<Rightarrow> Inl (into UnknownCreditor))"

definition process_uncredit ::
  "runtime \<Rightarrow> buffer \<Rightarrow> nat \<Rightarrow> AccountInfo list \<Rightarrow> chain \<Rightarrow> program_error + chain" where
  "process_uncredit R program_id amount accounts s =
     next_account_info accounts (\<lambda>stake_pool_info it.
     next_account_info it (\<lambda>credit_list_info it.
     next_account_info it (\<lambda>credit_reserve_info it.
     next_account_info it (\<lambda>withdraw_info it.
     next_account_info it (\<lambda>burn_from_info it.
     next_account_info it (\<lambda>target_account_info it.
     next_account_info it (\<lambda>cancel_authority_info it.
     next_account_info it (\<lambda>token_program_info it.
     bindP (load_pool program_id stake_pool_info s) (\<lambda>stake_pool.
     if token_program_id stake_pool \<noteq> ai_key token_program_info then Inl IncorrectProgramId
     else
       bindP (load_credits stake_pool credit_list_info s) (\<lambda>credit_list.
       if ai_key credit_reserve_info \<noteq> pool_credit_reserve stake_pool then Inl InvalidArgument
       else
         bindP (remove_credit credit_list (ai_key target_account_info) cancel_authority_info amount) (\<lambda>credit_list.
         bindP (invoke_signed R
           (Token_transfer (ai_key token_program_info) (ai_key credit_reserve_info) (ai_key burn_from_info)
              (ai_key withdraw_info) amount)
           [burn_from_info, credit_reserve_info, withdraw_info]
           [authority_seeds stake_pool_info AUTHORITY_WITHDRAW (withdraw_bump_seed stake_pool)] s) (\<lambda>s.
         save_credits credit_list credit_list_info s))))))))))))"

section \<open>Paying the creditors\<close>

record pay_env =
  pe_pool_info :: AccountInfo
  pe_withdraw_info :: AccountInfo
  pe_reserve_info :: AccountInfo
  pe_credit_reserve_info :: AccountInfo
  pe_pool_mint_info :: AccountInfo
  pe_system_program_info :: AccountInfo
  pe_token_program_info :: AccountInfo
  pe_reserve_bump :: nat
  pe_lamports_available :: nat

text \<open>
  The loop of \<open>process_pay_creditors\<close>. Its condition takes the next account and then the next creditor, so
  that a creditor is taken out of the iterator also when there is no account left. The result has the
  pool, the lamports paid, the creditors still in the list or in the iterator, the invalid ones and the chain.
\<close>

fun pay_loop ::
  "runtime \<Rightarrow> pay_env \<Rightarrow> AccountInfo list \<Rightarrow> CreditRecord list \<Rightarrow> StakePool \<Rightarrow> nat \<Rightarrow> CreditRecord list \<Rightarrow> chain \<Rightarrow>
   program_error + StakePool \<times> nat \<times> CreditRecord list \<times> CreditRecord list \<times> chain" where
  "pay_loop R E [] cs stake_pool total_amount invalid s = Inr (stake_pool, total_amount, tl cs, invalid, s)"
| "pay_loop R E (user_info # it) [] stake_pool total_amount invalid s = Inr (stake_pool, total_amount, [], invalid, s)"
| "pay_loop R E (user_info # it) (credit # cs) stake_pool total_amount invalid s =
     (if ai_key user_info \<noteq> sol_target credit then Inl InvalidArgument
      else if ac_owner (acct user_info s) \<noteq> system_program_id R
      then pay_loop R E it cs stake_pool total_amount (invalid @ [credit]) s
      else
        let pool_amount = token_amount credit in
        bindP (ok_or (calc_lamports_amount stake_pool pool_amount) (into CalculationFailure)) (\<lambda>stake_amount.
        if wadd64 total_amount stake_amount > pe_lamports_available E
        then Inr (stake_pool, total_amount, credit # cs, invalid, s)
        else
          bindP (token_burn R (pe_pool_info E) (pe_token_program_info E) (pe_credit_reserve_info E)
            (pe_pool_mint_info E) (pe_withdraw_info E) AUTHORITY_WITHDRAW (withdraw_bump_seed stake_pool)
            pool_amount s) (\<lambda>s.
          bindP (invoke_signed R
            (Sys_transfer (ai_key (pe_reserve_info E)) (sol_target credit) stake_amount)
            [pe_system_program_info E, pe_reserve_info E, user_info]
            [authority_seeds (pe_pool_info E) AUTHORITY_RESERVE (pe_reserve_bump E)] s) (\<lambda>s.
          pay_loop R E it cs (stake_pool\<lparr>pool_total := wsub64 (pool_total stake_pool) pool_amount\<rparr>)
            (wadd64 total_amount stake_amount) invalid s))))"

definition process_pay_creditors ::
  "runtime \<Rightarrow> buffer \<Rightarrow> AccountInfo list \<Rightarrow> chain \<Rightarrow> program_error + chain" where
  "process_pay_creditors R program_id accounts s =
     next_account_info accounts (\<lambda>stake_pool_info it.
     next_account_info it (\<lambda>credit_list_info it.
     next_account_info it (\<lambda>withdraw_info it.
     next_account_info it (\<lambda>reserve_account_info it.
     next_account_info it (\<lambda>credit_reserve_info it.
     next_account_info it (\<lambda>pool_mint_info it.
     next_account_info it (\<lambda>rent_info it.
     bindP (Rent_from_account_info R rent_info s) (\<lambda>rent.
     next_account_info it (\<lambda>clock_info it.
     bindP (Clock_from_account_info R clock_info s) (\<lambda>epoch.
     next_account_info it (\<lambda>system_program_info it.
     next_account_info it (\<lambda>token_program_info it.
     bindP (load_pool program_id stake_pool_info s) (\<lambda>stake_pool.
     if token_program_id stake_pool \<noteq> ai_key token_program_info then Inl IncorrectProgramId
     else
       bindP (load_credits stake_pool credit_list_info s) (\<lambda>credit_list.
       if ai_key credit_reserve_info \<noteq> pool_credit_reserve stake_pool then Inl InvalidArgument
       else
         bindP (check_authority_withdraw R stake_pool (ai_key withdraw_info) program_id (ai_key stake_pool_info)) (\<lambda>_.
         let (expected_reserve, reserve_bump) = get_reserve_adderess R program_id (ai_key stake_pool_info) in
         if ai_key reserve_account_info \<noteq> expected_reserve then Inl IncorrectProgramId
         else if pool_last_update_epoch stake_pool < epoch then Inl (into StakeListAndPoolOutOfDate)
         else
           bindP (pay_loop R
             \<lparr>pe_pool_info = stake_pool_info, pe_withdraw_info = withdraw_info,
              pe_reserve_info = reserve_account_info, pe_credit_reserve_info = credit_reserve_info,
              pe_pool_mint_info = pool_mint_info, pe_system_program_info = system_program_info,
              pe_token_program_info = token_program_info, pe_reserve_bump = reserve_bump,
              pe_lamports_available = saturating_sub (ac_lamports (acct reserve_account_info s)) (min_reserve_balance R rent)\<rparr>
             it (credits credit_list) stake_pool 0 [] s) (\<lambda>(stake_pool, total_amount, left, invalid, s).
           bindP (save_credits (credit_list\<lparr>credits := left @ invalid\<rparr>) credit_list_info s) (\<lambda>s.
           save_pool R (stake_pool\<lparr>stake_total := wsub64 (stake_total stake_pool) total_amount\<rparr>)
             stake_pool_info s)))))))))))))))))"

section \<open>What a successful run did\<close>

text \<open>The accounts of a deposit and a withdrawal by their place in the instruction.\<close>

record deposit_accounts =
  da_pool :: AccountInfo
  da_withdraw :: AccountInfo
  da_reserve :: AccountInfo
  da_source :: AccountInfo
  da_dest :: AccountInfo
  da_fee :: AccountInfo
  da_mint :: AccountInfo
  da_rent :: AccountInfo
  da_system :: AccountInfo
  da_token :: AccountInfo

definition deposit_list :: "deposit_accounts \<Rightarrow> AccountInfo list" where
  "deposit_list A = [da_pool A, da_withdraw A, da_reserve A, da_source A, da_dest A, da_fee A, da_mint A, da_rent A,
     da_system A, da_token A]"

record withdraw_accounts =
  wa_pool :: AccountInfo
  wa_withdraw :: AccountInfo
  wa_reserve :: AccountInfo
  wa_burn_from :: AccountInfo
  wa_mint :: AccountInfo
  wa_target :: AccountInfo
  wa_rent :: AccountInfo
  wa_system :: AccountInfo
  wa_token :: AccountInfo

definition withdraw_list :: "withdraw_accounts \<Rightarrow> AccountInfo list" where
  "withdraw_list A = [wa_pool A, wa_withdraw A, wa_reserve A, wa_burn_from A, wa_mint A, wa_target A, wa_rent A,
     wa_system A, wa_token A]"

lemma deposit_plain_Inr:
  "deposit_plain R amount tb rs src sys s = Inr s' \<longleftrightarrow>
     MIN_RESERVE_BALANCE \<le> tb \<and>
     invoke_signed R (Sys_transfer (ai_key src) (ai_key rs) amount) [src, rs, sys] [] s = Inr s'"
  by (auto simp: deposit_plain_def invoke_def)

text \<open>
  A plain deposit succeeds exactly when its accounts are the pool's, the amount makes the reserve large
  enough, the conversions succeed and the three calls do: it is those calls and the new totals.
\<close>

lemma process_deposit_plain:
  assumes "ac_owner (acct (da_source A) s) = system_program_id R"
  shows "process_deposit R pid a (deposit_list A @ extra) s = Inr s' \<longleftrightarrow>
    (\<exists>rent p t f s1 s2 s3. a \<noteq> 0 \<and> Rent_from_account_info R (da_rent A) s = Inr rent \<and>
      load_pool pid (da_pool A) s = Inr p \<and>
      check_authority_withdraw R p (ai_key (da_withdraw A)) pid (ai_key (da_pool A)) = Inr () \<and>
      ai_key (da_reserve A) = fst (get_reserve_adderess R pid (ai_key (da_pool A))) \<and>
      owner_fee_account p = ai_key (da_fee A) \<and> token_program_id p = ai_key (da_token A) \<and>
      min_reserve_balance R rent \<le> wadd64 (ac_lamports (acct (da_reserve A) s)) a \<and>
      calc_pool_deposit_amount p a = Some t \<and> calc_fee_amount p t = Some f \<and> f \<le> t \<and>
      invoke_signed R (Sys_transfer (ai_key (da_source A)) (ai_key (da_reserve A)) a)
        [da_source A, da_reserve A, da_system A] [] s = Inr s1 \<and>
      token_mint_to R (da_pool A) (da_token A) (da_mint A) (da_dest A) (da_withdraw A) AUTHORITY_WITHDRAW
        (withdraw_bump_seed p) (t - f) s1 = Inr s2 \<and>
      token_mint_to R (da_pool A) (da_token A) (da_mint A) (da_fee A) (da_withdraw A) AUTHORITY_WITHDRAW
        (withdraw_bump_seed p) f s2 = Inr s3 \<and>
      save_pool R (pool_in p t a) (da_pool A) s3 = Inr s')"
  using assms
  by (cases "get_reserve_adderess R pid (ai_key (da_pool A))")
    (auto simp: process_deposit_def deposit_list_def bindP_Inr guard_Inr ok_or_Inr wrapped_accounts_def deposit_plain_Inr
      Let_def checked_sub_Some pool_in_def min_reserve_balance_def)

lemma process_withdraw_run:
  "process_withdraw R pid t (withdraw_list A @ extra) s = Inr s' \<longleftrightarrow>
    (\<exists>rent p y s1 s2. t \<noteq> 0 \<and> Rent_from_account_info R (wa_rent A) s = Inr rent \<and>
      load_pool pid (wa_pool A) s = Inr p \<and> token_program_id p = ai_key (wa_token A) \<and>
      check_authority_withdraw R p (ai_key (wa_withdraw A)) pid (ai_key (wa_pool A)) = Inr () \<and>
      ai_key (wa_reserve A) = fst (get_reserve_adderess R pid (ai_key (wa_pool A))) \<and>
      calc_lamports_amount p t = Some y \<and> y \<le> ac_lamports (acct (wa_reserve A) s) \<and>
      MIN_RESERVE_BALANCE \<le> ac_lamports (acct (wa_reserve A) s) - y \<and>
      is_exempt rent (ac_lamports (acct (wa_reserve A) s) - y) 0 \<and>
      token_burn R (wa_pool A) (wa_token A) (wa_burn_from A) (wa_mint A) (wa_withdraw A) AUTHORITY_WITHDRAW
        (withdraw_bump_seed p) t s = Inr s1 \<and>
      invoke_signed R (Sys_transfer (ai_key (wa_reserve A)) (ai_key (wa_target A)) y)
        [wa_system A, wa_reserve A, wa_target A]
        [authority_seeds (wa_pool A) AUTHORITY_RESERVE (snd (get_reserve_adderess R pid (ai_key (wa_pool A))))] s1 = Inr s2 \<and>
      save_pool R (pool_out p t y) (wa_pool A) s2 = Inr s')"
  by (cases "get_reserve_adderess R pid (ai_key (wa_pool A))")
    (auto simp: process_withdraw_def withdraw_list_def bindP_Inr guard_Inr ok_or_Inr Let_def pool_out_def not_less)

lemma withdraw_takes_accounts:
  assumes "process_withdraw R pid t accounts s = Inr s'"
  shows "\<exists>A rest. accounts = withdraw_list A @ rest"
proof -
  from assms obtain a b c d e f g h i rest where "accounts = a # b # c # d # e # f # g # h # i # rest"
    by (auto simp: process_withdraw_def next_account_info_Inr bindP_Inr guard_Inr)
  then show ?thesis
    by (intro exI [of _ "\<lparr>wa_pool = a, wa_withdraw = b, wa_reserve = c, wa_burn_from = d, wa_mint = e, wa_target = f,
        wa_rent = g, wa_system = h, wa_token = i\<rparr>"] exI [of _ rest]) (simp add: withdraw_list_def)
qed

text \<open>On either path, a deposit is the new totals after calls that leave the program's accounts alone.\<close>

lemma deposit_paths_keep:
  assumes "host_ok R pid"
  shows "deposit_plain R a tb rs src sys s = Inr s' \<Longrightarrow> keeps pid s s'"
    "deposit_wrapped R pid' rent a wb rb k wd rs src ri sys tok tmp nm s = Inr s' \<Longrightarrow> keeps pid s s'"
  by (auto simp: deposit_plain_Inr deposit_wrapped_def invoke_def bindP_Inr guard_Inr split_beta Let_def
    dest!: invoke_signed_keeps [OF _ assms]) (simp_all add: keeps_def)

lemma deposit_path_keeps:
  assumes "host_ok R pid"
  shows "(case w of Some (tmp, nm) \<Rightarrow> deposit_wrapped R pid' rent a wb rb k wd rs src ri sys tok tmp nm s
      | None \<Rightarrow> deposit_plain R a tb rs src sys s) = Inr s' \<Longrightarrow> keeps pid s s'"
  by (cases w) (auto dest: deposit_paths_keep [OF assms])

lemma process_deposit_pool:
  assumes "process_deposit R pid a accounts s = Inr s'" "host_ok R pid"
  shows "\<exists>k rest p t f s1. accounts = k # rest \<and> load_pool pid k s = Inr p \<and>
    calc_pool_deposit_amount p a = Some t \<and> calc_fee_amount p t = Some f \<and> f \<le> t \<and> keeps pid s s1 \<and>
    save_pool R (pool_in p t a) k s1 = Inr s'"
  using assms(1)
  by (clarsimp simp: process_deposit_def next_account_info_Inr bindP_Inr guard_Inr ok_or_Inr Let_def checked_sub_Some
      pool_in_def split_beta)
    (blast dest: deposit_path_keeps [OF assms(2)] calls_keep(3) [OF assms(2)] intro: keeps_trans)

section \<open>The payments, without the runtime\<close>

text \<open>
  What the loop pays for a list of creditors: the pool it leaves, the lamports paid in all and the calls.
  The price is read off the pool after each payment took its tokens out of \<open>pool_total\<close>, while
  \<open>stake_total\<close> is reduced only after the loop.
\<close>

definition payment :: "pay_env \<Rightarrow> StakePool \<Rightarrow> CreditRecord \<Rightarrow> nat \<Rightarrow> (cpi \<times> buffer list list) list" where
  "payment E p c y =
     [(Token_burn (ai_key (pe_token_program_info E)) (ai_key (pe_credit_reserve_info E)) (ai_key (pe_pool_mint_info E))
         (ai_key (pe_withdraw_info E)) (token_amount c),
       [authority_seeds (pe_pool_info E) AUTHORITY_WITHDRAW (withdraw_bump_seed p)]),
      (Sys_transfer (ai_key (pe_reserve_info E)) (sol_target c) y,
       [authority_seeds (pe_pool_info E) AUTHORITY_RESERVE (pe_reserve_bump E)])]"

fun payments ::
  "pay_env \<Rightarrow> StakePool \<Rightarrow> CreditRecord list \<Rightarrow> nat \<Rightarrow> (StakePool \<times> nat \<times> (cpi \<times> buffer list list) list) option" where
  "payments E p [] total_amount = Some (p, total_amount, [])"
| "payments E p (c # cs) total_amount =
     Option.bind (calc_lamports_amount p (token_amount c)) (\<lambda>y.
     map_option (\<lambda>(p', total', calls). (p', total', payment E p c y @ calls))
       (payments E (p\<lparr>pool_total := wsub64 (pool_total p) (token_amount c)\<rparr>) cs (wadd64 total_amount y)))"

lemma token_burn_cpis: "token_burn R k tok src mint au ty bump amount s = Inr s' \<Longrightarrow>
    cpis s' = cpis s @ [(Token_burn (ai_key tok) (ai_key src) (ai_key mint) (ai_key au) amount, [authority_seeds k ty bump])]"
  by (auto simp: token_burn_def invoke_signed_Inr)

lemma invoke_signed_cpis: "invoke_signed R ix infos seeds s = Inr s' \<Longrightarrow> cpis s' = cpis s @ [(ix, seeds)]"
  by (auto simp: invoke_signed_Inr)

text \<open>
  Every record of the list is paid, left in the list or set aside as invalid, or it is the one the loop
  takes out of the iterator after the last account; \<open>n\<close> is the number of accounts.
\<close>

definition accounted ::
  "pay_env \<Rightarrow> nat \<Rightarrow> CreditRecord list \<Rightarrow> StakePool \<Rightarrow> nat \<Rightarrow> StakePool \<Rightarrow> nat \<Rightarrow> CreditRecord list \<Rightarrow> CreditRecord list \<Rightarrow>
   (cpi \<times> buffer list list) list \<Rightarrow> bool" where
  "accounted E n cs p ta p' ta' left aside calls \<longleftrightarrow>
     (\<exists>paid lost. mset cs = mset paid + mset aside + mset lost + mset left \<and>
        payments E p paid ta = Some (p', ta', calls) \<and>
        length lost \<le> 1 \<and> (lost \<noteq> [] \<longrightarrow> length paid + length aside = n))"

lemma accounted_left: "accounted E n cs p ta p ta cs [] []"
  unfolding accounted_def by (intro exI [of _ "[]"]) simp

lemma accounted_lost: "accounted E 0 cs p ta p ta (tl cs) [] []"
  unfolding accounted_def by (intro exI [of _ "[]"] exI [of _ "take 1 cs"]) (cases cs; simp)

lemma accounted_aside:
  assumes "accounted E n cs p ta p' ta' left aside calls"
  shows "accounted E (Suc n) (c # cs) p ta p' ta' left (c # aside) calls"
proof -
  from assms obtain paid lost where "mset cs = mset paid + mset aside + mset lost + mset left"
    "payments E p paid ta = Some (p', ta', calls)" "length lost \<le> 1" "lost \<noteq> [] \<longrightarrow> length paid + length aside = n"
    by (auto simp: accounted_def)
  then show ?thesis
    unfolding accounted_def by (intro exI [of _ paid] exI [of _ lost]) simp
qed

lemma accounted_paid:
  assumes "accounted E n cs (p\<lparr>pool_total := wsub64 (pool_total p) (token_amount c)\<rparr>) (wadd64 ta y) p' ta' left aside calls"
    "calc_lamports_amount p (token_amount c) = Some y"
  shows "accounted E (Suc n) (c # cs) p ta p' ta' left aside (payment E p c y @ calls)"
proof -
  from assms(1) obtain paid lost where "mset cs = mset paid + mset aside + mset lost + mset left"
    "payments E (p\<lparr>pool_total := wsub64 (pool_total p) (token_amount c)\<rparr>) paid (wadd64 ta y) = Some (p', ta', calls)"
    "length lost \<le> 1" "lost \<noteq> [] \<longrightarrow> length paid + length aside = n"
    by (auto simp: accounted_def)
  then show ?thesis
    unfolding accounted_def by (intro exI [of _ "c # paid"] exI [of _ lost]) (simp add: assms(2))
qed

text \<open>What one round of the loop does: set a creditor aside, stop, or pay and go on.\<close>

lemma pay_loop_ConsE:
  assumes "pay_loop R E (u # it) (c # cs) p ta bad s = Inr (p', ta', left, bad', s')"
  obtains (aside) "ac_owner (acct u s) \<noteq> system_program_id R" "\<not> ai_key u \<noteq> sol_target c"
      "pay_loop R E it cs p ta (bad @ [c]) s = Inr (p', ta', left, bad', s')"
    | (stop) "left = c # cs" "p' = p" "ta' = ta" "bad' = bad" "s' = s"
    | (pays) y s1 s2 where "calc_lamports_amount p (token_amount c) = Some y"
      "token_burn R (pe_pool_info E) (pe_token_program_info E) (pe_credit_reserve_info E)
         (pe_pool_mint_info E) (pe_withdraw_info E) AUTHORITY_WITHDRAW (withdraw_bump_seed p) (token_amount c) s = Inr s1"
      "invoke_signed R (Sys_transfer (ai_key (pe_reserve_info E)) (sol_target c) y)
         [pe_system_program_info E, pe_reserve_info E, u]
         [authority_seeds (pe_pool_info E) AUTHORITY_RESERVE (pe_reserve_bump E)] s1 = Inr s2"
      "pay_loop R E it cs (p\<lparr>pool_total := wsub64 (pool_total p) (token_amount c)\<rparr>) (wadd64 ta y) bad s2 = Inr (p', ta', left, bad', s')"
      "\<not> ai_key u \<noteq> sol_target c" "\<not> ac_owner (acct u s) \<noteq> system_program_id R"
      "\<not> pe_lamports_available E < wadd64 ta y"
  using assms by (auto simp: Let_def bindP_Inr ok_or_Inr split: if_splits)

lemma pay_loop_result:
  "pay_loop R E it cs p ta bad s = Inr (p', ta', left, bad', s') \<Longrightarrow> host_ok R pid \<Longrightarrow>
    keeps pid s s' \<and>
    (\<exists>aside calls. bad' = bad @ aside \<and> cpis s' = cpis s @ calls \<and>
      accounted E (length it) cs p ta p' ta' left aside calls)"
proof (induction R E it cs p ta bad s rule: pay_loop.induct)
  case (1 R E cs p ta bad s)
  then show ?case
    using accounted_lost by (auto intro!: exI [of _ "[]"])
next
  case (2 R E u it p ta bad s)
  then show ?case
    using accounted_left [of E _ "[]"] by (auto intro!: exI [of _ "[]"])
next
  case (3 R E u it c cs p ta bad s)
  let ?p = "p\<lparr>pool_total := wsub64 (pool_total p) (token_amount c)\<rparr>"
  from 3(3) show ?case
  proof (cases rule: pay_loop_ConsE)
    case aside
    then show ?thesis
      using 3(1) [OF aside(2,1,3) 3(4)] accounted_aside [where c = c] by fastforce
  next
    case stop
    then show ?thesis
      using accounted_left [of E "length (u # it)"] by (auto intro!: exI [of _ "[]"])
  next
    case (pays y s1 s2)
    have "keeps pid s s2"
      using pays(2,3) 3(4) by (blast intro: keeps_trans calls_keep invoke_signed_keeps)
    moreover have "cpis s2 = cpis s @ payment E p c y"
      using token_burn_cpis [OF pays(2)] invoke_signed_cpis [OF pays(3)] by (simp add: payment_def)
    moreover obtain aside calls where "keeps pid s2 s'" "bad' = bad @ aside" "cpis s' = cpis s2 @ calls"
        "accounted E (length it) cs ?p (wadd64 ta y) p' ta' left aside calls"
      using 3(2) [OF pays(5,6) refl _ pays(7,2,3,4) 3(4)] pays(1) by auto
    ultimately show ?thesis
      using accounted_paid [OF _ pays(1), of E "length it" cs ta p' ta' left aside calls] by (auto intro: keeps_trans)
  qed
qed

end
