(* ===== verification/Onchain_Admin.thy ===== *)
theory Onchain_Admin
  imports Onchain_Pool
begin

text \<open>
  The handlers of \<open>program/src/processor.rs\<close> that set up and maintain the pool: \<open>process_initialize\<close>,
  \<open>process_add_validator\<close>, \<open>process_remove_validator\<close>, \<open>process_set_owner\<close>, \<open>process_update_list_balance\<close> and
  \<open>process_update_pool_balance\<close>. A handler takes the runtime, the program's address, the accounts of the
  instruction and the chain, and returns an error or the new chain; an error leaves the chain as it was.
\<close>

section \<open>Initialize\<close>

definition process_initialize ::
  "runtime \<Rightarrow> buffer \<Rightarrow> nat \<Rightarrow> nat \<Rightarrow> AccountInfo list \<Rightarrow> chain \<Rightarrow> program_error + chain" where
  "process_initialize R program_id denominator numerator accounts s =
     next_account_info accounts (\<lambda>stake_pool_info it.
     next_account_info it (\<lambda>owner_info it.
     next_account_info it (\<lambda>validator_stake_list_info it.
     next_account_info it (\<lambda>credit_list_info it.
     next_account_info it (\<lambda>pool_mint_info it.
     next_account_info it (\<lambda>owner_fee_info it.
     next_account_info it (\<lambda>credit_reserve_info it.
     next_account_info it (\<lambda>clock_info it.
     bindP (Clock_from_account_info R clock_info s) (\<lambda>epoch.
     next_account_info it (\<lambda>rent_info it.
     bindP (Rent_from_account_info R rent_info s) (\<lambda>rent.
     next_account_info it (\<lambda>token_program_info it.
     if ac_owner (acct stake_pool_info s) \<noteq> program_id then Inl (into WrongOwner)
     else
       bindP (StakePool_deserialize (ac_data (acct stake_pool_info s))) (\<lambda>stake_pool.
       if StakePool_is_initialized stake_pool then Inl (into AlreadyInUse)
       else if \<not> is_signer owner_info then Inl (into SignatureMissing)
       else
         bindP (ValidatorStakeList_deserialize (ac_data (acct validator_stake_list_info s))) (\<lambda>vl.
         if ValidatorStakeList_is_initialized vl then Inl (into AlreadyInUse)
         else
           bindP (CreditList_deserialize (ac_data (acct credit_list_info s))) (\<lambda>cl.
           if CreditList_is_initialized cl then Inl (into AlreadyInUse)
           else if \<not> is_exempt rent (ac_lamports (acct stake_pool_info s)) (length (ac_data (acct stake_pool_info s)))
           then Inl (into AccountNotRentExempt)
           else if \<not> is_exempt rent (ac_lamports (acct validator_stake_list_info s))
             (length (ac_data (acct validator_stake_list_info s)))
           then Inl (into AccountNotRentExempt)
           else if \<not> is_exempt rent (ac_lamports (acct credit_list_info s)) (length (ac_data (acct credit_list_info s)))
           then Inl (into AccountNotRentExempt)
           else
             let deposit_bump = snd (find_authority_bump_seed R program_id (ai_key stake_pool_info) AUTHORITY_DEPOSIT);
                 (withdraw_authority_key, withdraw_bump) =
                   find_authority_bump_seed R program_id (ai_key stake_pool_info) AUTHORITY_WITHDRAW
             in
             if numerator > denominator then Inl (into FeeTooHigh)
             else if ac_owner (acct owner_fee_info s) \<noteq> ai_key token_program_info then Inl (into InvalidFeeAccount)
             else if ac_owner (acct credit_reserve_info s) \<noteq> ai_key token_program_info then Inl (into InvalidFeeAccount)
             else if ac_owner (acct pool_mint_info s) \<noteq> ai_key token_program_info then Inl IncorrectProgramId
             else
               bindP (unpack_token R (ac_data (acct owner_fee_info s))) (\<lambda>fee_state.
               if ai_key pool_mint_info \<noteq> tk_mint fee_state then Inl (into WrongAccountMint)
               else
                 bindP (unpack_token R (ac_data (acct credit_reserve_info s))) (\<lambda>credit_state.
                 if ai_key pool_mint_info \<noteq> tk_mint credit_state then Inl (into WrongAccountMint)
                 else if \<not> tk_initialized credit_state then Inl (into WrongCreditState)
                 else if tk_delegate credit_state \<noteq> None then Inl (into WrongCreditState)
                 else if tk_close_authority credit_state \<noteq> None then Inl (into WrongCreditState)
                 else
                   bindP (unpack_mint R (ac_data (acct pool_mint_info s))) (\<lambda>mint.
                   if mint_authority mint \<noteq> Some withdraw_authority_key then Inl (into WrongMintingAuthority)
                   else if mint_supply mint > 0 then Inl (into MintHasInitialSupply)
                   else
                     bindP (invoke R
                       (Token_set_owner (ai_key token_program_info) (ai_key credit_reserve_info) withdraw_authority_key
                         (ai_key owner_info))
                       [token_program_info, owner_info, credit_reserve_info] s) (\<lambda>s.
                     bindP (save_validators R \<lparr>vsl_version = 1, validators = []\<rparr> validator_stake_list_info s) (\<lambda>s.
                     bindP (save_credits \<lparr>cl_version = 1, credits = []\<rparr> credit_list_info s) (\<lambda>s.
                     save_pool R
                       (stake_pool\<lparr>pool_version := PROGRAM_VERSION,
                         pool_owner := ai_key owner_info,
                         deposit_bump_seed := deposit_bump,
                         withdraw_bump_seed := withdraw_bump,
                         pool_validator_stake_list := ai_key validator_stake_list_info,
                         pool_credit_list := ai_key credit_list_info,
                         pool_mint := ai_key pool_mint_info,
                         owner_fee_account := ai_key owner_fee_info,
                         pool_credit_reserve := ai_key credit_reserve_info,
                         token_program_id := ai_key token_program_info,
                         pool_last_update_epoch := epoch,
                         pool_fee_denominator := denominator,
                         pool_fee_numerator := numerator\<rparr>)
                       stake_pool_info s)))))))))))))))))))))"

section \<open>Validators and owner\<close>

definition process_add_validator ::
  "runtime \<Rightarrow> buffer \<Rightarrow> AccountInfo list \<Rightarrow> chain \<Rightarrow> program_error + chain" where
  "process_add_validator R program_id accounts s =
     next_account_info accounts (\<lambda>stake_pool_info it.
     next_account_info it (\<lambda>owner_info it.
     next_account_info it (\<lambda>validator_stake_list_info it.
     next_account_info it (\<lambda>validator_info it.
     next_account_info it (\<lambda>clock_info it.
     bindP (Clock_from_account_info R clock_info s) (\<lambda>epoch.
     bindP (load_pool program_id stake_pool_info s) (\<lambda>stake_pool.
     bindP (check_owner stake_pool owner_info) (\<lambda>_.
     if pool_last_update_epoch stake_pool < epoch then Inl (into StakeListAndPoolOutOfDate)
     else
       bindP (load_validators stake_pool validator_stake_list_info s) (\<lambda>vl.
       if length (validators vl) \<ge> MAX_VALIDATORS then Inl (into ValidatorListOverflow)
       else if ValidatorStakeList_contains vl (ai_key validator_info) then Inl (into ValidatorAlreadyAdded)
       else
         save_validators R
           (vl\<lparr>validators := validators vl @
             [\<lparr>validator_account = ai_key validator_info, vsi_balance = 0, vsi_last_update_epoch = epoch, stake_count = 0\<rparr>]\<rparr>)
           validator_stake_list_info s)))))))))"

text \<open>\<open>iter().position\<close> followed by \<open>remove\<close>: the first entry of the validator.\<close>

fun position :: "('a \<Rightarrow> bool) \<Rightarrow> 'a list \<Rightarrow> nat option" where
  "position P [] = None"
| "position P (x # xs) = (if P x then Some 0 else map_option Suc (position P xs))"

definition remove_at :: "nat \<Rightarrow> 'a list \<Rightarrow> 'a list" where
  "remove_at i xs = take i xs @ drop (Suc i) xs"

definition process_remove_validator ::
  "runtime \<Rightarrow> buffer \<Rightarrow> AccountInfo list \<Rightarrow> chain \<Rightarrow> program_error + chain" where
  "process_remove_validator R program_id accounts s =
     next_account_info accounts (\<lambda>stake_pool_info it.
     next_account_info it (\<lambda>owner_info it.
     next_account_info it (\<lambda>validator_stake_list_info it.
     next_account_info it (\<lambda>validator_info it.
     next_account_info it (\<lambda>clock_info it.
     bindP (Clock_from_account_info R clock_info s) (\<lambda>epoch.
     bindP (load_pool program_id stake_pool_info s) (\<lambda>stake_pool.
     bindP (check_owner stake_pool owner_info) (\<lambda>_.
     if pool_last_update_epoch stake_pool < epoch then Inl (into StakeListAndPoolOutOfDate)
     else
       bindP (load_validators stake_pool validator_stake_list_info s) (\<lambda>vl.
       case position (\<lambda>item. validator_account item = ai_key validator_info) (validators vl) of
         None \<Rightarrow> Inl (into ValidatorNotFound)
       | Some index \<Rightarrow>
           if stake_count (validators vl ! index) > 0 then Inl (into ValidatorHasStakes)
           else
             save_validators R (vl\<lparr>validators := remove_at index (validators vl)\<rparr>)
               validator_stake_list_info s)))))))))"

definition process_set_owner ::
  "runtime \<Rightarrow> buffer \<Rightarrow> AccountInfo list \<Rightarrow> chain \<Rightarrow> program_error + chain" where
  "process_set_owner R program_id accounts s =
     next_account_info accounts (\<lambda>stake_pool_info it.
     next_account_info it (\<lambda>owner_info it.
     next_account_info it (\<lambda>new_owner_info it.
     next_account_info it (\<lambda>new_owner_fee_info it.
     bindP (load_pool program_id stake_pool_info s) (\<lambda>stake_pool.
     bindP (check_owner stake_pool owner_info) (\<lambda>_.
     bindP (unpack_token R (ac_data (acct new_owner_fee_info s))) (\<lambda>fee_state.
     if pool_mint stake_pool \<noteq> tk_mint fee_state then Inl (into WrongAccountMint)
     else
       save_pool R (stake_pool\<lparr>pool_owner := ai_key new_owner_info, owner_fee_account := ai_key new_owner_fee_info\<rparr>)
         stake_pool_info s)))))))"

section \<open>Balances\<close>

text \<open>What \<open>process_update_list_balance\<close> holds while it walks the accounts.\<close>

record update_env =
  ue_program_id :: buffer
  ue_pool_info :: AccountInfo
  ue_pool :: StakePool
  ue_withdraw_info :: AccountInfo
  ue_reserve_info :: AccountInfo
  ue_system_program_info :: AccountInfo
  ue_stake_program_info :: AccountInfo
  ue_clock_info :: AccountInfo
  ue_stake_history_info :: AccountInfo
  ue_epoch :: nat

definition stake_signer_seeds :: "buffer \<Rightarrow> AccountInfo \<Rightarrow> nat \<Rightarrow> nat \<Rightarrow> buffer list" where
  "stake_signer_seeds vote stake_pool_info index bump =
     [take 32 vote, take 32 (ai_key stake_pool_info), le_bytes 4 index, le_bytes 1 bump]"

definition available_lamports :: "StakeState \<Rightarrow> nat \<Rightarrow> program_error + nat" where
  "available_lamports st bal =
     (case st of
        Uninitialized \<Rightarrow> Inr bal
      | Initialized m \<Rightarrow> Inr (wsub64 bal (rent_exempt_reserve m))
      | Staked m k \<Rightarrow> Inr (wsub64 (wsub64 bal (rent_exempt_reserve m)) (dlg_stake (delegation k)))
      | RewardsPool \<Rightarrow> Inl (into WrongStakeState))"

definition withdraw_available ::
  "runtime \<Rightarrow> update_env \<Rightarrow> AccountInfo \<Rightarrow> nat \<Rightarrow> nat \<Rightarrow> chain \<Rightarrow> program_error + nat \<times> chain" where
  "withdraw_available R E stake_account_info available bal s =
     (if available > 0 then
        bindP (invoke_signed R
          (stake_withdraw R (ai_key stake_account_info) (ai_key (ue_withdraw_info E)) (ai_key (ue_reserve_info E))
             available None)
          [stake_account_info, ue_reserve_info E, ue_clock_info E, ue_stake_history_info E, ue_withdraw_info E,
           ue_stake_program_info E]
          [authority_seeds (ue_pool_info E) AUTHORITY_WITHDRAW (withdraw_bump_seed (ue_pool E))] s) (\<lambda>s.
        Inr (wsub64 bal available, s))
      else Inr (bal, s))"

text \<open>The loop over one validator's stake accounts: the validator with its balance, the new stake count, the accounts left, the chain.\<close>

primrec update_stakes ::
  "runtime \<Rightarrow> update_env \<Rightarrow> AccountInfo \<Rightarrow> nat list \<Rightarrow> ValidatorStakeInfo \<Rightarrow> nat \<Rightarrow> AccountInfo list \<Rightarrow> chain \<Rightarrow>
   program_error + ValidatorStakeInfo \<times> nat \<times> AccountInfo list \<times> chain" where
  "update_stakes R E vote_info [] v n it s = Inr (v, n, it, s)"
| "update_stakes R E vote_info (index # idxs) v n it s =
     next_account_info it (\<lambda>stake_account_info it.
     bindP (check_validator_stake_address R v (ue_program_id E) (ai_key (ue_pool_info E)) index
       (ai_key stake_account_info)) (\<lambda>stake_bump_seed.
     let balance = ac_lamports (acct stake_account_info s) in
     if balance > 0 then
       if ac_owner (acct stake_account_info s) = stake_id R then
         bindP (ok_or (decode_stake R (ac_data (acct stake_account_info s))) InvalidAccountData) (\<lambda>stake_state.
         bindP (available_lamports stake_state balance) (\<lambda>available.
         bindP (withdraw_available R E stake_account_info available balance s) (\<lambda>(balance, s).
         update_stakes R E vote_info idxs (v\<lparr>vsi_balance := wadd64 (vsi_balance v) balance\<rparr>) (wadd32 index 1) it s)))
       else if ac_owner (acct stake_account_info s) = system_program_id R then
         bindP (invoke_signed R
           (Sys_transfer (ai_key stake_account_info) (ai_key (ue_reserve_info E)) balance)
           [ue_system_program_info E, stake_account_info, ue_reserve_info E]
           [stake_signer_seeds (ai_key vote_info) (ue_pool_info E) index stake_bump_seed] s) (\<lambda>s.
         update_stakes R E vote_info idxs v n it s)
       else Inl (into WrongStakeState)
     else update_stakes R E vote_info idxs v n it s))"

lemma update_stakes_accounts:
  "update_stakes R E vi idxs v n it s = Inr (v', n', it', s') \<Longrightarrow> length it' \<le> length it"
proof (induction idxs arbitrary: v n it s)
  case (Cons index idxs)
  then obtain i it1 where "it = i # it1" by (cases it) auto
  with Cons.prems show ?case
    by (auto simp: bindP_Inr Let_def split: if_splits dest!: Cons.IH)
qed simp

function update_validators ::
  "runtime \<Rightarrow> update_env \<Rightarrow> ValidatorStakeList \<Rightarrow> bool \<Rightarrow> AccountInfo list \<Rightarrow> chain \<Rightarrow>
   program_error + ValidatorStakeList \<times> bool \<times> chain" where
  "update_validators R E vl changes [] s = Inr (vl, changes, s)"
| "update_validators R E vl changes (vote_info # it) s =
     (case ValidatorStakeList_find vl (ai_key vote_info) of
        None \<Rightarrow> Inl (into ValidatorNotFound)
      | Some v \<Rightarrow>
          bindP (update_stakes R E vote_info [0..<stake_count v] (v\<lparr>vsi_balance := 0\<rparr>) 0 it s) (\<lambda>(v', n, it, s).
          update_validators R E
            (ValidatorStakeList_replace vl (ai_key vote_info)
               (v'\<lparr>stake_count := n, vsi_last_update_epoch := ue_epoch E\<rparr>))
            True it s))"
  by pat_completeness auto
termination
  by (relation "measure (\<lambda>(R, E, vl, changes, it, s). length it)") (auto dest: update_stakes_accounts)

definition process_update_list_balance ::
  "runtime \<Rightarrow> buffer \<Rightarrow> AccountInfo list \<Rightarrow> chain \<Rightarrow> program_error + chain" where
  "process_update_list_balance R program_id accounts s =
     next_account_info accounts (\<lambda>stake_pool_info it.
     next_account_info it (\<lambda>validator_stake_list_info it.
     next_account_info it (\<lambda>withdraw_info it.
     next_account_info it (\<lambda>reserve_account_info it.
     next_account_info it (\<lambda>system_program_info it.
     next_account_info it (\<lambda>stake_program_info it.
     next_account_info it (\<lambda>clock_info it.
     bindP (Clock_from_account_info R clock_info s) (\<lambda>epoch.
     next_account_info it (\<lambda>stake_history_info it.
     bindP (load_pool program_id stake_pool_info s) (\<lambda>stake_pool.
     bindP (load_validators stake_pool validator_stake_list_info s) (\<lambda>vl.
     bindP (check_authority_withdraw R stake_pool (ai_key withdraw_info) program_id (ai_key stake_pool_info)) (\<lambda>_.
     if ai_key reserve_account_info \<noteq> fst (get_reserve_adderess R program_id (ai_key stake_pool_info))
     then Inl InvalidArgument
     else
       bindP (update_validators R
         \<lparr>ue_program_id = program_id, ue_pool_info = stake_pool_info, ue_pool = stake_pool,
          ue_withdraw_info = withdraw_info, ue_reserve_info = reserve_account_info,
          ue_system_program_info = system_program_info, ue_stake_program_info = stake_program_info,
          ue_clock_info = clock_info, ue_stake_history_info = stake_history_info, ue_epoch = epoch\<rparr>
         vl False it s) (\<lambda>(vl, changes, s).
       if changes then save_validators R vl validator_stake_list_info s else Inr s)))))))))))))"

primrec sum_balances :: "nat \<Rightarrow> ValidatorStakeInfo list \<Rightarrow> nat \<Rightarrow> program_error + nat" where
  "sum_balances epoch [] total_balance = Inr total_balance"
| "sum_balances epoch (v # vs) total_balance =
     (if vsi_last_update_epoch v < epoch then Inl (into StakeListOutOfDate)
      else sum_balances epoch vs (wadd64 total_balance (vsi_balance v)))"

definition process_update_pool_balance ::
  "runtime \<Rightarrow> buffer \<Rightarrow> AccountInfo list \<Rightarrow> chain \<Rightarrow> program_error + chain" where
  "process_update_pool_balance R program_id accounts s =
     next_account_info accounts (\<lambda>stake_pool_info it.
     next_account_info it (\<lambda>validator_stake_list_info it.
     next_account_info it (\<lambda>reserve_account_info it.
     next_account_info it (\<lambda>clock_info it.
     bindP (Clock_from_account_info R clock_info s) (\<lambda>epoch.
     bindP (load_pool program_id stake_pool_info s) (\<lambda>stake_pool.
     bindP (load_validators stake_pool validator_stake_list_info s) (\<lambda>vl.
     if ai_key reserve_account_info \<noteq> fst (get_reserve_adderess R program_id (ai_key stake_pool_info))
     then Inl InvalidArgument
     else
       bindP (sum_balances epoch (validators vl) (ac_lamports (acct reserve_account_info s))) (\<lambda>total_balance.
       save_pool R (stake_pool\<lparr>stake_total := total_balance, pool_last_update_epoch := epoch\<rparr>)
         stake_pool_info s))))))))"

end
