(* ===== verification/Onchain_Stakes.thy ===== *)
theory Onchain_Stakes
  imports Onchain_Admin
begin

text \<open>
  The handlers of \<open>program/src/processor.rs\<close> that move the reserve into stake accounts and back:
  \<open>process_delegate_reserve\<close> with \<open>init_stake\<close> and \<open>redelegate_stake\<close>, \<open>process_merge_stakes\<close> and
  \<open>process_unstake\<close>. Each walks a list of requests and the accounts that follow the fixed ones.
\<close>

section \<open>What the loops hold\<close>

text \<open>The accounts every one of the three loops uses, and what two of them add.\<close>

record stake_env =
  se_program_id :: buffer
  se_pool_info :: AccountInfo
  se_deposit_info :: AccountInfo
  se_stake_program_info :: AccountInfo
  se_clock_info :: AccountInfo
  se_stake_history_info :: AccountInfo
  se_deposit_seeds :: "buffer list"

record delegate_env = stake_env +
  de_withdraw_info :: AccountInfo
  de_reserve_info :: AccountInfo
  de_system_program_info :: AccountInfo
  de_stake_config_info :: AccountInfo
  de_rent_info :: AccountInfo
  de_reserve_seeds :: "buffer list"
  de_lamports_available :: nat

record unstake_env = stake_env +
  un_owner_info :: AccountInfo
  un_system_program_info :: AccountInfo
  un_rent :: Rent

section \<open>Delegating the reserve\<close>

definition init_stake ::
  "runtime \<Rightarrow> delegate_env \<Rightarrow> ValidatorStakeInfo \<Rightarrow> AccountInfo \<Rightarrow> AccountInfo \<Rightarrow> nat \<Rightarrow> nat \<Rightarrow> nat \<Rightarrow> chain \<Rightarrow>
   program_error + ValidatorStakeInfo \<times> chain" where
  "init_stake R E v vote_info stake_account_info stake_bump_seed index lam s =
     (if lam < onchain_MIN_STAKE_ACCOUNT_BALANCE then Inl InsufficientFunds
      else
        bindP (invoke_signed R
          (Sys_create_account (ai_key (de_reserve_info E)) (ai_key stake_account_info) lam (StakeState_size R) (stake_id R))
          [de_reserve_info E, stake_account_info]
          [stake_signer_seeds (ai_key vote_info) (se_pool_info E) index stake_bump_seed, de_reserve_seeds E] s) (\<lambda>s.
        bindP (invoke R
          (stake_initialize R (ai_key stake_account_info)
            \<lparr>staker = ai_key (se_deposit_info E), withdrawer = ai_key (de_withdraw_info E)\<rparr> Lockup_default)
          [stake_account_info, de_rent_info E, se_stake_program_info E] s) (\<lambda>s.
        bindP (invoke_signed R
          (delegate_stake R (ai_key stake_account_info) (ai_key (se_deposit_info E)) (ai_key vote_info))
          [stake_account_info, se_deposit_info E, vote_info, se_clock_info E, se_stake_history_info E,
           de_stake_config_info E, se_stake_program_info E]
          [se_deposit_seeds E] s) (\<lambda>s.
        Inr (v\<lparr>vsi_balance := wadd64 (vsi_balance v) lam\<rparr>, s)))))"

definition redelegate_stake ::
  "runtime \<Rightarrow> delegate_env \<Rightarrow> ValidatorStakeInfo \<Rightarrow> AccountInfo \<Rightarrow> AccountInfo \<Rightarrow> nat \<Rightarrow> chain \<Rightarrow>
   program_error + ValidatorStakeInfo \<times> chain" where
  "redelegate_stake R E v vote_info stake_account_info lam s =
     bindP (invoke_signed R
       (Sys_transfer (ai_key (de_reserve_info E)) (ai_key stake_account_info) lam)
       [de_reserve_info E, stake_account_info, de_system_program_info E] [de_reserve_seeds E] s) (\<lambda>s.
     bindP (invoke_signed R
       (delegate_stake R (ai_key stake_account_info) (ai_key (se_deposit_info E)) (ai_key vote_info))
       [stake_account_info, se_deposit_info E, vote_info, se_clock_info E, se_stake_history_info E,
        de_stake_config_info E, se_stake_program_info E]
       [se_deposit_seeds E] s) (\<lambda>s.
     Inr (v\<lparr>vsi_balance := wadd64 (vsi_balance v) lam\<rparr>, s)))"

text \<open>The loop over the requests: the list, whether it must be saved, and the chain.\<close>

primrec delegate_loop ::
  "runtime \<Rightarrow> delegate_env \<Rightarrow> DelegateReserveInstruction list \<Rightarrow> ValidatorStakeList \<Rightarrow> nat \<Rightarrow> bool \<Rightarrow> AccountInfo list \<Rightarrow>
   chain \<Rightarrow> program_error + ValidatorStakeList \<times> bool \<times> chain" where
  "delegate_loop R E [] vl total_amount changed it s = Inr (vl, changed, s)"
| "delegate_loop R E (d # ds) vl total_amount changed it s =
     next_account_info it (\<lambda>vote_info it.
     next_account_info it (\<lambda>stake_account_info it.
     case ValidatorStakeList_find vl (ai_key vote_info) of
       None \<Rightarrow> Inl (into ValidatorNotFound)
     | Some v \<Rightarrow>
         if wadd64 total_amount (dri_amount d) > de_lamports_available E then Inl InsufficientFunds
         else if dri_stake_index d > stake_count v then Inl (into InvalidStakeIndex)
         else
           bindP (check_validator_stake_address R v (se_program_id E) (ai_key (se_pool_info E)) (dri_stake_index d)
             (ai_key stake_account_info)) (\<lambda>stake_bump_seed.
           bindP (if ac_owner (acct stake_account_info s) = system_program_id R
             then init_stake R E v vote_info stake_account_info stake_bump_seed (dri_stake_index d) (dri_amount d) s
             else redelegate_stake R E v vote_info stake_account_info (dri_amount d) s) (\<lambda>(v', s).
           if dri_stake_index d \<ge> stake_count v'
           then delegate_loop R E ds
             (ValidatorStakeList_replace vl (ai_key vote_info) (v'\<lparr>stake_count := wadd32 (dri_stake_index d) 1\<rparr>))
             (wadd64 total_amount (dri_amount d)) True it s
           else delegate_loop R E ds (ValidatorStakeList_replace vl (ai_key vote_info) v')
             (wadd64 total_amount (dri_amount d)) changed it s))))"

definition process_delegate_reserve ::
  "runtime \<Rightarrow> buffer \<Rightarrow> DelegateReserveInstruction list \<Rightarrow> AccountInfo list \<Rightarrow> chain \<Rightarrow> program_error + chain" where
  "process_delegate_reserve R program_id instructions accounts s =
     next_account_info accounts (\<lambda>stake_pool_info it.
     next_account_info it (\<lambda>owner_info it.
     next_account_info it (\<lambda>validator_stake_list_info it.
     next_account_info it (\<lambda>withdraw_info it.
     next_account_info it (\<lambda>deposit_info it.
     next_account_info it (\<lambda>reserve_account_info it.
     next_account_info it (\<lambda>system_program_info it.
     next_account_info it (\<lambda>stake_program_info it.
     next_account_info it (\<lambda>clock_info it.
     next_account_info it (\<lambda>stake_history_info it.
     next_account_info it (\<lambda>stake_config_info it.
     next_account_info it (\<lambda>rent_info it.
     bindP (Rent_from_account_info R rent_info s) (\<lambda>rent.
     bindP (load_pool program_id stake_pool_info s) (\<lambda>stake_pool.
     bindP (check_owner stake_pool owner_info) (\<lambda>_.
     bindP (load_validators stake_pool validator_stake_list_info s) (\<lambda>vl.
     bindP (check_authority_deposit R stake_pool (ai_key deposit_info) program_id (ai_key stake_pool_info)) (\<lambda>_.
     bindP (check_authority_withdraw R stake_pool (ai_key withdraw_info) program_id (ai_key stake_pool_info)) (\<lambda>_.
     let (reserve_address, reserve_bump) = get_reserve_adderess R program_id (ai_key stake_pool_info) in
     if ai_key reserve_account_info \<noteq> reserve_address then Inl InvalidArgument
     else
       bindP (delegate_loop R
         \<lparr>se_program_id = program_id, se_pool_info = stake_pool_info, se_deposit_info = deposit_info,
          se_stake_program_info = stake_program_info, se_clock_info = clock_info,
          se_stake_history_info = stake_history_info,
          se_deposit_seeds = authority_seeds stake_pool_info AUTHORITY_DEPOSIT (deposit_bump_seed stake_pool),
          de_withdraw_info = withdraw_info, de_reserve_info = reserve_account_info,
          de_system_program_info = system_program_info, de_stake_config_info = stake_config_info,
          de_rent_info = rent_info,
          de_reserve_seeds = authority_seeds stake_pool_info AUTHORITY_RESERVE reserve_bump,
          de_lamports_available =
            saturating_sub (ac_lamports (acct reserve_account_info s)) (min_reserve_balance R rent)\<rparr>
         instructions vl 0 False it s) (\<lambda>(vl, changed, s).
       if changed then save_validators R vl validator_stake_list_info s else Inr s)))))))))))))))))))"

section \<open>Merging stakes\<close>

text \<open>Two delegated stakes with different observed credits are passed over; the stake program checks the rest.\<close>

definition credits_differ :: "StakeState \<Rightarrow> StakeState \<Rightarrow> bool" where
  "credits_differ main_stake_state additional_stake_state =
     (case (main_stake_state, additional_stake_state) of
        (Staked _ a, Staked _ b) \<Rightarrow> credits_observed a \<noteq> credits_observed b
      | (_, _) \<Rightarrow> False)"

primrec merge_loop ::
  "runtime \<Rightarrow> stake_env \<Rightarrow> MergeStakesInstruction list \<Rightarrow> ValidatorStakeList \<Rightarrow> bool \<Rightarrow> AccountInfo list \<Rightarrow>
   chain \<Rightarrow> program_error + ValidatorStakeList \<times> bool \<times> chain" where
  "merge_loop R E [] vl changed it s = Inr (vl, changed, s)"
| "merge_loop R E (m # ms) vl changed it s =
     next_account_info it (\<lambda>main_info it.
     next_account_info it (\<lambda>additional_info it.
     case ValidatorStakeList_find vl (msi_validator_address m) of
       None \<Rightarrow> Inl (into ValidatorNotFound)
     | Some v \<Rightarrow>
         if msi_main_index m \<ge> stake_count v \<or> msi_additional_index m \<ge> stake_count v \<or>
            msi_main_index m \<ge> msi_additional_index m
         then Inl (into InvalidStakeIndex)
         else
           bindP (check_validator_stake_address R v (se_program_id E) (ai_key (se_pool_info E)) (msi_main_index m)
             (ai_key main_info)) (\<lambda>_.
           bindP (check_validator_stake_address R v (se_program_id E) (ai_key (se_pool_info E)) (msi_additional_index m)
             (ai_key additional_info)) (\<lambda>_.
           bindP (ok_or (decode_stake R (ac_data (acct main_info s))) InvalidAccountData) (\<lambda>main_stake_state.
           bindP (ok_or (decode_stake R (ac_data (acct additional_info s))) InvalidAccountData) (\<lambda>additional_stake_state.
           if credits_differ main_stake_state additional_stake_state then merge_loop R E ms vl changed it s
           else
             bindP (invoke_signed R
               (merge R (ai_key main_info) (ai_key additional_info) (ai_key (se_deposit_info E)))
               [se_stake_program_info E, main_info, additional_info, se_clock_info E, se_stake_history_info E,
                se_deposit_info E]
               [se_deposit_seeds E] s) (\<lambda>s.
             if wadd32 (msi_additional_index m) 1 = stake_count v
             then merge_loop R E ms
               (ValidatorStakeList_replace vl (msi_validator_address m) (v\<lparr>stake_count := wsub32 (stake_count v) 1\<rparr>)) True it s
             else merge_loop R E ms vl changed it s)))))))"

definition process_merge_stakes ::
  "runtime \<Rightarrow> buffer \<Rightarrow> MergeStakesInstruction list \<Rightarrow> AccountInfo list \<Rightarrow> chain \<Rightarrow> program_error + chain" where
  "process_merge_stakes R program_id instructions accounts s =
     next_account_info accounts (\<lambda>stake_pool_info it.
     next_account_info it (\<lambda>validator_stake_list_info it.
     next_account_info it (\<lambda>deposit_info it.
     next_account_info it (\<lambda>stake_program_info it.
     next_account_info it (\<lambda>clock_info it.
     next_account_info it (\<lambda>stake_history_info it.
     bindP (load_pool program_id stake_pool_info s) (\<lambda>stake_pool.
     bindP (load_validators stake_pool validator_stake_list_info s) (\<lambda>vl.
     bindP (check_authority_deposit R stake_pool (ai_key deposit_info) program_id (ai_key stake_pool_info)) (\<lambda>_.
     bindP (merge_loop R
       \<lparr>se_program_id = program_id, se_pool_info = stake_pool_info, se_deposit_info = deposit_info,
        se_stake_program_info = stake_program_info, se_clock_info = clock_info,
        se_stake_history_info = stake_history_info,
        se_deposit_seeds = authority_seeds stake_pool_info AUTHORITY_DEPOSIT (deposit_bump_seed stake_pool)\<rparr>
       instructions vl False it s) (\<lambda>(vl, changed, s).
     if changed then save_validators R vl validator_stake_list_info s else Inr s))))))))))"

section \<open>Unstaking\<close>

text \<open>One request that names its source as its split deactivates the whole stake.\<close>

definition deactivate_whole ::
  "runtime \<Rightarrow> unstake_env \<Rightarrow> AccountInfo \<Rightarrow> chain \<Rightarrow> program_error + chain" where
  "deactivate_whole R E stake_info s =
     invoke_signed R (deactivate_stake R (ai_key stake_info) (ai_key (se_deposit_info E)))
       [se_stake_program_info E, stake_info, se_deposit_info E, se_clock_info E, se_stake_history_info E]
       [se_deposit_seeds E] s"

definition split_and_deactivate ::
  "runtime \<Rightarrow> unstake_env \<Rightarrow> UnstakeInstruction \<Rightarrow> AccountInfo \<Rightarrow> AccountInfo \<Rightarrow> nat \<Rightarrow> chain \<Rightarrow> program_error + chain" where
  "split_and_deactivate R E u source_stake_info split_stake_info split_bump s =
     bindP (invoke_signed R
       (Sys_create_account (ai_key (un_owner_info E)) (ai_key split_stake_info)
          (minimum_balance (un_rent E) (StakeState_size R)) (StakeState_size R) (stake_id R))
       [un_system_program_info E, un_owner_info E, split_stake_info]
       [stake_signer_seeds (usi_validator_address u) (se_pool_info E) (usi_split_index u) split_bump] s) (\<lambda>s.
     bindP (invoke_signed R
       (split_only (ai_key source_stake_info) (ai_key (se_deposit_info E)) (usi_amount u) (ai_key split_stake_info))
       [se_stake_program_info E, source_stake_info, se_deposit_info E, split_stake_info]
       [se_deposit_seeds E] s) (\<lambda>s.
     deactivate_whole R E split_stake_info s))"

primrec unstake_loop ::
  "runtime \<Rightarrow> unstake_env \<Rightarrow> UnstakeInstruction list \<Rightarrow> ValidatorStakeList \<Rightarrow> bool \<Rightarrow> AccountInfo list \<Rightarrow>
   chain \<Rightarrow> program_error + ValidatorStakeList \<times> bool \<times> chain" where
  "unstake_loop R E [] vl changed it s = Inr (vl, changed, s)"
| "unstake_loop R E (u # us) vl changed it s =
     (case ValidatorStakeList_find vl (usi_validator_address u) of
        None \<Rightarrow> Inl (into ValidatorNotFound)
      | Some v \<Rightarrow>
          if usi_source_index u \<ge> stake_count v then Inl (into InvalidStakeIndex)
          else if usi_split_index u > stake_count v then Inl (into InvalidStakeIndex)
          else
            next_account_info it (\<lambda>source_stake_info it.
            bindP (check_validator_stake_address R v (se_program_id E) (ai_key (se_pool_info E)) (usi_source_index u)
              (ai_key source_stake_info)) (\<lambda>_.
            if usi_split_index u = usi_source_index u then
              bindP (deactivate_whole R E source_stake_info s) (\<lambda>s.
              unstake_loop R E us vl changed it s)
            else
              let grows = (usi_split_index u = stake_count v);
                  v' = (if grows then v\<lparr>stake_count := wadd32 (stake_count v) 1\<rparr> else v);
                  vl' = (if grows then ValidatorStakeList_replace vl (usi_validator_address u) v' else vl)
              in
              next_account_info it (\<lambda>split_stake_info it.
              bindP (check_validator_stake_address R v' (se_program_id E) (ai_key (se_pool_info E)) (usi_split_index u)
                (ai_key split_stake_info)) (\<lambda>split_bump.
              bindP (split_and_deactivate R E u source_stake_info split_stake_info split_bump s) (\<lambda>s.
              unstake_loop R E us vl' (changed \<or> grows) it s))))))"

definition process_unstake ::
  "runtime \<Rightarrow> buffer \<Rightarrow> UnstakeInstruction list \<Rightarrow> AccountInfo list \<Rightarrow> chain \<Rightarrow> program_error + chain" where
  "process_unstake R program_id instructions accounts s =
     next_account_info accounts (\<lambda>stake_pool_info it.
     next_account_info it (\<lambda>owner_info it.
     next_account_info it (\<lambda>validator_stake_list_info it.
     next_account_info it (\<lambda>deposit_info it.
     next_account_info it (\<lambda>system_program_info it.
     next_account_info it (\<lambda>stake_program_info it.
     next_account_info it (\<lambda>rent_info it.
     bindP (Rent_from_account_info R rent_info s) (\<lambda>rent.
     next_account_info it (\<lambda>clock_info it.
     next_account_info it (\<lambda>stake_history_info it.
     bindP (load_pool program_id stake_pool_info s) (\<lambda>stake_pool.
     bindP (check_owner stake_pool owner_info) (\<lambda>_.
     bindP (load_validators stake_pool validator_stake_list_info s) (\<lambda>vl.
     bindP (check_authority_deposit R stake_pool (ai_key deposit_info) program_id (ai_key stake_pool_info)) (\<lambda>_.
     bindP (unstake_loop R
       \<lparr>se_program_id = program_id, se_pool_info = stake_pool_info, se_deposit_info = deposit_info,
        se_stake_program_info = stake_program_info, se_clock_info = clock_info,
        se_stake_history_info = stake_history_info,
        se_deposit_seeds = authority_seeds stake_pool_info AUTHORITY_DEPOSIT (deposit_bump_seed stake_pool),
        un_owner_info = owner_info, un_system_program_info = system_program_info, un_rent = rent\<rparr>
       instructions vl False it s) (\<lambda>(vl, changed, s).
     if changed then save_validators R vl validator_stake_list_info s else Inr s)))))))))))))))"

end
