(* ===== verification/Onchain_Process.thy ===== *)
theory Onchain_Process
  imports Onchain_Users Onchain_Stakes
begin

text \<open>
  The dispatch of an instruction to its handler, \<open>Processor::process\<close> of \<open>program/src/processor.rs\<close>, and what
  holds of the program as a whole.
\<close>

definition handle ::
  "runtime \<Rightarrow> buffer \<Rightarrow> AccountInfo list \<Rightarrow> StakePoolInstruction \<Rightarrow> chain \<Rightarrow> program_error + chain" where
  "handle R program_id accounts i s =
     (case i of
        Initialize denominator numerator \<Rightarrow> process_initialize R program_id denominator numerator accounts s
      | AddValidator \<Rightarrow> process_add_validator R program_id accounts s
      | RemoveValidator \<Rightarrow> process_remove_validator R program_id accounts s
      | UpdateListBalance \<Rightarrow> process_update_list_balance R program_id accounts s
      | UpdatePoolBalance \<Rightarrow> process_update_pool_balance R program_id accounts s
      | Deposit amount \<Rightarrow> process_deposit R program_id amount accounts s
      | Withdraw amount \<Rightarrow> process_withdraw R program_id amount accounts s
      | SetStakingAuthority \<Rightarrow> Inl Panic
      | SetOwner \<Rightarrow> process_set_owner R program_id accounts s
      | Credit amount \<Rightarrow> process_credit R program_id amount accounts s
      | Uncredit amount \<Rightarrow> process_uncredit R program_id amount accounts s
      | DelegateReserve instructions \<Rightarrow> process_delegate_reserve R program_id instructions accounts s
      | MergeStakes instructions \<Rightarrow> process_merge_stakes R program_id instructions accounts s
      | UnstakeStakes instructions \<Rightarrow> process_unstake R program_id instructions accounts s
      | PayCreditors \<Rightarrow> process_pay_creditors R program_id accounts s)"

definition process ::
  "runtime \<Rightarrow> buffer \<Rightarrow> AccountInfo list \<Rightarrow> buffer \<Rightarrow> chain \<Rightarrow> program_error + chain" where
  "process R program_id accounts input s =
     bindP (deserialize_instruction input) (\<lambda>instruction. handle R program_id accounts instruction s)"

section \<open>Who may do what\<close>

fun owner_instruction :: "StakePoolInstruction \<Rightarrow> bool" where
  "owner_instruction AddValidator = True"
| "owner_instruction RemoveValidator = True"
| "owner_instruction SetOwner = True"
| "owner_instruction (DelegateReserve _) = True"
| "owner_instruction (UnstakeStakes _) = True"
| "owner_instruction _ = False"

text \<open>The pool account leads the accounts of every instruction; the owner comes second where it is asked for.\<close>

definition signed_by_owner :: "buffer \<Rightarrow> AccountInfo list \<Rightarrow> chain \<Rightarrow> bool" where
  "signed_by_owner program_id accounts s =
     (case accounts of
        pool_info # owner_info # _ \<Rightarrow>
          (case load_pool program_id pool_info s of
             Inr p \<Rightarrow> ai_key owner_info = pool_owner p \<and> is_signer owner_info
           | Inl _ \<Rightarrow> False)
      | _ \<Rightarrow> False)"

lemmas run_Inr = next_account_info_Inr bindP_Inr check_owner_Inr ok_or_Inr

lemma signed_handlers:
  "process_add_validator R pid accounts s = Inr s' \<Longrightarrow> signed_by_owner pid accounts s"
  "process_remove_validator R pid accounts s = Inr s' \<Longrightarrow> signed_by_owner pid accounts s"
  "process_set_owner R pid accounts s = Inr s' \<Longrightarrow> signed_by_owner pid accounts s"
  "process_delegate_reserve R pid ds accounts s = Inr s' \<Longrightarrow> signed_by_owner pid accounts s"
  "process_unstake R pid us accounts s = Inr s' \<Longrightarrow> signed_by_owner pid accounts s"
  by (auto simp: process_add_validator_def process_remove_validator_def process_set_owner_def
    process_delegate_reserve_def process_unstake_def run_Inr signed_by_owner_def)

end
