(* ===== verification/Onchain_Sample.thy ===== *)
theory Onchain_Sample
  imports Onchain_Pool
begin

text \<open>
  A small host that meets the hypotheses of the theorems on the program, for their witnesses: lamports move
  by system transfers, pool tokens by the token program's own rules (a token account of 165 bytes holds
  its mint, its owner, its amount and its delegate), and every other call is accepted. Addresses of 32
  equal bytes, a pool with 100 SOL and 80 pool tokens.
\<close>

section \<open>The host\<close>

definition sample_address :: "buffer list \<Rightarrow> buffer" where
  "sample_address seeds = take 32 (concat (map (\<lambda>sd. take 8 (sd @ replicate 8 0)) (rev seeds)) @ replicate 32 0)"

definition tok_amount :: "buffer \<Rightarrow> nat" where "tok_amount d = le_val (slice d 64 72)"

definition tok_allows :: "buffer \<Rightarrow> buffer \<Rightarrow> bool" where
  "tok_allows d authority \<longleftrightarrow> slice d 32 64 = authority \<or> (le_val (slice d 72 76) = 1 \<and> slice d 76 108 = authority)"

definition tok_put :: "nat \<Rightarrow> account \<Rightarrow> account" where
  "tok_put n x = x\<lparr>ac_data := overwrite (ac_data x) 64 (le_bytes 8 n)\<rparr>"

definition sample_token :: buffer where "sample_token = replicate 32 6"

definition sample_invoke ::
  "cpi \<Rightarrow> buffer list \<Rightarrow> buffer list list \<Rightarrow> (buffer \<Rightarrow> account) \<Rightarrow> program_error + (buffer \<Rightarrow> account)" where
  "sample_invoke ix ks seeds a =
     (case ix of
        Sys_transfer from_key to_key n \<Rightarrow>
          if ac_lamports (a from_key) < n then Inl InsufficientFunds
          else
            let b = a(from_key := (a from_key)\<lparr>ac_lamports := ac_lamports (a from_key) - n\<rparr>)
            in Inr (b(to_key := (b to_key)\<lparr>ac_lamports := ac_lamports (b to_key) + n\<rparr>))
      | Token_burn tp src mint authority n \<Rightarrow>
          if ac_owner (a src) \<noteq> sample_token then Inl IncorrectProgramId
          else if slice (ac_data (a src)) 0 32 \<noteq> mint then Inl (Custom 3)
          else if \<not> tok_allows (ac_data (a src)) authority then Inl (Custom 4)
          else if tok_amount (ac_data (a src)) < n then Inl (Custom 1)
          else Inr (a(src := tok_put (tok_amount (ac_data (a src)) - n) (a src)))
      | Token_transfer tp src dst authority n \<Rightarrow>
          if ac_owner (a src) \<noteq> sample_token \<or> ac_owner (a dst) \<noteq> sample_token then Inl IncorrectProgramId
          else if slice (ac_data (a src)) 0 32 \<noteq> slice (ac_data (a dst)) 0 32 then Inl (Custom 3)
          else if \<not> tok_allows (ac_data (a src)) authority then Inl (Custom 4)
          else if tok_amount (ac_data (a src)) < n then Inl (Custom 1)
          else
            let b = a(src := tok_put (tok_amount (ac_data (a src)) - n) (a src))
            in Inr (b(dst := tok_put (tok_amount (ac_data (b dst)) + n) (b dst)))
      | _ \<Rightarrow> Inr a)"

definition sample_rent :: Rent where
  "sample_rent = \<lparr>minimum_balance = (\<lambda>n. (128 + n) * 6960), is_exempt = (\<lambda>l n. (128 + n) * 6960 \<le> l)\<rparr>"

definition sample_decode :: "buffer \<Rightarrow> StakeState option" where
  "sample_decode d =
     (if d = [] then None
      else Some (Staked
        \<lparr>rent_exempt_reserve = 2282880, authorized = \<lparr>staker = [], withdrawer = []\<rparr>, lockup = Lockup_default\<rparr>
        \<lparr>delegation = \<lparr>voter_pubkey = [], dlg_stake = 0, activation_epoch = 0, deactivation_epoch = 0,
           warmup_cooldown_rate = 0\<rparr>, credits_observed = le_val (take 8 d)\<rparr>))"

definition sample_runtime :: runtime where
  "sample_runtime =
     \<lparr>rt_invoke = sample_invoke,
      create_program_address = (\<lambda>seeds pid. Some (sample_address (butlast seeds))),
      find_program_address = (\<lambda>seeds pid. (sample_address seeds, 255)),
      clock_epoch = (\<lambda>k d. Inr 10),
      rent_of = (\<lambda>k d. Inr sample_rent),
      unpack_token = (\<lambda>d. if length d < 165 then Inl InvalidAccountData
        else Inr \<lparr>tk_mint = slice d 0 32, tk_initialized = True, tk_delegate = None, tk_close_authority = None\<rparr>),
      unpack_mint = (\<lambda>d. Inr \<lparr>mint_authority = Some (take 32 d), mint_supply = 0\<rparr>),
      decode_stake = sample_decode,
      system_program_id = replicate 32 0,
      spl_token_id = sample_token,
      native_mint_id = replicate 32 61,
      stake_id = replicate 32 62,
      sysvar_clock = replicate 32 63,
      sysvar_stake_history = replicate 32 64,
      sysvar_rent = replicate 32 65,
      STAKE_CONFIG = replicate 32 66,
      TokenAccount_LEN = 165,
      StakeState_size = 200,
      pad_pool = replicate 5 0,
      pad_vsi = replicate 4 0\<rparr>"

definition sample_pid :: buffer where "sample_pid = replicate 32 9"

lemma sample_host_ok: "host_ok sample_runtime sample_pid"
  unfolding host_ok_def
  by (auto simp: sample_runtime_def sample_invoke_def sample_pid_def sample_token_def Let_def tok_put_def
    split: cpi.splits if_splits)

section \<open>The pool\<close>

definition acc :: "nat \<Rightarrow> AccountInfo" where
  "acc n = \<lparr>ai_key = replicate 32 (of_nat n), is_signer = False\<rparr>"

definition sample_pool :: StakePool where
  "sample_pool =
     \<lparr>pool_version = 1, pool_owner = replicate 32 11, deposit_bump_seed = 255, withdraw_bump_seed = 255,
      pool_validator_stake_list = replicate 32 12, pool_credit_list = replicate 32 13, pool_mint = replicate 32 14,
      owner_fee_account = replicate 32 15, pool_credit_reserve = replicate 32 16, token_program_id = sample_token,
      stake_total = 100000000000, pool_total = 80000000000, pool_last_update_epoch = 10,
      pool_fee_denominator = 100, pool_fee_numerator = 1\<rparr>"

definition sample_withdraw :: buffer where
  "sample_withdraw = sample_address [replicate 32 10, AUTHORITY_WITHDRAW]"

definition sample_reserve :: buffer where
  "sample_reserve = sample_address [replicate 32 10, AUTHORITY_RESERVE]"

definition token_data :: "buffer \<Rightarrow> buffer \<Rightarrow> nat \<Rightarrow> buffer option \<Rightarrow> buffer" where
  "token_data mint holder n delegate =
     mint @ holder @ le_bytes 8 n @
     (case delegate of None \<Rightarrow> replicate 36 0 | Some d \<Rightarrow> le_bytes 4 1 @ d) @ replicate 57 0"

definition plain :: "nat \<Rightarrow> account" where
  "plain n = \<lparr>ac_owner = replicate 32 0, ac_lamports = n, ac_data = []\<rparr>"

text \<open>
  The accounts: the pool (10), its lists (12, 13), the credit reserve (16) with 30 tokens, a user with 5
  SOL (20) and a token account (21) of 20 tokens with the pool as its delegate, a stranger (22), and a token
  account (23) of the stranger's, of a mint (24) that is not the pool's.
\<close>

definition sample_accts :: "buffer \<Rightarrow> account" where
  "sample_accts k =
     (if k = replicate 32 10 then \<lparr>ac_owner = sample_pid, ac_lamports = 2784000, ac_data = pool_bytes (replicate 5 0) sample_pool\<rparr>
      else if k = replicate 32 12 then \<lparr>ac_owner = sample_pid, ac_lamports = 39887760, ac_data = [1, 0, 0] @ alloc 5600\<rparr>
      else if k = replicate 32 13 then \<lparr>ac_owner = sample_pid, ac_lamports = 502031760, ac_data = [1, 0, 0] @ alloc 72000\<rparr>
      else if k = replicate 32 16
      then \<lparr>ac_owner = sample_token, ac_lamports = 2039280, ac_data = token_data (replicate 32 14) sample_withdraw 30000000000 None\<rparr>
      else if k = replicate 32 21
      then \<lparr>ac_owner = sample_token, ac_lamports = 2039280, ac_data = token_data (replicate 32 14) (replicate 32 20) 20000000000 (Some sample_withdraw)\<rparr>
      else if k = replicate 32 23
      then \<lparr>ac_owner = sample_token, ac_lamports = 2039280, ac_data = token_data (replicate 32 24) (replicate 32 22) 40000000000 (Some sample_withdraw)\<rparr>
      else if k = sample_reserve then plain 60000000000
      else if k = replicate 32 20 then plain 5000000000
      else plain 0)"

definition sample_chain :: chain where
  "sample_chain = \<lparr>accts = sample_accts, cpis = []\<rparr>"

lemma sample_pool_ok: "pool_ok sample_pool"
  by (simp add: pool_ok_def sample_pool_def sample_token_def)

lemma sample_load_pool: "ai_key i = replicate 32 10 \<Longrightarrow> load_pool sample_pid i sample_chain = Inr sample_pool"
  using read_pool_bytes [OF sample_pool_ok, of "replicate 5 0" "[]"]
  by (simp add: load_pool_def acct_def sample_chain_def sample_accts_def StakePool_is_initialized_def) (simp add: sample_pool_def)

end
