(* ===== verification/Onchain_View.thy ===== *)
theory Onchain_View
  imports Onchain_Process Onchain_Sample
begin

text \<open>
  The program as a state machine on the pool it stores. \<open>view\<close> reads a pool with its two lists back from
  the accounts; \<open>pool_step\<close> says what each instruction may do to them. The program refines the machine:
  a handler that succeeds on a pool takes a step of the machine on its view. What holds of the machine's
  runs then holds of the accounts, whatever the order of the instructions.
\<close>

section \<open>The stored pool and its lists\<close>

record pool_view =
  pv_pool :: StakePool
  pv_validators :: "ValidatorStakeInfo list"
  pv_credits :: "CreditRecord list"

definition info_at :: "buffer \<Rightarrow> AccountInfo" where
  "info_at k = \<lparr>ai_key = k, is_signer = False\<rparr>"

definition view :: "buffer \<Rightarrow> buffer \<Rightarrow> chain \<Rightarrow> pool_view option" where
  "view pid k s =
     (case load_pool pid (info_at k) s of
        Inl _ \<Rightarrow> None
      | Inr p \<Rightarrow>
          if distinct [k, pool_validator_stake_list p, pool_credit_list p] \<and>
             ac_owner (accts s (pool_validator_stake_list p)) = pid \<and> ac_owner (accts s (pool_credit_list p)) = pid
          then
            (case (load_validators p (info_at (pool_validator_stake_list p)) s, load_credits p (info_at (pool_credit_list p)) s) of
               (Inr vl, Inr cl) \<Rightarrow> Some \<lparr>pv_pool = p, pv_validators = validators vl, pv_credits = credits cl\<rparr>
             | _ \<Rightarrow> None)
          else None)"

definition list_of_keys :: "AccountInfo list \<Rightarrow> bool" where
  "list_of_keys accounts \<longleftrightarrow> list_all (\<lambda>i. length (ai_key i) = 32) accounts"

lemma view_Some:
  "view pid k s = Some V \<longleftrightarrow>
    (\<exists>vl cl. load_pool pid (info_at k) s = Inr (pv_pool V) \<and>
      distinct [k, pool_validator_stake_list (pv_pool V), pool_credit_list (pv_pool V)] \<and>
      ac_owner (accts s (pool_validator_stake_list (pv_pool V))) = pid \<and>
      ac_owner (accts s (pool_credit_list (pv_pool V))) = pid \<and>
      load_validators (pv_pool V) (info_at (pool_validator_stake_list (pv_pool V))) s = Inr vl \<and>
      load_credits (pv_pool V) (info_at (pool_credit_list (pv_pool V))) s = Inr cl \<and>
      pv_validators V = validators vl \<and> pv_credits V = credits cl)"
  by (cases V) (auto simp: view_def split: sum.splits if_splits)

lemma load_key:
  "load_pool pid i s = load_pool pid (info_at (ai_key i)) s"
  "load_validators p i s = load_validators p (info_at (ai_key i)) s"
  "load_credits p i s = load_credits p (info_at (ai_key i)) s"
  by (simp_all add: load_pool_def load_validators_def load_credits_def acct_def info_at_def)

section \<open>Reading back what was stored\<close>

lemma slice_length: "b \<le> length d \<Longrightarrow> length (slice d a b) = b - a"
  by (simp add: slice_def)

lemma le_val_slice_bound: "b \<le> length d \<Longrightarrow> le_val (slice d a b) < 256 ^ (b - a)"
  using le_val_bound [of "slice d a b"] by (simp add: slice_length)

lemma read_vsi_ok: "length d = 56 \<Longrightarrow> vsi_ok (read_vsi d)"
  using le_val_slice_bound [of 40 d 32] le_val_slice_bound [of 48 d 40] le_val_slice_bound [of 52 d 48]
  by (simp add: vsi_ok_def read_vsi_def slice_length)

lemma read_credit_ok: "length d = 72 \<Longrightarrow> credit_ok (read_credit d)"
  using le_val_slice_bound [of 72 d 64] by (simp add: credit_ok_def read_credit_def slice_length)

lemma read_records_ok:
  "(\<And>d. length d = sz \<Longrightarrow> Q (de d)) \<Longrightarrow> fr + n * sz \<le> length input \<Longrightarrow> list_all Q (read_records sz de input fr n)"
  by (induction n arbitrary: fr) (simp_all add: slice_length)

lemma length_read_records [simp]: "length (read_records sz de input fr n) = n"
  by (induction n arbitrary: fr) simp_all

lemma validators_ok:
  assumes "ValidatorStakeList_deserialize d = Inr l"
  shows "list_all vsi_ok (validators l)" "length (validators l) \<le> MAX_VALIDATORS" "vsl_version l < 256"
  using assms read_records_ok [of 56 vsi_ok read_vsi, OF read_vsi_ok] le_val_slice_bound [of 1 d 0]
  by (auto simp: ValidatorStakeList_deserialize_def layout_sizes Let_def split: if_splits)

lemma credits_ok:
  assumes "CreditList_deserialize d = Inr l"
  shows "list_all credit_ok (credits l)" "length (credits l) \<le> MAX_CREDIT_RECORDS" "cl_version l < 256"
  using assms read_records_ok [of 72 credit_ok read_credit, OF read_credit_ok] le_val_slice_bound [of 1 d 0]
  by (auto simp: CreditList_deserialize_def layout_sizes Let_def split: if_splits)

lemma save_validators_read:
  assumes "save_validators R l i s = Inr s'" "list_all vsi_ok (validators l)" "0 < vsl_version l" "vsl_version l < 256"
    "length (pad_vsi R) = 4"
  shows "ValidatorStakeList_deserialize (ac_data (accts s' (ai_key i))) = Inr l"
    "\<exists>d. s' = put_data i d s"
proof -
  from assms(1) have len: "ValidatorStakeList_LEN \<le> length (ac_data (acct i s))" "length (validators l) \<le> MAX_VALIDATORS"
    by (auto simp: save_validators_def ValidatorStakeList_serialize_def split: if_splits)
  from ValidatorStakeList_roundtrip [OF assms(5) this assms(2-4)] assms(1)
  show "ValidatorStakeList_deserialize (ac_data (accts s' (ai_key i))) = Inr l" "\<exists>d. s' = put_data i d s"
    by (auto simp: save_validators_def)
qed

lemma save_credits_read:
  assumes "save_credits l i s = Inr s'" "list_all credit_ok (credits l)" "0 < cl_version l" "cl_version l < 256"
  shows "CreditList_deserialize (ac_data (accts s' (ai_key i))) = Inr l"
    "\<exists>d. s' = put_data i d s"
proof -
  from assms(1) have len: "CreditList_LEN \<le> length (ac_data (acct i s))" "length (credits l) \<le> MAX_CREDIT_RECORDS"
    by (auto simp: save_credits_def CreditList_serialize_def split: if_splits)
  from CreditList_roundtrip [OF this assms(2-4)] assms(1)
  show "CreditList_deserialize (ac_data (accts s' (ai_key i))) = Inr l" "\<exists>d. s' = put_data i d s"
    by (auto simp: save_credits_def)
qed

section \<open>How the view changes\<close>

lemmas loads = load_pool_Inr load_validators_Inr load_credits_Inr

lemma view_keeps: "view pid k s = Some V \<Longrightarrow> keeps pid s s' \<Longrightarrow> view pid k s' = Some V"
  by (auto simp: view_Some loads info_at_def acct_def keeps_def)

lemma view_save_pool:
  assumes "view pid k s = Some V" "save_pool R p' i s = Inr s'" "ai_key i = k" "pool_ok p'" "0 < pool_version p'"
    "pool_validator_stake_list p' = pool_validator_stake_list (pv_pool V)"
    "pool_credit_list p' = pool_credit_list (pv_pool V)" "length (pad_pool R) = 5"
  shows "view pid k s' = Some (V\<lparr>pv_pool := p'\<rparr>)"
proof -
  obtain d where "s' = put_data i d s"
    using assms(2) by (auto simp: save_pool_Inr)
  then show ?thesis
    using assms(1,3,5-7) read_saved_pool(1) [OF assms(2,4,8)]
    by (auto simp: view_Some loads info_at_def acct_def StakePool_is_initialized_def)
qed

lemma view_save_validators:
  assumes "view pid k s = Some V" "save_validators R l i s = Inr s'" "ai_key i = pool_validator_stake_list (pv_pool V)"
    "list_all vsi_ok (validators l)" "0 < vsl_version l" "vsl_version l < 256" "length (pad_vsi R) = 4"
  shows "view pid k s' = Some (V\<lparr>pv_validators := validators l\<rparr>)"
  using assms(1,3,5) save_validators_read [OF assms(2,4-7)]
  by (auto simp: view_Some loads info_at_def acct_def ValidatorStakeList_is_initialized_def)

lemma view_save_credits:
  assumes "view pid k s = Some V" "save_credits l i s = Inr s'" "ai_key i = pool_credit_list (pv_pool V)"
    "list_all credit_ok (credits l)" "0 < cl_version l" "cl_version l < 256"
  shows "view pid k s' = Some (V\<lparr>pv_credits := credits l\<rparr>)"
  using assms(1,3,5) save_credits_read [OF assms(2,4-6)]
  by (auto simp: view_Some loads info_at_def acct_def CreditList_is_initialized_def)

text \<open>What a handler read is what the view has.\<close>

lemma view_pool: "view pid k s = Some V \<Longrightarrow> ai_key i = k \<Longrightarrow> load_pool pid i s = Inr p \<longleftrightarrow> p = pv_pool V"
  by (auto simp: view_Some load_key(1) [of pid i])

lemma view_pool_ok: "view pid k s = Some V \<Longrightarrow> pool_ok (pv_pool V) \<and> 0 < pool_version (pv_pool V)"
  by (auto simp: view_Some loads StakePool_is_initialized_def dest: deserialized_ok)

lemma view_validators:
  "view pid k s = Some V \<Longrightarrow> load_validators (pv_pool V) j s = Inr vl \<Longrightarrow>
    validators vl = pv_validators V \<and> list_all vsi_ok (pv_validators V) \<and> length (pv_validators V) \<le> MAX_VALIDATORS \<and>
    0 < vsl_version vl \<and> vsl_version vl < 256 \<and> ai_key j = pool_validator_stake_list (pv_pool V)"
  by (auto simp: view_Some loads acct_def info_at_def ValidatorStakeList_is_initialized_def validators_ok)

lemma view_credits:
  "view pid k s = Some V \<Longrightarrow> load_credits (pv_pool V) j s = Inr cl \<Longrightarrow>
    credits cl = pv_credits V \<and> list_all credit_ok (pv_credits V) \<and> length (pv_credits V) \<le> MAX_CREDIT_RECORDS \<and>
    0 < cl_version cl \<and> cl_version cl < 256 \<and> ai_key j = pool_credit_list (pv_pool V)"
  by (auto simp: view_Some loads acct_def info_at_def CreditList_is_initialized_def credits_ok)

section \<open>Lists that evolve entry by entry\<close>

definition evolved :: "(ValidatorStakeInfo \<Rightarrow> ValidatorStakeInfo \<Rightarrow> bool) \<Rightarrow> ValidatorStakeList \<Rightarrow> ValidatorStakeList \<Rightarrow> bool" where
  "evolved Q l l' \<longleftrightarrow> vsl_version l' = vsl_version l \<and> list_all2 Q (validators l) (validators l') \<and>
     (list_all vsi_ok (validators l) \<longrightarrow> list_all vsi_ok (validators l'))"

lemma evolved_refl: "(\<And>v. Q v v) \<Longrightarrow> evolved Q l l"
  by (simp add: evolved_def list_all2_refl)

lemma evolved_trans:
  "evolved Q l l' \<Longrightarrow> evolved Q l' l'' \<Longrightarrow> (\<And>u v w. Q u v \<Longrightarrow> Q v w \<Longrightarrow> Q u w) \<Longrightarrow> evolved Q l l''"
  unfolding evolved_def by (auto intro: list_all2_trans [of Q Q Q])

lemma list_all2_update_first:
  "find P xs = Some x \<Longrightarrow> Q x y \<Longrightarrow> (\<And>z. Q z z) \<Longrightarrow> list_all2 Q xs (update_first P y xs)"
  by (induction xs) (auto simp: list_all2_refl split: if_splits)

lemma evolved_replace:
  assumes "ValidatorStakeList_find l k = Some v" "Q v w" "vsi_ok v \<Longrightarrow> vsi_ok w" "\<And>z. Q z z"
  shows "evolved Q l (ValidatorStakeList_replace l k w)"
proof -
  have "vsi_ok w" if "list_all vsi_ok (validators l)"
    using that assms(1,3) find_keyD [of validator_account k "validators l" v]
    by (auto simp: ValidatorStakeList_find_def list_all_iff)
  then show ?thesis
    using list_all2_update_first [where Q = Q, OF assms(1) [unfolded ValidatorStakeList_find_def] assms(2,4)]
    by (simp add: evolved_def ValidatorStakeList_replace_def list_all_update_first)
qed

section \<open>What the loops do to the validators\<close>

definition same_validator :: "ValidatorStakeInfo \<Rightarrow> ValidatorStakeInfo \<Rightarrow> bool" where
  "same_validator v v' \<longleftrightarrow> validator_account v' = validator_account v"

text \<open>Delegation changes balances and counts; merging and unstaking only counts.\<close>

definition same_epoch :: "ValidatorStakeInfo \<Rightarrow> ValidatorStakeInfo \<Rightarrow> bool" where
  "same_epoch v v' \<longleftrightarrow> same_validator v v' \<and> vsi_last_update_epoch v' = vsi_last_update_epoch v"

definition only_count :: "ValidatorStakeInfo \<Rightarrow> ValidatorStakeInfo \<Rightarrow> bool" where
  "only_count v v' \<longleftrightarrow> v' = v\<lparr>stake_count := stake_count v'\<rparr>"

definition fewer_stakes :: "ValidatorStakeInfo \<Rightarrow> ValidatorStakeInfo \<Rightarrow> bool" where
  "fewer_stakes v v' \<longleftrightarrow> only_count v v' \<and> stake_count v' \<le> stake_count v"

lemma relations_refl [simp]: "same_validator v v" "same_epoch v v" "only_count v v" "fewer_stakes v v"
  by (simp_all add: same_validator_def same_epoch_def only_count_def fewer_stakes_def)

lemma only_count_trans: "only_count u v \<Longrightarrow> only_count v w \<Longrightarrow> only_count u w"
  unfolding only_count_def by (metis ValidatorStakeInfo.update_convs(4) ValidatorStakeInfo.cases_scheme)

lemma relations_trans:
  "same_validator u v \<Longrightarrow> same_validator v w \<Longrightarrow> same_validator u w"
  "same_epoch u v \<Longrightarrow> same_epoch v w \<Longrightarrow> same_epoch u w"
  "fewer_stakes u v \<Longrightarrow> fewer_stakes v w \<Longrightarrow> fewer_stakes u w"
  using only_count_trans by (auto simp: same_validator_def same_epoch_def fewer_stakes_def)

lemma evolved_relations_trans:
  "evolved same_validator l l' \<Longrightarrow> evolved same_validator l' l'' \<Longrightarrow> evolved same_validator l l''"
  "evolved same_epoch l l' \<Longrightarrow> evolved same_epoch l' l'' \<Longrightarrow> evolved same_epoch l l''"
  "evolved fewer_stakes l l' \<Longrightarrow> evolved fewer_stakes l' l'' \<Longrightarrow> evolved fewer_stakes l l''"
  "evolved only_count l l' \<Longrightarrow> evolved only_count l' l'' \<Longrightarrow> evolved only_count l l''"
  by (erule (1) evolved_trans, erule (1) relations_trans only_count_trans)+

lemma withdraw_available_keeps:
  "withdraw_available R E i av b s = Inr (b', s') \<Longrightarrow> host_ok R pid \<Longrightarrow> keeps pid s s'"
  by (auto simp: withdraw_available_def bindP_Inr split: if_splits dest: invoke_signed_keeps)

lemma update_stakes_step:
  assumes "host_ok R pid"
  shows "update_stakes R E vi idxs v n it s = Inr (v', n', it', s') \<Longrightarrow>
    validator_account v' = validator_account v \<and> (vsi_ok v \<longrightarrow> vsi_ok v') \<and> (n < 2 ^ 32 \<longrightarrow> n' < 2 ^ 32) \<and> keeps pid s s'"
proof (induction idxs arbitrary: v n it s)
  case (Cons index idxs)
  obtain i it1 where it: "it = i # it1"
    using Cons.prems by (cases it) auto
  have ok: "vsi_ok v \<Longrightarrow> vsi_ok (v\<lparr>vsi_balance := wadd64 b c\<rparr>)" for b c
    by (simp add: vsi_ok_def)
  obtain v1 n1 s1 where "update_stakes R E vi idxs v1 n1 it1 s1 = Inr (v', n', it', s')"
    "validator_account v1 = validator_account v" "vsi_ok v \<Longrightarrow> vsi_ok v1" "n < 2 ^ 32 \<Longrightarrow> n1 < 2 ^ 32" "keeps pid s s1"
    using Cons.prems ok unfolding it
    by (fastforce simp: bindP_Inr Let_def split: if_splits
      dest: withdraw_available_keeps [OF _ assms] invoke_signed_keeps [OF _ assms])
  then show ?case
    using Cons.IH [of v1 n1 it1 s1] by (auto intro: keeps_trans)
qed simp

lemma update_validators_step:
  "update_validators R E vl c it s = Inr (vl', c', s') \<Longrightarrow> host_ok R pid \<Longrightarrow> ue_epoch E < 2 ^ 64 \<Longrightarrow>
    evolved same_validator vl vl' \<and> keeps pid s s'"
proof (induction R E vl c it s rule: update_validators.induct)
  case (1 R E vl changes s)
  then show ?case by (simp add: evolved_refl)
next
  case (2 R E vl changes vote it s)
  then obtain v w n it1 s1 where step: "ValidatorStakeList_find vl (ai_key vote) = Some v"
    "update_stakes R E vote [0..<stake_count v] (v\<lparr>vsi_balance := 0\<rparr>) 0 it s = Inr (w, n, it1, s1)"
    "update_validators R E (ValidatorStakeList_replace vl (ai_key vote)
       (w\<lparr>stake_count := n, vsi_last_update_epoch := ue_epoch E\<rparr>)) True it1 s1 = Inr (vl', c', s')"
    by (auto simp: bindP_Inr split: option.splits)
  let ?w = "w\<lparr>stake_count := n, vsi_last_update_epoch := ue_epoch E\<rparr>"
  from update_stakes_step [OF 2(3) step(2)]
  have w: "same_validator v ?w" "vsi_ok v \<Longrightarrow> vsi_ok ?w" and "keeps pid s s1"
    using 2(4) by (auto simp: same_validator_def vsi_ok_def)
  moreover have "evolved same_validator (ValidatorStakeList_replace vl (ai_key vote) ?w) vl' \<and> keeps pid s1 s'"
    using 2(1) [OF step(1,2)] step(3) 2(3,4) by simp
  ultimately show ?case
    using evolved_replace [where Q = same_validator, OF step(1) w] by (auto intro: keeps_trans evolved_relations_trans)
qed

lemma init_stake_step:
  assumes "host_ok R pid"
  shows "init_stake R E v vote i b index lam s = Inr (v', s') \<Longrightarrow>
    v' = v\<lparr>vsi_balance := wadd64 (vsi_balance v) lam\<rparr> \<and> onchain_MIN_STAKE_ACCOUNT_BALANCE \<le> lam \<and> keeps pid s s'"
  by (auto simp: init_stake_def invoke_def bindP_Inr guard_Inr dest!: invoke_signed_keeps [OF _ assms])
    (simp add: keeps_def)

lemma redelegate_stake_step:
  assumes "host_ok R pid"
  shows "redelegate_stake R E v vote i lam s = Inr (v', s') \<Longrightarrow>
    v' = v\<lparr>vsi_balance := wadd64 (vsi_balance v) lam\<rparr> \<and> keeps pid s s'"
  by (auto simp: redelegate_stake_def bindP_Inr dest!: invoke_signed_keeps [OF _ assms])
    (simp add: keeps_def)

lemma fund_stake_step:
  assumes "host_ok R pid"
  shows "(if new then init_stake R E v vote i b index lam s else redelegate_stake R E v vote i lam s) = Inr (v', s') \<Longrightarrow>
    v' = v\<lparr>vsi_balance := wadd64 (vsi_balance v) lam\<rparr> \<and> keeps pid s s'"
  using init_stake_step [OF assms] redelegate_stake_step [OF assms] by (auto split: if_splits)

lemma delegate_loop_step:
  assumes "host_ok R pid"
  shows "delegate_loop R E ds vl ta c it s = Inr (vl', c', s') \<Longrightarrow> evolved same_epoch vl vl' \<and> keeps pid s s'"
proof (induction ds arbitrary: vl ta c it s)
  case Nil
  then show ?case by (simp add: evolved_refl)
next
  case (Cons d ds)
  obtain vote i it1 v b w s1 where step: "ValidatorStakeList_find vl (ai_key vote) = Some v"
    "(if ac_owner (acct i s) = system_program_id R
      then init_stake R E v vote i b (dri_stake_index d) (dri_amount d) s
      else redelegate_stake R E v vote i (dri_amount d) s) = Inr (w, s1)"
    "(if dri_stake_index d \<ge> stake_count w
      then delegate_loop R E ds
        (ValidatorStakeList_replace vl (ai_key vote) (w\<lparr>stake_count := wadd32 (dri_stake_index d) 1\<rparr>))
        (wadd64 ta (dri_amount d)) True it1 s1
      else delegate_loop R E ds (ValidatorStakeList_replace vl (ai_key vote) w) (wadd64 ta (dri_amount d)) c it1 s1) =
       Inr (vl', c', s')"
    using Cons.prems by (clarsimp simp: next_account_info_Inr bindP_Inr guard_Inr split: option.splits)
  let ?w = "if dri_stake_index d \<ge> stake_count w then w\<lparr>stake_count := wadd32 (dri_stake_index d) 1\<rparr> else w"
  from fund_stake_step [OF assms step(2)]
  have w: "same_epoch v ?w" "vsi_ok v \<Longrightarrow> vsi_ok ?w" and "keeps pid s s1"
    by (auto simp: same_epoch_def same_validator_def vsi_ok_def)
  moreover have "delegate_loop R E ds (ValidatorStakeList_replace vl (ai_key vote) ?w) (wadd64 ta (dri_amount d))
      (dri_stake_index d \<ge> stake_count w \<or> c) it1 s1 = Inr (vl', c', s')"
    using step(3) by (simp split: if_splits)
  moreover have "evolved same_epoch vl (ValidatorStakeList_replace vl (ai_key vote) ?w)"
    by (intro evolved_replace [where Q = same_epoch, OF step(1)] w relations_refl)
  ultimately show ?case
    using Cons.IH by (blast intro: keeps_trans evolved_relations_trans)
qed

lemma merge_loop_step:
  assumes "host_ok R pid"
  shows "merge_loop R E ms vl c it s = Inr (vl', c', s') \<Longrightarrow> evolved fewer_stakes vl vl' \<and> keeps pid s s'"
proof (induction ms arbitrary: vl c it s)
  case Nil
  then show ?case by (simp add: evolved_refl)
next
  case (Cons m ms)
  obtain v vl1 c1 it1 s1 where step: "ValidatorStakeList_find vl (msi_validator_address m) = Some v"
    "vl1 = vl \<or> vl1 = ValidatorStakeList_replace vl (msi_validator_address m) (v\<lparr>stake_count := wsub32 (stake_count v) 1\<rparr>)"
    "msi_additional_index m < stake_count v" "keeps pid s s1"
    "merge_loop R E ms vl1 c1 it1 s1 = Inr (vl', c', s')"
    using Cons.prems
    by (fastforce simp: next_account_info_Inr bindP_Inr guard_Inr ok_or_Inr split: option.splits if_splits
      dest: invoke_signed_keeps [OF _ assms])
  let ?w = "v\<lparr>stake_count := wsub32 (stake_count v) 1\<rparr>"
  have w: "fewer_stakes v ?w" "vsi_ok v \<Longrightarrow> vsi_ok ?w"
    using step(3) wsub32_le [of 1 "stake_count v"] by (auto simp: fewer_stakes_def only_count_def vsi_ok_def)
  have "evolved fewer_stakes vl vl1"
    using step(2) evolved_replace [where Q = fewer_stakes, OF step(1) w] by (auto intro: evolved_refl)
  then show ?case
    using Cons.IH [OF step(5)] step(4) by (blast intro: keeps_trans evolved_relations_trans)
qed

lemma unstake_calls_keep:
  assumes "host_ok R pid"
  shows "deactivate_whole R E i s = Inr s' \<Longrightarrow> keeps pid s s'"
    "split_and_deactivate R E u i j b s = Inr s' \<Longrightarrow> keeps pid s s'"
  by (auto simp: deactivate_whole_def split_and_deactivate_def bindP_Inr dest!: invoke_signed_keeps [OF _ assms])
    (simp add: keeps_def)

lemma unstake_loop_step:
  assumes "host_ok R pid"
  shows "unstake_loop R E us vl c it s = Inr (vl', c', s') \<Longrightarrow> evolved only_count vl vl' \<and> keeps pid s s'"
proof (induction us arbitrary: vl c it s)
  case Nil
  then show ?case by (simp add: evolved_refl)
next
  case (Cons u us)
  obtain v vl1 c1 it1 s1 where step: "ValidatorStakeList_find vl (usi_validator_address u) = Some v"
    "vl1 = vl \<or> vl1 = ValidatorStakeList_replace vl (usi_validator_address u) (v\<lparr>stake_count := wadd32 (stake_count v) 1\<rparr>)"
    "keeps pid s s1" "unstake_loop R E us vl1 c1 it1 s1 = Inr (vl', c', s')"
    using Cons.prems
    by (fastforce simp: next_account_info_Inr bindP_Inr guard_Inr ok_or_Inr Let_def split: option.splits if_splits
      dest: unstake_calls_keep [OF assms])
  let ?w = "v\<lparr>stake_count := wadd32 (stake_count v) 1\<rparr>"
  have w: "only_count v ?w" "vsi_ok v \<Longrightarrow> vsi_ok ?w"
    by (auto simp: only_count_def vsi_ok_def)
  have "evolved only_count vl vl1"
    using step(2) evolved_replace [where Q = only_count, OF step(1) w] by (auto intro: evolved_refl)
  then show ?case
    using Cons.IH [OF step(4)] step(3) by (blast intro: keeps_trans evolved_relations_trans)
qed

section \<open>The machine\<close>

inductive pool_step :: "StakePoolInstruction \<Rightarrow> pool_view \<Rightarrow> pool_view \<Rightarrow> bool" where
  added: "length (pv_validators V) < MAX_VALIDATORS \<Longrightarrow> validator_account v \<notin> validator_account ` set (pv_validators V) \<Longrightarrow>
    vsi_balance v = 0 \<Longrightarrow> stake_count v = 0 \<Longrightarrow>
    pool_step AddValidator V (V\<lparr>pv_validators := pv_validators V @ [v]\<rparr>)"
| removed: "pv_validators V = xs @ v # ys \<Longrightarrow> stake_count v = 0 \<Longrightarrow>
    pool_step RemoveValidator V (V\<lparr>pv_validators := xs @ ys\<rparr>)"
| owned: "pool_step SetOwner V (V\<lparr>pv_pool := (pv_pool V)\<lparr>pool_owner := k, owner_fee_account := f\<rparr>\<rparr>)"
| counted: "list_all2 same_validator (pv_validators V) vs \<Longrightarrow> pool_step UpdateListBalance V (V\<lparr>pv_validators := vs\<rparr>)"
| valued: "sum_balances epoch (pv_validators V) lam = Inr t \<Longrightarrow>
    pool_step UpdatePoolBalance V (V\<lparr>pv_pool := (pv_pool V)\<lparr>stake_total := t, pool_last_update_epoch := epoch\<rparr>\<rparr>)"
| deposited: "calc_pool_deposit_amount (pv_pool V) a = Some t \<Longrightarrow>
    pool_step (Deposit a) V (V\<lparr>pv_pool := pool_in (pv_pool V) t a\<rparr>)"
| withdrawn: "calc_lamports_amount (pv_pool V) t = Some y \<Longrightarrow>
    pool_step (Withdraw t) V (V\<lparr>pv_pool := pool_out (pv_pool V) t y\<rparr>)"
| credited: "add_credit l target cancel a = Inr l' \<Longrightarrow> credits l = pv_credits V \<Longrightarrow>
    pool_step (Credit a) V (V\<lparr>pv_credits := credits l'\<rparr>)"
| uncredited: "remove_credit l target cancel a = Inr l' \<Longrightarrow> credits l = pv_credits V \<Longrightarrow>
    pool_step (Uncredit a) V (V\<lparr>pv_credits := credits l'\<rparr>)"
| delegated: "list_all2 same_epoch (pv_validators V) vs \<Longrightarrow> pool_step (DelegateReserve ds) V (V\<lparr>pv_validators := vs\<rparr>)"
| merged: "list_all2 fewer_stakes (pv_validators V) vs \<Longrightarrow> pool_step (MergeStakes ms) V (V\<lparr>pv_validators := vs\<rparr>)"
| unstaked: "list_all2 only_count (pv_validators V) vs \<Longrightarrow> pool_step (UnstakeStakes us) V (V\<lparr>pv_validators := vs\<rparr>)"
| paid: "accounted E n (pv_credits V) (pv_pool V) 0 p t left aside calls \<Longrightarrow>
    pool_step PayCreditors V (V\<lparr>pv_pool := p\<lparr>stake_total := wsub64 (stake_total p) t\<rparr>, pv_credits := left @ aside\<rparr>)"

section \<open>Each handler takes a step\<close>

definition lamports_fit :: "chain \<Rightarrow> bool" where
  "lamports_fit s \<longleftrightarrow> (\<forall>k. ac_lamports (accts s k) < 2 ^ 64)"

lemma hostD: "host_ok R pid \<Longrightarrow> length (pad_pool R) = 5" "host_ok R pid \<Longrightarrow> length (pad_vsi R) = 4"
    "host_ok R pid \<Longrightarrow> Clock_from_account_info R i s = Inr e \<Longrightarrow> e < 2 ^ 64"
  by (auto simp: host_ok_def Clock_from_account_info_def)

lemma add_refines:
  assumes "process_add_validator R pid accounts s = Inr s'" "host_ok R pid" "list_of_keys accounts"
    "view pid (ai_key (hd accounts)) s = Some V"
  shows "\<exists>V'. pool_step AddValidator V V' \<and> view pid (ai_key (hd accounts)) s' = Some V'"
proof -
  from assms(1) obtain k ow j i c rest epoch p vl where step: "accounts = k # ow # j # i # c # rest"
    "load_pool pid k s = Inr p" "load_validators p j s = Inr vl" "Clock_from_account_info R c s = Inr epoch"
    "\<not> MAX_VALIDATORS \<le> length (validators vl)" "\<not> ValidatorStakeList_contains vl (ai_key i)"
    "save_validators R (vl\<lparr>validators := validators vl @
       [\<lparr>validator_account = ai_key i, vsi_balance = 0, vsi_last_update_epoch = epoch, stake_count = 0\<rparr>]\<rparr>) j s = Inr s'"
    by (auto simp: process_add_validator_def next_account_info_Inr bindP_Inr guard_Inr)
  let ?v = "\<lparr>validator_account = ai_key i, vsi_balance = 0, vsi_last_update_epoch = epoch, stake_count = 0\<rparr>"
  have p: "p = pv_pool V"
    using step(1,2) view_pool [OF assms(4)] by simp
  note vl = view_validators [OF assms(4) step(3) [unfolded p]]
  have "view pid (ai_key (hd accounts)) s' = Some (V\<lparr>pv_validators := pv_validators V @ [?v]\<rparr>)"
    using view_save_validators [OF assms(4) step(7)] vl step(1) assms(3) hostD(3) [OF assms(2) step(4)] hostD(2) [OF assms(2)]
    by (simp add: vsi_ok_def list_of_keys_def)
  moreover have "pool_step AddValidator V (V\<lparr>pv_validators := pv_validators V @ [?v]\<rparr>)"
    using step(5,6) vl by (intro added) (auto simp: ValidatorStakeList_contains_def list_ex_iff)
  ultimately show ?thesis by blast
qed

lemma position_remove: "position P xs = Some i \<Longrightarrow> \<exists>ys zs. xs = ys @ xs ! i # zs \<and> remove_at i xs = ys @ zs \<and> P (xs ! i)"
proof (induction xs arbitrary: i)
  case (Cons x xs)
  show ?case
  proof (cases i)
    case 0
    then show ?thesis
      using Cons.prems by (auto simp: remove_at_def split: if_splits)
  next
    case (Suc j)
    then obtain ys zs where "xs = ys @ xs ! j # zs" "remove_at j xs = ys @ zs" "P (xs ! j)"
      using Cons by (fastforce split: if_splits)
    then show ?thesis
      using Suc by (intro exI [of _ "x # ys"] exI [of _ zs]) (simp add: remove_at_def)
  qed
qed simp

lemma remove_refines:
  assumes "process_remove_validator R pid accounts s = Inr s'" "host_ok R pid"
    "view pid (ai_key (hd accounts)) s = Some V"
  shows "\<exists>V'. pool_step RemoveValidator V V' \<and> view pid (ai_key (hd accounts)) s' = Some V'"
proof -
  from assms(1) obtain k ow j i c rest p vl n where step: "accounts = k # ow # j # i # c # rest"
    "load_pool pid k s = Inr p" "load_validators p j s = Inr vl"
    "position (\<lambda>item. validator_account item = ai_key i) (validators vl) = Some n"
    "stake_count (validators vl ! n) = 0"
    "save_validators R (vl\<lparr>validators := remove_at n (validators vl)\<rparr>) j s = Inr s'"
    by (auto simp: process_remove_validator_def next_account_info_Inr bindP_Inr guard_Inr split: option.splits)
  have p: "p = pv_pool V"
    using step(1,2) view_pool [OF assms(3)] by simp
  note vl = view_validators [OF assms(3) step(3) [unfolded p]]
  obtain ys v zs where split: "validators vl = ys @ v # zs" "remove_at n (validators vl) = ys @ zs" "stake_count v = 0"
    using position_remove [OF step(4)] step(5) by metis
  have "list_all vsi_ok (ys @ v # zs)"
    using vl split(1) by simp
  then have "view pid (ai_key (hd accounts)) s' = Some (V\<lparr>pv_validators := ys @ zs\<rparr>)"
    using view_save_validators [OF assms(3) step(6)] vl split(2) hostD(2) [OF assms(2)] by simp
  then show ?thesis
    using removed [of V ys v zs] split vl by auto
qed

lemma owner_refines:
  assumes "process_set_owner R pid accounts s = Inr s'" "host_ok R pid" "list_of_keys accounts"
    "view pid (ai_key (hd accounts)) s = Some V"
  shows "\<exists>V'. pool_step SetOwner V V' \<and> view pid (ai_key (hd accounts)) s' = Some V'"
proof -
  from assms(1) obtain k ow n f rest p where step: "accounts = k # ow # n # f # rest" "load_pool pid k s = Inr p"
    "save_pool R (p\<lparr>pool_owner := ai_key n, owner_fee_account := ai_key f\<rparr>) k s = Inr s'"
    by (auto simp: process_set_owner_def next_account_info_Inr bindP_Inr guard_Inr)
  have p: "p = pv_pool V"
    using step(1,2) view_pool [OF assms(4)] by simp
  then show ?thesis
    using view_save_pool [OF assms(4) step(3)] view_pool_ok [OF assms(4)] step(1) assms(3) hostD(1) [OF assms(2)]
      owned [where V = V and k = "ai_key n" and f = "ai_key f"]
    by (auto simp: pool_ok_def list_of_keys_def)
qed

text \<open>The four handlers that end by storing the list their loop left, if it is to be stored.\<close>

lemma list_refines:
  assumes "view pid k s = Some V" "load_validators (pv_pool V) j s = Inr vl" "evolved Q vl vl'" "keeps pid s s1"
    "(if changed then save_validators R vl' j s1 else Inr s1) = Inr s'" "host_ok R pid" "\<And>v. Q v v"
  shows "\<exists>vs. list_all2 Q (pv_validators V) vs \<and> view pid k s' = Some (V\<lparr>pv_validators := vs\<rparr>)"
proof -
  note vl = view_validators [OF assms(1,2)]
  have V: "view pid k s1 = Some V"
    by (rule view_keeps [OF assms(1,4)])
  show ?thesis
  proof (cases changed)
    case True
    then show ?thesis
      using view_save_validators [OF V, of R vl' j s'] vl assms(3,5,6)
      by (intro exI [of _ "validators vl'"]) (simp add: evolved_def hostD)
  next
    case False
    then show ?thesis
      using V assms(5,7) by (intro exI [of _ "pv_validators V"]) (simp add: list_all2_refl)
  qed
qed

lemma count_refines:
  assumes "process_update_list_balance R pid accounts s = Inr s'" "host_ok R pid"
    "view pid (ai_key (hd accounts)) s = Some V"
  shows "\<exists>V'. pool_step UpdateListBalance V V' \<and> view pid (ai_key (hd accounts)) s' = Some V'"
proof -
  from assms(1) obtain k j wd rs sy st c sh it epoch p vl E vl' changed s1 where step:
    "accounts = k # j # wd # rs # sy # st # c # sh # it" "load_pool pid k s = Inr p" "load_validators p j s = Inr vl"
    "Clock_from_account_info R c s = Inr epoch" "ue_epoch E = epoch"
    "update_validators R E vl False it s = Inr (vl', changed, s1)"
    "(if changed then save_validators R vl' j s1 else Inr s1) = Inr s'"
    by (clarsimp simp: process_update_list_balance_def next_account_info_Inr bindP_Inr guard_Inr)
      (rule that; (rule refl)?; simp)
  have p: "p = pv_pool V"
    using step(1,2) view_pool [OF assms(3)] by simp
  have "evolved same_validator vl vl' \<and> keeps pid s s1"
    using update_validators_step [OF step(6) assms(2)] step(5) hostD(3) [OF assms(2) step(4)] by simp
  then show ?thesis
    using list_refines [where Q = same_validator, OF assms(3) step(3) [unfolded p] _ _ step(7) assms(2)]
    by (auto intro: counted)
qed

lemma delegate_refines:
  assumes "process_delegate_reserve R pid ds accounts s = Inr s'" "host_ok R pid"
    "view pid (ai_key (hd accounts)) s = Some V"
  shows "\<exists>V'. pool_step (DelegateReserve ds) V V' \<and> view pid (ai_key (hd accounts)) s' = Some V'"
proof -
  from assms(1) obtain k ow j rest p vl E it vl' changed s1 where step: "accounts = k # ow # j # rest"
    "load_pool pid k s = Inr p" "load_validators p j s = Inr vl"
    "delegate_loop R E ds vl 0 False it s = Inr (vl', changed, s1)"
    "(if changed then save_validators R vl' j s1 else Inr s1) = Inr s'"
    by (clarsimp simp: process_delegate_reserve_def next_account_info_Inr bindP_Inr guard_Inr split_beta Let_def)
      (rule that; (rule refl)?; simp)
  have p: "p = pv_pool V"
    using step(1,2) view_pool [OF assms(3)] by simp
  show ?thesis
    using list_refines [where Q = same_epoch, OF assms(3) step(3) [unfolded p] _ _ step(5) assms(2)]
      delegate_loop_step [OF assms(2) step(4)] by (auto intro: delegated)
qed

lemma merge_refines:
  assumes "process_merge_stakes R pid ms accounts s = Inr s'" "host_ok R pid"
    "view pid (ai_key (hd accounts)) s = Some V"
  shows "\<exists>V'. pool_step (MergeStakes ms) V V' \<and> view pid (ai_key (hd accounts)) s' = Some V'"
proof -
  from assms(1) obtain k j rest p vl E it vl' changed s1 where step: "accounts = k # j # rest"
    "load_pool pid k s = Inr p" "load_validators p j s = Inr vl"
    "merge_loop R E ms vl False it s = Inr (vl', changed, s1)"
    "(if changed then save_validators R vl' j s1 else Inr s1) = Inr s'"
    by (clarsimp simp: process_merge_stakes_def next_account_info_Inr bindP_Inr)
  have p: "p = pv_pool V"
    using step(1,2) view_pool [OF assms(3)] by simp
  show ?thesis
    using list_refines [where Q = fewer_stakes, OF assms(3) step(3) [unfolded p] _ _ step(5) assms(2)]
      merge_loop_step [OF assms(2) step(4)] by (auto intro: merged)
qed

lemma unstake_refines:
  assumes "process_unstake R pid us accounts s = Inr s'" "host_ok R pid"
    "view pid (ai_key (hd accounts)) s = Some V"
  shows "\<exists>V'. pool_step (UnstakeStakes us) V V' \<and> view pid (ai_key (hd accounts)) s' = Some V'"
proof -
  from assms(1) obtain k ow j rest p vl E it vl' changed s1 where step: "accounts = k # ow # j # rest"
    "load_pool pid k s = Inr p" "load_validators p j s = Inr vl"
    "unstake_loop R E us vl False it s = Inr (vl', changed, s1)"
    "(if changed then save_validators R vl' j s1 else Inr s1) = Inr s'"
    by (clarsimp simp: process_unstake_def next_account_info_Inr bindP_Inr)
  have p: "p = pv_pool V"
    using step(1,2) view_pool [OF assms(3)] by simp
  show ?thesis
    using list_refines [where Q = only_count, OF assms(3) step(3) [unfolded p] _ _ step(5) assms(2)]
      unstake_loop_step [OF assms(2) step(4)] by (auto intro: unstaked)
qed

lemma sum_balances_bound: "sum_balances e vs t = Inr u \<Longrightarrow> t < 2 ^ 64 \<Longrightarrow> u < 2 ^ 64"
  by (induction vs arbitrary: t) (auto simp: guard_Inr)

lemma value_refines:
  assumes "process_update_pool_balance R pid accounts s = Inr s'" "host_ok R pid" "lamports_fit s"
    "view pid (ai_key (hd accounts)) s = Some V"
  shows "\<exists>V'. pool_step UpdatePoolBalance V V' \<and> view pid (ai_key (hd accounts)) s' = Some V'"
proof -
  from assms(1) obtain k j rs c rest epoch p vl t where step: "accounts = k # j # rs # c # rest"
    "load_pool pid k s = Inr p" "load_validators p j s = Inr vl" "Clock_from_account_info R c s = Inr epoch"
    "sum_balances epoch (validators vl) (ac_lamports (acct rs s)) = Inr t"
    "save_pool R (p\<lparr>stake_total := t, pool_last_update_epoch := epoch\<rparr>) k s = Inr s'"
    by (auto simp: process_update_pool_balance_def next_account_info_Inr bindP_Inr guard_Inr)
  have p: "p = pv_pool V"
    using step(1,2) view_pool [OF assms(4)] by simp
  have "t < 2 ^ 64"
    using sum_balances_bound [OF step(5)] assms(3) by (simp add: lamports_fit_def acct_def)
  then have "view pid (ai_key (hd accounts)) s' = Some (V\<lparr>pv_pool := (pv_pool V)\<lparr>stake_total := t, pool_last_update_epoch := epoch\<rparr>\<rparr>)"
    using view_save_pool [OF assms(4) step(6)] view_pool_ok [OF assms(4)] step(1) p hostD(1) [OF assms(2)]
      hostD(3) [OF assms(2) step(4)]
    by (simp add: pool_ok_def)
  moreover have "validators vl = pv_validators V"
    using view_validators [OF assms(4) step(3) [unfolded p]] by simp
  ultimately show ?thesis
    using valued step(5) by metis
qed

lemma deposit_refines:
  assumes "process_deposit R pid a accounts s = Inr s'" "host_ok R pid" "view pid (ai_key (hd accounts)) s = Some V"
  shows "\<exists>V'. pool_step (Deposit a) V V' \<and> view pid (ai_key (hd accounts)) s' = Some V'"
proof -
  from process_deposit_pool [OF assms(1,2)] obtain k rest p t s1 where step: "accounts = k # rest"
    "load_pool pid k s = Inr p" "calc_pool_deposit_amount p a = Some t" "keeps pid s s1"
    "save_pool R (pool_in p t a) k s1 = Inr s'"
    by blast
  have p: "p = pv_pool V"
    using step(1,2) view_pool [OF assms(3)] by simp
  have "view pid (ai_key (hd accounts)) s' = Some (V\<lparr>pv_pool := pool_in (pv_pool V) t a\<rparr>)"
    using view_save_pool [OF view_keeps [OF assms(3) step(4)] step(5)] view_pool_ok [OF assms(3)] step(1) p
      hostD(1) [OF assms(2)] pool_in_ok
    by (simp add: pool_in_def)
  then show ?thesis
    using deposited step(3) p by blast
qed

lemma withdraw_refines:
  assumes "process_withdraw R pid t accounts s = Inr s'" "host_ok R pid" "view pid (ai_key (hd accounts)) s = Some V"
  shows "\<exists>V'. pool_step (Withdraw t) V V' \<and> view pid (ai_key (hd accounts)) s' = Some V'"
proof -
  obtain A rest where list: "accounts = withdraw_list A @ rest"
    using withdraw_takes_accounts [OF assms(1)] by blast
  obtain p y s1 s2 where step: "accounts = withdraw_list A @ rest" "load_pool pid (wa_pool A) s = Inr p"
    "calc_lamports_amount p t = Some y" "keeps pid s s1" "keeps pid s1 s2" "save_pool R (pool_out p t y) (wa_pool A) s2 = Inr s'"
    using assms(1) list unfolding list process_withdraw_run
    by (blast dest: calls_keep(2) [OF assms(2)] invoke_signed_keeps [OF _ assms(2)])
  have hd: "hd accounts = wa_pool A"
    using step(1) by (simp add: withdraw_list_def)
  have p: "p = pv_pool V"
    using step(2) hd view_pool [OF assms(3)] by simp
  have "view pid (ai_key (hd accounts)) s' = Some (V\<lparr>pv_pool := pool_out (pv_pool V) t y\<rparr>)"
    using view_save_pool [OF view_keeps [OF assms(3) keeps_trans [OF step(4,5)]] step(6)] view_pool_ok [OF assms(3)] hd p
      hostD(1) [OF assms(2)] pool_out_ok
    by (simp add: pool_out_def)
  then show ?thesis
    using withdrawn step(3) p by blast
qed

lemma add_credit_ok:
  assumes "add_credit l target cancel a = Inr l'" "list_all credit_ok (credits l)" "length target = 32" "length cancel = 32" "a < 2 ^ 64"
  shows "list_all credit_ok (credits l') \<and> cl_version l' = cl_version l"
proof (cases "CreditList_find l target")
  case (Some c)
  then have "credit_ok c"
    using assms(2) find_keyD [of sol_target target "credits l" c] by (auto simp: CreditList_find_def list_all_iff)
  then show ?thesis
    using assms Some by (auto simp: add_credit_def guard_Inr CreditList_replace_def credit_ok_def intro!: list_all_update_first)
qed (use assms in \<open>auto simp: add_credit_def guard_Inr credit_ok_def\<close>)

lemma remove_credit_ok:
  assumes "remove_credit l target cancel a = Inr l'" "list_all credit_ok (credits l)"
  shows "list_all credit_ok (credits l') \<and> cl_version l' = cl_version l"
proof (cases "CreditList_find l target")
  case (Some c)
  then have "credit_ok c"
    using assms(2) find_keyD [of sol_target target "credits l" c] by (auto simp: CreditList_find_def list_all_iff)
  then show ?thesis
    using assms Some
    by (auto simp: remove_credit_def CreditList_replace_def credit_ok_def list_all_iff split: if_splits
      dest!: subsetD [OF set_update_first])
qed (use assms in \<open>auto simp: remove_credit_def\<close>)

lemma credit_refines:
  assumes "process_credit R pid a accounts s = Inr s'" "host_ok R pid" "list_of_keys accounts" "a < 2 ^ 64"
    "view pid (ai_key (hd accounts)) s = Some V"
  shows "\<exists>V'. pool_step (Credit a) V V' \<and> view pid (ai_key (hd accounts)) s' = Some V'"
proof -
  from assms(1) obtain k j cr wd b t c tok rest p l l' s1 where step: "accounts = k # j # cr # wd # b # t # c # tok # rest"
    "load_pool pid k s = Inr p" "load_credits p j s = Inr l" "add_credit l (ai_key t) (ai_key c) a = Inr l'"
    "invoke_signed R (Token_transfer (ai_key tok) (ai_key b) (ai_key cr) (ai_key wd) a) [b, cr, wd]
       [authority_seeds k AUTHORITY_WITHDRAW (withdraw_bump_seed p)] s = Inr s1"
    "save_credits l' j s1 = Inr s'"
    by (auto simp: process_credit_def next_account_info_Inr bindP_Inr guard_Inr)
  have p: "p = pv_pool V"
    using step(1,2) view_pool [OF assms(5)] by simp
  note l = view_credits [OF assms(5) step(3) [unfolded p]]
  have "list_all credit_ok (credits l') \<and> cl_version l' = cl_version l"
    using add_credit_ok [OF step(4) _ _ _ assms(4)] l assms(3) step(1) by (simp add: list_of_keys_def)
  then have "view pid (ai_key (hd accounts)) s' = Some (V\<lparr>pv_credits := credits l'\<rparr>)"
    using view_save_credits [OF view_keeps [OF assms(5) invoke_signed_keeps [OF step(5) assms(2)]] step(6)] l by simp
  then show ?thesis
    using credited [OF step(4)] l by blast
qed

lemma uncredit_refines:
  assumes "process_uncredit R pid a accounts s = Inr s'" "host_ok R pid" "view pid (ai_key (hd accounts)) s = Some V"
  shows "\<exists>V'. pool_step (Uncredit a) V V' \<and> view pid (ai_key (hd accounts)) s' = Some V'"
proof -
  from assms(1) obtain k j cr wd b t c tok rest p l l' s1 where step: "accounts = k # j # cr # wd # b # t # c # tok # rest"
    "load_pool pid k s = Inr p" "load_credits p j s = Inr l" "remove_credit l (ai_key t) c a = Inr l'"
    "invoke_signed R (Token_transfer (ai_key tok) (ai_key cr) (ai_key b) (ai_key wd) a) [b, cr, wd]
       [authority_seeds k AUTHORITY_WITHDRAW (withdraw_bump_seed p)] s = Inr s1"
    "save_credits l' j s1 = Inr s'"
    by (auto simp: process_uncredit_def next_account_info_Inr bindP_Inr guard_Inr)
  have p: "p = pv_pool V"
    using step(1,2) view_pool [OF assms(3)] by simp
  note l = view_credits [OF assms(3) step(3) [unfolded p]]
  have "list_all credit_ok (credits l') \<and> cl_version l' = cl_version l"
    using remove_credit_ok [OF step(4)] l by simp
  then have "view pid (ai_key (hd accounts)) s' = Some (V\<lparr>pv_credits := credits l'\<rparr>)"
    using view_save_credits [OF view_keeps [OF assms(3) invoke_signed_keeps [OF step(5) assms(2)]] step(6)] l by simp
  then show ?thesis
    using uncredited [OF step(4)] l by blast
qed

lemma payments_pool: "payments E p cs t = Some (p', t', calls) \<Longrightarrow> pool_ok p \<Longrightarrow>
    pool_ok p' \<and> (\<exists>n. p' = p\<lparr>pool_total := n\<rparr>)"
proof (induction cs arbitrary: p t calls)
  case Nil
  then show ?case
    by (auto intro: exI [of _ "pool_total p"])
next
  case (Cons c cs)
  then obtain y calls' where
    "payments E (p\<lparr>pool_total := wsub64 (pool_total p) (token_amount c)\<rparr>) cs (wadd64 t y) = Some (p', t', calls')"
    by (auto simp: bind_eq_Some_conv)
  from Cons.IH [OF this] Cons.prems(2) show ?case
    by (auto simp: pool_ok_def)
qed

text \<open>A round of payments stores the creditors its loop leaves, and the totals it ends with.\<close>

lemma pay_stores:
  assumes "process_pay_creditors R pid accounts s = Inr s'" "host_ok R pid" "view pid (ai_key (hd accounts)) s = Some V"
  shows "\<exists>E fixed it p t left bad s1. accounts = fixed @ it \<and> length fixed = 10 \<and>
    pay_loop R E it (pv_credits V) (pv_pool V) 0 [] s = Inr (p, t, left, bad, s1) \<and> cpis s' = cpis s1 \<and>
    view pid (ai_key (hd accounts)) s' = Some (V\<lparr>pv_pool := p\<lparr>stake_total := wsub64 (stake_total p) t\<rparr>, pv_credits := left @ bad\<rparr>)"
proof -
  from assms(1) obtain k j a3 a4 a5 a6 a7 a8 a9 a10 it p l E p' t left bad s1 s2 where
    step: "accounts = [k, j, a3, a4, a5, a6, a7, a8, a9, a10] @ it"
    "load_pool pid k s = Inr p" "load_credits p j s = Inr l"
    "pay_loop R E it (credits l) p 0 [] s = Inr (p', t, left, bad, s1)"
    "save_credits (l\<lparr>credits := left @ bad\<rparr>) j s1 = Inr s2"
    "save_pool R (p'\<lparr>stake_total := wsub64 (stake_total p') t\<rparr>) k s2 = Inr s'"
    by (clarsimp simp: process_pay_creditors_def next_account_info_Inr bindP_Inr guard_Inr split_beta Let_def)
  have p: "p = pv_pool V"
    using step(1,2) view_pool [OF assms(3)] by simp
  note l = view_credits [OF assms(3) step(3) [unfolded p]]
  obtain calls where acc: "keeps pid s s1" "accounted E (length it) (credits l) p 0 p' t left bad calls"
    using pay_loop_result [OF step(4) assms(2)] by auto
  then obtain paid lost where m: "mset (credits l) = mset paid + mset bad + mset lost + mset left"
    "payments E p paid 0 = Some (p', t, calls)"
    by (auto simp: accounted_def)
  have "set (left @ bad) \<subseteq> set (credits l)"
    using arg_cong [where f = set_mset, OF m(1)] by auto
  then have "list_all credit_ok (left @ bad)"
    using l by (auto simp: list_all_iff)
  then have V1: "view pid (ai_key (hd accounts)) s2 = Some (V\<lparr>pv_credits := left @ bad\<rparr>)"
    using view_save_credits [OF view_keeps [OF assms(3) acc(1)] step(5)] l by simp
  obtain n where "pool_ok p'" "p' = p\<lparr>pool_total := n\<rparr>"
    using payments_pool [OF m(2)] view_pool_ok [OF assms(3)] p by auto
  then have "view pid (ai_key (hd accounts)) s' =
      Some (V\<lparr>pv_pool := p'\<lparr>stake_total := wsub64 (stake_total p') t\<rparr>, pv_credits := left @ bad\<rparr>)"
    using view_save_pool [OF V1 step(6)] view_pool_ok [OF assms(3)] step(1) p hostD(1) [OF assms(2)]
    by (simp add: pool_ok_def)
  moreover have "cpis s' = cpis s1"
    using step(5,6) by (auto simp: save_credits_def save_pool_def bindP_Inr)
  moreover have "pay_loop R E it (pv_credits V) (pv_pool V) 0 [] s = Inr (p', t, left, bad, s1)"
    using step(4) l p by simp
  ultimately show ?thesis
    using step(1) by (intro exI [of _ E] exI [of _ "[k, j, a3, a4, a5, a6, a7, a8, a9, a10]"] exI [of _ it]) auto
qed

lemma pay_refines:
  assumes "process_pay_creditors R pid accounts s = Inr s'" "host_ok R pid" "view pid (ai_key (hd accounts)) s = Some V"
  shows "\<exists>V'. pool_step PayCreditors V V' \<and> view pid (ai_key (hd accounts)) s' = Some V'"
proof -
  obtain E it p t left bad s1 where "pay_loop R E it (pv_credits V) (pv_pool V) 0 [] s = Inr (p, t, left, bad, s1)"
    and V': "view pid (ai_key (hd accounts)) s' =
      Some (V\<lparr>pv_pool := p\<lparr>stake_total := wsub64 (stake_total p) t\<rparr>, pv_credits := left @ bad\<rparr>)"
    using pay_stores [OF assms] by blast
  from pay_loop_result [OF this(1) assms(2)] obtain calls where
    "accounted E (length it) (pv_credits V) (pv_pool V) 0 p t left bad calls"
    by auto
  from paid [OF this] V' show ?thesis by blast
qed

lemma initialize_refused:
  assumes "view pid (ai_key (hd accounts)) s = Some V"
  shows "process_initialize R pid d n accounts s \<noteq> Inr s'"
proof
  assume "process_initialize R pid d n accounts s = Inr s'"
  then obtain k rest p where "accounts = k # rest" "StakePool_deserialize (ac_data (acct k s)) = Inr p"
    "\<not> StakePool_is_initialized p"
    by (auto simp: process_initialize_def next_account_info_Inr bindP_Inr guard_Inr)
  then show False
    using assms by (auto simp: view_Some loads acct_def info_at_def)
qed

section \<open>The whole program\<close>

lemma amount_fits:
  "deserialize_instruction input = Inr (Credit a) \<Longrightarrow> a < 2 ^ 64"
  using le_val_slice_bound [of 9 input 1]
  by (auto simp: deserialize_instruction_def read_u64_def read_list_def unpack_def
    split: list.splits if_splits sum.splits)

lemma handle_refines:
  assumes "handle R pid accounts i s = Inr s'" "deserialize_instruction input = Inr i" "host_ok R pid"
    "list_of_keys accounts" "lamports_fit s" "view pid (ai_key (hd accounts)) s = Some V"
  shows "\<exists>V'. pool_step i V V' \<and> view pid (ai_key (hd accounts)) s' = Some V'"
  using assms(1,2)
  by (cases i)
    (auto simp: handle_def initialize_refused [OF assms(6)]
      intro: add_refines remove_refines owner_refines count_refines value_refines deposit_refines withdraw_refines
        credit_refines [OF _ _ _ amount_fits] uncredit_refines delegate_refines merge_refines unstake_refines pay_refines assms(3-6))

text \<open>
  Runs: instructions to the pool at \<open>k\<close> with any accounts and any data, in any order, and between them
  whatever leaves the program's accounts alone (other programs, plain transfers, the passing of epochs).
\<close>

inductive runs :: "runtime \<Rightarrow> buffer \<Rightarrow> buffer \<Rightarrow> chain \<Rightarrow> chain \<Rightarrow> bool" for R pid k where
  start: "runs R pid k s s"
| instruction: "runs R pid k s s1 \<Longrightarrow> process R pid accounts input s1 = Inr s2 \<Longrightarrow> ai_key (hd accounts) = k \<Longrightarrow>
    list_of_keys accounts \<Longrightarrow> lamports_fit s1 \<Longrightarrow> runs R pid k s s2"
| elsewhere: "runs R pid k s s1 \<Longrightarrow> keeps pid s1 s2 \<Longrightarrow> runs R pid k s s2"

definition lists_ok :: "pool_view \<Rightarrow> bool" where
  "lists_ok V \<longleftrightarrow>
     distinct (map validator_account (pv_validators V)) \<and> length (pv_validators V) \<le> MAX_VALIDATORS \<and>
     distinct (map sol_target (pv_credits V)) \<and> length (pv_credits V) \<le> MAX_CREDIT_RECORDS"

definition same_pool :: "StakePool \<Rightarrow> StakePool \<Rightarrow> bool" where
  "same_pool p q \<longleftrightarrow> pool_validator_stake_list q = pool_validator_stake_list p \<and> pool_credit_list q = pool_credit_list p \<and>
     pool_mint q = pool_mint p \<and> pool_credit_reserve q = pool_credit_reserve p \<and> token_program_id q = token_program_id p \<and>
     deposit_bump_seed q = deposit_bump_seed p \<and> withdraw_bump_seed q = withdraw_bump_seed p \<and>
     pool_fee_denominator q = pool_fee_denominator p \<and> pool_fee_numerator q = pool_fee_numerator p"

lemma list_all2_map_eq: "list_all2 Q xs ys \<Longrightarrow> (\<And>x y. Q x y \<Longrightarrow> f y = f x) \<Longrightarrow> map f ys = map f xs"
  by (induction xs ys rule: list_all2_induct) auto

lemma add_credit_distinct:
  assumes "add_credit l target cancel a = Inr l'" "distinct (map sol_target (credits l))" "length (credits l) \<le> MAX_CREDIT_RECORDS"
  shows "distinct (map sol_target (credits l')) \<and> length (credits l') \<le> MAX_CREDIT_RECORDS"
proof (cases "CreditList_find l target")
  case None
  then have "target \<notin> sol_target ` set (credits l)"
    by (auto simp: CreditList_find_def find_None_iff)
  then show ?thesis
    using assms None by (auto simp: add_credit_def guard_Inr)
next
  case (Some c)
  then have "sol_target c = target"
    using find_keyD [of sol_target target] by (auto simp: CreditList_find_def)
  then show ?thesis
    using assms Some
    by (auto simp: add_credit_def guard_Inr CreditList_replace_def CreditList_find_def map_update_first)
qed

lemma remove_credit_distinct:
  assumes "remove_credit l target cancel a = Inr l'" "distinct (map sol_target (credits l))" "length (credits l) \<le> MAX_CREDIT_RECORDS"
  shows "distinct (map sol_target (credits l')) \<and> length (credits l') \<le> MAX_CREDIT_RECORDS"
proof (cases "CreditList_find l target")
  case (Some c)
  then have "sol_target c = target"
    using find_keyD [of sol_target target] by (auto simp: CreditList_find_def)
  then show ?thesis
    using assms Some
    by (auto simp: remove_credit_def CreditList_replace_def CreditList_find_def map_update_first distinct_map_filter
      le_trans [OF length_filter_le] split: if_splits)
qed (use assms in \<open>simp add: remove_credit_def\<close>)

lemma accounted_sub: "accounted E n cs p t p' t' left aside calls \<Longrightarrow> mset (left @ aside) \<subseteq># mset cs"
  by (auto simp: accounted_def)

lemma distinct_map_subset:
  assumes "mset xs \<subseteq># mset ys" "distinct (map f ys)"
  shows "distinct (map f xs)"
proof -
  obtain zs where "mset ys = mset (xs @ zs)"
    using assms(1) by (metis mset_append mset_subset_eq_exists_conv ex_mset)
  then have "mset (map f ys) = mset (map f (xs @ zs))"
    by (simp only: mset_map)
  then have "distinct (map f (xs @ zs))"
    using assms(2) mset_eq_imp_distinct_iff by blast
  then show ?thesis
    by simp
qed

lemma evolve_keeps_key:
  "same_validator v v' \<Longrightarrow> validator_account v' = validator_account v"
  "same_epoch v v' \<Longrightarrow> validator_account v' = validator_account v"
  "only_count v v' \<Longrightarrow> validator_account v' = validator_account v"
  "fewer_stakes v v' \<Longrightarrow> validator_account v' = validator_account v"
  by (auto simp: same_validator_def same_epoch_def only_count_def fewer_stakes_def dest: arg_cong [where f = validator_account])

lemma evolve_keeps_keys:
  assumes "list_all2 Q (pv_validators V) vs" "\<And>v v'. Q v v' \<Longrightarrow> validator_account v' = validator_account v" "lists_ok V"
  shows "lists_ok (V\<lparr>pv_validators := vs\<rparr>)"
  using assms(3) list_all2_map_eq [OF assms(1,2)] list_all2_lengthD [OF assms(1)] by (simp add: lists_ok_def)

lemma step_keeps_lists: "pool_step i V V' \<Longrightarrow> lists_ok V \<Longrightarrow> lists_ok V'"
proof (induction rule: pool_step.induct)
  case (added V v)
  then show ?case by (auto simp: lists_ok_def)
next
  case (removed V xs v ys)
  then show ?case by (auto simp: lists_ok_def)
next
  case (counted V vs)
  then show ?case by (blast intro: evolve_keeps_keys evolve_keeps_key)
next
  case (credited l target cancel a l' V)
  then show ?case
    using add_credit_distinct [of l target cancel a l'] by (auto simp: lists_ok_def)
next
  case (uncredited l target cancel a l' V)
  then show ?case
    using remove_credit_distinct [of l target cancel a l'] by (auto simp: lists_ok_def)
next
  case (delegated V vs ds)
  then show ?case by (blast intro: evolve_keeps_keys evolve_keeps_key)
next
  case (merged V vs ms)
  then show ?case by (blast intro: evolve_keeps_keys evolve_keeps_key)
next
  case (unstaked V vs us)
  then show ?case by (blast intro: evolve_keeps_keys evolve_keeps_key)
next
  case (paid E n V p t left aside calls)
  then show ?case
    using distinct_map_subset [OF accounted_sub, of E n _ _ _ p t left aside calls sol_target]
      size_mset_mono [OF accounted_sub, of E n _ _ _ p t left aside calls]
    by (fastforce simp: lists_ok_def)
qed (auto simp: lists_ok_def)

lemma step_same_pool: "pool_step i V V' \<Longrightarrow> pool_ok (pv_pool V) \<Longrightarrow> same_pool (pv_pool V) (pv_pool V')"
  by (induction rule: pool_step.induct)
    (auto simp: same_pool_def pool_in_def pool_out_def accounted_def dest!: payments_pool)

lemma same_pool_trans: "same_pool p q \<Longrightarrow> same_pool q r \<Longrightarrow> same_pool p r"
  by (simp add: same_pool_def)

lemma process_refines:
  assumes "host_ok R pid" "process R pid accounts input s = Inr s'" "list_of_keys accounts" "lamports_fit s"
    "view pid (ai_key (hd accounts)) s = Some V"
  shows "\<exists>i V'. deserialize_instruction input = Inr i \<and> pool_step i V V' \<and> view pid (ai_key (hd accounts)) s' = Some V'"
  using assms(2) handle_refines [OF _ _ assms(1,3-5)] by (auto simp: process_def bindP_Inr)

text \<open>The pool of the sample: no validators and no creditors yet.\<close>

lemma sample_view:
  "view sample_pid (replicate 32 10) sample_chain = Some \<lparr>pv_pool = sample_pool, pv_validators = [], pv_credits = []\<rparr>"
proof -
  have "ValidatorStakeList_deserialize ([1, 0, 0] @ alloc 5600) = Inr \<lparr>vsl_version = 1, validators = []\<rparr>"
    by (simp add: ValidatorStakeList_deserialize_def layout_sizes slice_def numeral_2_eq_2 numeral_3_eq_3)
  moreover have "CreditList_deserialize ([1, 0, 0] @ alloc 72000) = Inr \<lparr>cl_version = 1, credits = []\<rparr>"
    by (simp add: CreditList_deserialize_def layout_sizes slice_def numeral_2_eq_2 numeral_3_eq_3)
  moreover have "load_pool sample_pid (info_at (replicate 32 10)) sample_chain = Inr sample_pool"
    by (simp add: sample_load_pool info_at_def)
  ultimately show ?thesis
    by (simp add: view_def load_validators_def load_credits_def acct_def info_at_def sample_chain_def sample_accts_def
      sample_pool_def ValidatorStakeList_is_initialized_def CreditList_is_initialized_def)
qed

section \<open>Properties\<close>

text \<open>
  C1. The program refines the pool machine: on a host that lets only the program change its accounts, an
  instruction that succeeds on a stored pool takes a step of the machine, for every instruction, every
  list of accounts and every instruction data, and leaves a stored pool again.
\<close>

theorem program_refines_machine:
  assumes "host_ok R pid" "process R pid accounts input s = Inr s'" "list_of_keys accounts" "lamports_fit s"
    "view pid (ai_key (hd accounts)) s = Some V"
  shows "\<exists>i V'. deserialize_instruction input = Inr i \<and> pool_step i V V' \<and> view pid (ai_key (hd accounts)) s' = Some V'"
  by (rule process_refines [OF assms])


text \<open>
  C8. The owner alone manages the pool: an instruction that adds or removes a validator, changes the owner,
  delegates the reserve or unstakes succeeds only when the owner stored in the pool signed it.
\<close>

theorem owner_only:
  assumes "process R pid accounts input s = Inr s'" "deserialize_instruction input = Inr i" "owner_instruction i"
  shows "signed_by_owner pid accounts s"
  using assms signed_handlers by (cases i) (auto simp: process_def handle_def)

text \<open>The sample's owner adds a validator.\<close>

definition sample_add :: "AccountInfo list" where
  "sample_add = [acc 10, (acc 11)\<lparr>is_signer := True\<rparr>, acc 12, acc 40, acc 63]"

lemma sample_load_validators: "load_validators sample_pool (acc 12) sample_chain = Inr \<lparr>vsl_version = 1, validators = []\<rparr>"
proof -
  have "ValidatorStakeList_deserialize ([1, 0, 0] @ alloc 5600) = Inr \<lparr>vsl_version = 1, validators = []\<rparr>"
    by (simp add: ValidatorStakeList_deserialize_def layout_sizes slice_def numeral_2_eq_2 numeral_3_eq_3)
  then show ?thesis
    by (simp add: load_validators_def acct_def acc_def sample_chain_def sample_accts_def sample_pool_def
      ValidatorStakeList_is_initialized_def)
qed

lemma sample_add_run: "\<exists>s'. process sample_runtime sample_pid sample_add [2] sample_chain = Inr s'"
proof -
  have "check_owner sample_pool ((acc 11)\<lparr>is_signer := True\<rparr>) = Inr ()" "pool_last_update_epoch sample_pool = 10"
    "Clock_from_account_info sample_runtime (acc 63) sample_chain = Inr 10" "length (ac_data (acct (acc 12) sample_chain)) = 5603"
    by (simp_all add: check_owner_def acc_def sample_pool_def Clock_from_account_info_def sample_runtime_def acct_def
      sample_chain_def sample_accts_def)
  then show ?thesis
    using sample_load_pool [of "acc 10"]
    by (simp add: process_def deserialize_instruction_def handle_def process_add_validator_def sample_add_def
      sample_load_validators acc_def [of 10] ValidatorStakeList_contains_def save_validators_def ValidatorStakeList_serialize_def
      layout_sizes)
qed

lemma sample_add_ok: "list_of_keys sample_add" "lamports_fit sample_chain" "ai_key (hd sample_add) = replicate 32 10"
  by (simp_all add: list_of_keys_def sample_add_def acc_def lamports_fit_def sample_chain_def sample_accts_def plain_def)

theorem program_refines_machine_witness:
  "\<exists>s' i V'. process sample_runtime sample_pid sample_add [2] sample_chain = Inr s' \<and> deserialize_instruction [2] = Inr i \<and>
    pool_step i \<lparr>pv_pool = sample_pool, pv_validators = [], pv_credits = []\<rparr> V' \<and>
    view sample_pid (replicate 32 10) s' = Some V'"
proof -
  obtain s' where "process sample_runtime sample_pid sample_add [2] sample_chain = Inr s'"
    using sample_add_run by blast
  from program_refines_machine [OF sample_host_ok this sample_add_ok(1,2) sample_view [folded sample_add_ok(3)]] this
  show ?thesis
    unfolding sample_add_ok(3) by blast
qed


theorem owner_only_witness:
  "\<exists>s'. process sample_runtime sample_pid sample_add [2] sample_chain = Inr s' \<and> signed_by_owner sample_pid sample_add sample_chain"
proof -
  obtain s' where s': "process sample_runtime sample_pid sample_add [2] sample_chain = Inr s'"
    using sample_add_run by blast
  moreover from this have "signed_by_owner sample_pid sample_add sample_chain"
    by (rule owner_only [where i = AddValidator]) (simp_all add: deserialize_instruction_def)
  ultimately show ?thesis by blast
qed

end
