(* ===== verification/Onchain_Exchange.thy ===== *)
theory Onchain_Exchange
  imports Onchain_View
begin

text \<open>
  What the program promises its users, and where it does not keep it: the calls and totals of a deposit
  and a withdrawal, the price of a pool token over any sequence of them, the payment of creditors, and
  the checks that are missing.
\<close>

section \<open>The calls of a deposit and a withdrawal\<close>

definition withdraw_seeds :: "AccountInfo \<Rightarrow> StakePool \<Rightarrow> buffer list" where
  "withdraw_seeds k p = authority_seeds k AUTHORITY_WITHDRAW (withdraw_bump_seed p)"

definition deposit_calls ::
  "deposit_accounts \<Rightarrow> StakePool \<Rightarrow> nat \<Rightarrow> nat \<Rightarrow> nat \<Rightarrow> (cpi \<times> buffer list list) list" where
  "deposit_calls A p a t f =
     [(Sys_transfer (ai_key (da_source A)) (ai_key (da_reserve A)) a, []),
      (Token_mint_to (ai_key (da_token A)) (ai_key (da_mint A)) (ai_key (da_dest A)) (ai_key (da_withdraw A)) (t - f),
       [withdraw_seeds (da_pool A) p]),
      (Token_mint_to (ai_key (da_token A)) (ai_key (da_mint A)) (ai_key (da_fee A)) (ai_key (da_withdraw A)) f,
       [withdraw_seeds (da_pool A) p])]"

definition withdraw_calls ::
  "runtime \<Rightarrow> buffer \<Rightarrow> withdraw_accounts \<Rightarrow> StakePool \<Rightarrow> nat \<Rightarrow> nat \<Rightarrow> (cpi \<times> buffer list list) list" where
  "withdraw_calls R pid A p t y =
     [(Token_burn (ai_key (wa_token A)) (ai_key (wa_burn_from A)) (ai_key (wa_mint A)) (ai_key (wa_withdraw A)) t,
       [withdraw_seeds (wa_pool A) p]),
      (Sys_transfer (ai_key (wa_reserve A)) (ai_key (wa_target A)) y,
       [authority_seeds (wa_pool A) AUTHORITY_RESERVE (snd (get_reserve_adderess R pid (ai_key (wa_pool A))))])]"

lemma token_mint_to_cpis: "token_mint_to R k tok mint dst au ty bump amount s = Inr s' \<Longrightarrow>
    cpis s' = cpis s @ [(Token_mint_to (ai_key tok) (ai_key mint) (ai_key dst) (ai_key au) amount, [authority_seeds k ty bump])]"
  by (auto simp: token_mint_to_def invoke_signed_Inr)

lemma load_saved_pool:
  assumes "save_pool R q k s1 = Inr s'" "load_pool pid k s = Inr p" "keeps pid s s1" "pool_ok q" "0 < pool_version q"
    "host_ok R pid"
  shows "load_pool pid k s' = Inr q" "cpis s' = cpis s1"
  using assms(2,3,5) read_saved_pool(1,2) [OF assms(1,4) hostD(1) [OF assms(6)]]
    read_saved_pool(4) [OF assms(1,4) hostD(1) [OF assms(6)], of "ai_key k"]
  by (auto simp: load_pool_Inr acct_def keeps_def StakePool_is_initialized_def)

lemma loaded_version: "load_pool pid k s = Inr p \<Longrightarrow> 0 < pool_version p"
  by (simp add: load_pool_Inr StakePool_is_initialized_def)

lemma deposit_result:
  assumes "host_ok R pid" "ac_owner (acct (da_source A) s) = system_program_id R"
    "process_deposit R pid a (deposit_list A @ extra) s = Inr s'"
  shows "\<exists>p t f. load_pool pid (da_pool A) s = Inr p \<and> calc_pool_deposit_amount p a = Some t \<and>
    calc_fee_amount p t = Some f \<and> f \<le> t \<and> cpis s' = cpis s @ deposit_calls A p a t f \<and>
    load_pool pid (da_pool A) s' = Inr (pool_in p t a)"
proof -
  from assms(3) obtain p t f s1 s2 s3 where run: "load_pool pid (da_pool A) s = Inr p"
    "calc_pool_deposit_amount p a = Some t" "calc_fee_amount p t = Some f" "f \<le> t"
    "invoke_signed R (Sys_transfer (ai_key (da_source A)) (ai_key (da_reserve A)) a)
        [da_source A, da_reserve A, da_system A] [] s = Inr s1"
    "token_mint_to R (da_pool A) (da_token A) (da_mint A) (da_dest A) (da_withdraw A) AUTHORITY_WITHDRAW
        (withdraw_bump_seed p) (t - f) s1 = Inr s2"
    "token_mint_to R (da_pool A) (da_token A) (da_mint A) (da_fee A) (da_withdraw A) AUTHORITY_WITHDRAW
        (withdraw_bump_seed p) f s2 = Inr s3"
    "save_pool R (pool_in p t a) (da_pool A) s3 = Inr s'"
    unfolding process_deposit_plain [OF assms(2)] by blast
  have "keeps pid s s3"
    using run(5-7) calls_keep(3) [OF assms(1)] invoke_signed_keeps [OF _ assms(1)] by (blast intro: keeps_trans)
  moreover have "0 < pool_version (pool_in p t a)"
    using loaded_version [OF run(1)] by (simp add: pool_in_def)
  moreover have "cpis s3 = cpis s @ deposit_calls A p a t f"
    using invoke_signed_cpis [OF run(5)] token_mint_to_cpis [OF run(6)] token_mint_to_cpis [OF run(7)]
    by (simp add: deposit_calls_def withdraw_seeds_def)
  ultimately show ?thesis
    using load_saved_pool [OF run(8,1)] pool_in_ok [OF load_pool_ok [OF run(1)]] assms(1) run(1-4) by auto
qed

lemma withdraw_result:
  assumes "host_ok R pid" "process_withdraw R pid t (withdraw_list A @ extra) s = Inr s'"
  shows "\<exists>p y. load_pool pid (wa_pool A) s = Inr p \<and> calc_lamports_amount p t = Some y \<and>
    y + MIN_RESERVE_BALANCE \<le> ac_lamports (acct (wa_reserve A) s) \<and> cpis s' = cpis s @ withdraw_calls R pid A p t y \<and>
    load_pool pid (wa_pool A) s' = Inr (pool_out p t y)"
proof -
  from assms(2) obtain p y s1 s2 where run: "load_pool pid (wa_pool A) s = Inr p" "calc_lamports_amount p t = Some y"
    "y \<le> ac_lamports (acct (wa_reserve A) s)" "MIN_RESERVE_BALANCE \<le> ac_lamports (acct (wa_reserve A) s) - y"
    "token_burn R (wa_pool A) (wa_token A) (wa_burn_from A) (wa_mint A) (wa_withdraw A) AUTHORITY_WITHDRAW
        (withdraw_bump_seed p) t s = Inr s1"
    "invoke_signed R (Sys_transfer (ai_key (wa_reserve A)) (ai_key (wa_target A)) y)
        [wa_system A, wa_reserve A, wa_target A]
        [authority_seeds (wa_pool A) AUTHORITY_RESERVE (snd (get_reserve_adderess R pid (ai_key (wa_pool A))))] s1 = Inr s2"
    "save_pool R (pool_out p t y) (wa_pool A) s2 = Inr s'"
    unfolding process_withdraw_run by blast
  have "keeps pid s s2"
    using run(5,6) calls_keep(2) [OF assms(1)] invoke_signed_keeps [OF _ assms(1)] by (blast intro: keeps_trans)
  moreover have "0 < pool_version (pool_out p t y)"
    using loaded_version [OF run(1)] by (simp add: pool_out_def)
  moreover have "cpis s2 = cpis s @ withdraw_calls R pid A p t y"
    using token_burn_cpis [OF run(5)] invoke_signed_cpis [OF run(6)] by (simp add: withdraw_calls_def withdraw_seeds_def)
  ultimately show ?thesis
    using load_saved_pool [OF run(7,1)] pool_out_ok [OF load_pool_ok [OF run(1)]] assms(1) run(1-4) by auto
qed

section \<open>Runs of the sample\<close>

definition sample_deposit :: deposit_accounts where
  "sample_deposit =
     \<lparr>da_pool = acc 10, da_withdraw = info_at sample_withdraw, da_reserve = info_at sample_reserve,
      da_source = (acc 20)\<lparr>is_signer := True\<rparr>, da_dest = acc 21, da_fee = acc 15, da_mint = acc 14, da_rent = acc 65,
      da_system = acc 0, da_token = info_at sample_token\<rparr>"

definition sample_withdrawal :: "AccountInfo \<Rightarrow> AccountInfo \<Rightarrow> AccountInfo \<Rightarrow> withdraw_accounts" where
  "sample_withdrawal burn_from mint target =
     \<lparr>wa_pool = acc 10, wa_withdraw = info_at sample_withdraw, wa_reserve = info_at sample_reserve,
      wa_burn_from = burn_from, wa_mint = mint, wa_target = target, wa_rent = acc 65,
      wa_system = acc 0, wa_token = info_at sample_token\<rparr>"

lemma sample_keys_mixed: "hd sample_reserve \<noteq> last sample_reserve \<and> hd sample_withdraw \<noteq> last sample_withdraw \<and>
    hd sample_reserve \<noteq> hd sample_withdraw \<and> length sample_reserve = 32 \<and> length sample_withdraw = 32"
  by code_simp

lemma sample_keys [simp]:
  "sample_reserve \<noteq> replicate 32 n" "sample_withdraw \<noteq> replicate 32 n" "sample_reserve \<noteq> sample_withdraw"
  using sample_keys_mixed hd_replicate [of 32 n] last_replicate [of 32 n] by (metis zero_neq_numeral)+

lemmas sample_keys_sym [simp] = sample_keys [symmetric]

lemmas sample_defs = sample_runtime_def sample_deposit_def sample_withdrawal_def acc_def info_at_def

lemma sample_authority: "check_authority_withdraw sample_runtime p sample_withdraw sample_pid (replicate 32 10) = Inr ()"
  by (simp add: check_authority_withdraw_def check_authority_def authority_id_def sample_runtime_def sample_withdraw_def)

lemma sample_reserve_address: "get_reserve_adderess sample_runtime sample_pid (replicate 32 10) = (sample_reserve, 255)"
  by (simp add: get_reserve_adderess_def sample_runtime_def sample_reserve_def)

lemma sample_rates:
  "calc_pool_deposit_amount sample_pool 1000000000 = Some 800000000"
  "calc_fee_amount sample_pool 800000000 = Some 8000000"
  "calc_lamports_amount sample_pool 8000000000 = Some 10000000000"
  by (simp_all add: calc_pool_deposit_amount_def calc_pool_withdraw_amount_def calc_fee_amount_def calc_lamports_amount_def
    sample_pool_def checked_mul128_def checked_div128_def u64_try_from_def)

text \<open>A call the host answers runs, and leaves the program's accounts alone.\<close>

lemma invoke_signed_runs:
  assumes "host_ok R pid" "rt_invoke R ix (map ai_key infos) seeds (accts s) = Inr b"
  shows "\<exists>s'. invoke_signed R ix infos seeds s = Inr s' \<and> keeps pid s s'"
  using assms invoke_signed_keeps [OF _ assms(1), of ix infos seeds s] by (auto simp: invoke_signed_def)

lemma save_pool_runs:
  assumes "load_pool pid k s = Inr p" "keeps pid s s1"
  shows "\<exists>s'. save_pool R q k s1 = Inr s'"
  using assms by (auto simp: load_pool_Inr save_pool_Inr StakePool_deserialize_def keeps_def acct_def split: if_splits)

definition mints :: "runtime \<Rightarrow> deposit_accounts \<Rightarrow> bool" where
  "mints R A \<longleftrightarrow> (\<forall>dst n seeds b. \<exists>b'. rt_invoke R
     (Token_mint_to (ai_key (da_token A)) (ai_key (da_mint A)) dst (ai_key (da_withdraw A)) n)
     [ai_key (da_mint A), dst, ai_key (da_withdraw A), ai_key (da_token A)] seeds b = Inr b')"

lemma mint_runs:
  assumes "host_ok R pid" "mints R A"
  shows "\<exists>s'. token_mint_to R k (da_token A) (da_mint A) i (da_withdraw A) ty bump n s = Inr s' \<and> keeps pid s s'"
proof -
  obtain b where "rt_invoke R (Token_mint_to (ai_key (da_token A)) (ai_key (da_mint A)) (ai_key i) (ai_key (da_withdraw A)) n)
      (map ai_key [da_mint A, i, da_withdraw A, da_token A]) [authority_seeds k ty bump] (accts s) = Inr b"
    using assms(2) unfolding mints_def by (simp only: list.map) blast
  from invoke_signed_runs [OF assms(1) this] show ?thesis
    by (simp add: token_mint_to_def)
qed

text \<open>The pool a deposit meets, and the lamports of its source.\<close>

definition deposit_ready :: "runtime \<Rightarrow> buffer \<Rightarrow> deposit_accounts \<Rightarrow> nat \<Rightarrow> StakePool \<Rightarrow> Rent \<Rightarrow> chain \<Rightarrow> bool" where
  "deposit_ready R pid A a p rent s \<longleftrightarrow>
     load_pool pid (da_pool A) s = Inr p \<and> Rent_from_account_info R (da_rent A) s = Inr rent \<and>
     check_authority_withdraw R p (ai_key (da_withdraw A)) pid (ai_key (da_pool A)) = Inr () \<and>
     ai_key (da_reserve A) = fst (get_reserve_adderess R pid (ai_key (da_pool A))) \<and>
     owner_fee_account p = ai_key (da_fee A) \<and> token_program_id p = ai_key (da_token A) \<and>
     ac_owner (acct (da_source A) s) = system_program_id R \<and>
     min_reserve_balance R rent \<le> ac_lamports (acct (da_reserve A) s) + a \<and>
     ac_lamports (acct (da_reserve A) s) + a < 2 ^ 64 \<and>
     pool_fee_numerator p \<le> pool_fee_denominator p \<and>
     (stake_total p = 0 \<or> a * pool_total p div stake_total p < 2 ^ 64) \<and>
     (\<exists>b. rt_invoke R (Sys_transfer (ai_key (da_source A)) (ai_key (da_reserve A)) a)
        [ai_key (da_source A), ai_key (da_reserve A), ai_key (da_system A)] [] (accts s) = Inr b)"

lemma fee_exists:
  assumes "pool_ok p" "t < 2 ^ 64" "pool_fee_numerator p \<le> pool_fee_denominator p"
  shows "\<exists>f. calc_fee_amount p t = Some f \<and> f \<le> t"
proof -
  have "t * pool_fee_numerator p div pool_fee_denominator p \<le> t * pool_fee_denominator p div pool_fee_denominator p"
    by (intro div_le_mono mult_le_mono2 assms(3))
  also have "\<dots> \<le> t"
    by simp
  finally have "t * pool_fee_numerator p div pool_fee_denominator p < 2 ^ 64"
    using assms(2) by linarith
  then have "calc_fee_amount p t \<noteq> None"
    using assms(1,2) checked_ratio [of t "pool_fee_numerator p" "pool_fee_denominator p"]
    by (auto simp: calc_fee_amount_def pool_ok_def simp del: bind_eq_None_conv)
  then show ?thesis
    using fee_amount_bound [OF assms(3)] by blast
qed

lemma deposit_runs:
  assumes "host_ok R pid" "mints R A" "deposit_ready R pid A a p rent s" "0 < a"
  shows "\<exists>s'. process_deposit R pid a (deposit_list A @ extra) s = Inr s'"
proof -
  note ready = assms(3) [unfolded deposit_ready_def]
  have ok: "pool_ok p" "a < 2 ^ 64"
    using ready load_pool_ok by auto
  have "calc_pool_deposit_amount p a \<noteq> None"
    using ready unfolding calc_pool_deposit_amount_eq [OF ok] by auto
  then obtain t where t: "calc_pool_deposit_amount p a = Some t"
    by blast
  obtain f where f: "calc_fee_amount p t = Some f" "f \<le> t"
    using fee_exists [OF ok(1) deposit_amount_bound(1) [OF ok t]] ready by auto
  obtain s1 where s1: "invoke_signed R (Sys_transfer (ai_key (da_source A)) (ai_key (da_reserve A)) a)
      [da_source A, da_reserve A, da_system A] [] s = Inr s1" "keeps pid s s1"
    using ready invoke_signed_runs [OF assms(1), of "Sys_transfer (ai_key (da_source A)) (ai_key (da_reserve A)) a"
      "[da_source A, da_reserve A, da_system A]" "[]" s] by auto
  obtain s2 where s2: "token_mint_to R (da_pool A) (da_token A) (da_mint A) (da_dest A) (da_withdraw A) AUTHORITY_WITHDRAW
      (withdraw_bump_seed p) (t - f) s1 = Inr s2" "keeps pid s1 s2"
    using mint_runs [OF assms(1,2)] by blast
  obtain s3 where s3: "token_mint_to R (da_pool A) (da_token A) (da_mint A) (da_fee A) (da_withdraw A) AUTHORITY_WITHDRAW
      (withdraw_bump_seed p) f s2 = Inr s3" "keeps pid s2 s3"
    using mint_runs [OF assms(1,2)] by blast
  obtain s' where "save_pool R (pool_in p t a) (da_pool A) s3 = Inr s'"
    using save_pool_runs [of pid "da_pool A" s p s3] ready s1(2) s2(2) s3(2) keeps_trans by blast
  moreover have owner: "ac_owner (acct (da_source A) s) = system_program_id R"
    using ready by simp
  ultimately have "process_deposit R pid a (deposit_list A @ extra) s = Inr s'"
    unfolding process_deposit_plain [OF owner]
    using ready assms(4) t f s1(1) s2(1) s3(1)
    by (intro exI [of _ rent] exI [of _ p] exI [of _ t] exI [of _ f] exI [of _ s1] exI [of _ s2] exI [of _ s3])
      (simp add: wadd64_exact)
  then show ?thesis ..
qed

lemma sample_ready: "deposit_ready sample_runtime sample_pid sample_deposit 1000000000 sample_pool sample_rent sample_chain"
  by (simp add: deposit_ready_def sample_authority sample_reserve_address sample_load_pool sample_deposit_def acc_def info_at_def)
    (simp add: sample_pool_def sample_runtime_def Rent_from_account_info_def acct_def sample_chain_def sample_accts_def
      plain_def min_reserve_balance_def MIN_RESERVE_BALANCE_def sample_rent_def wadd64_def sample_invoke_def)

lemma sample_mints: "mints sample_runtime sample_deposit"
  by (simp add: mints_def sample_runtime_def sample_invoke_def)

section \<open>The price over a sequence of exchanges\<close>

text \<open>
  Deposits and withdrawals of one pool, by anyone, plain or wrapped, with anything happening elsewhere in
  between. A deposit keeps the totals within 64 bits and a withdrawal leaves some tokens: the token
  program sees to both, since \<open>pool_total\<close> is the supply and lamports are fewer than \<open>2 ^ 64\<close>.
\<close>

inductive trading :: "runtime \<Rightarrow> buffer \<Rightarrow> buffer \<Rightarrow> chain \<Rightarrow> chain \<Rightarrow> bool" for R pid k where
  idle: "trading R pid k s s"
| deposits: "trading R pid k s s1 \<Longrightarrow> process_deposit R pid a accounts s1 = Inr s2 \<Longrightarrow> ai_key (hd accounts) = k \<Longrightarrow>
    view pid k s1 = Some V \<Longrightarrow> calc_pool_deposit_amount (pv_pool V) a = Some t \<Longrightarrow>
    stake_total (pv_pool V) + a < 2 ^ 64 \<Longrightarrow> pool_total (pv_pool V) + t < 2 ^ 64 \<Longrightarrow> trading R pid k s s2"
| withdraws: "trading R pid k s s1 \<Longrightarrow> process_withdraw R pid t accounts s1 = Inr s2 \<Longrightarrow> ai_key (hd accounts) = k \<Longrightarrow>
    view pid k s1 = Some V \<Longrightarrow> t < pool_total (pv_pool V) \<Longrightarrow> trading R pid k s s2"
| other: "trading R pid k s s1 \<Longrightarrow> keeps pid s1 s2 \<Longrightarrow> trading R pid k s s2"

inductive_cases deposit_stepE: "pool_step (Deposit a) V V'"
inductive_cases withdraw_stepE: "pool_step (Withdraw t) V V'"

lemma price_le_trans: "price_le p q \<Longrightarrow> price_le q r \<Longrightarrow> 0 < pool_total q \<Longrightarrow> price_le p r"
proof -
  assume pq: "price_le p q" and qr: "price_le q r" and pos: "0 < pool_total q"
  have "pool_total q * (stake_total p * pool_total r) \<le> (stake_total q * pool_total p) * pool_total r"
    using mult_le_mono1 [OF pq [unfolded price_le_def], of "pool_total r"] by (simp add: ac_simps)
  also have "\<dots> \<le> pool_total q * (stake_total r * pool_total p)"
    using mult_le_mono1 [OF qr [unfolded price_le_def], of "pool_total p"] by (simp add: ac_simps)
  finally show "price_le p r"
    using pos by (simp add: price_le_def)
qed

lemma deposit_step_price:
  assumes "pool_step (Deposit a) V V'" "pool_ok (pv_pool V)" "calc_pool_deposit_amount (pv_pool V) a = Some t"
    "stake_total (pv_pool V) + a < 2 ^ 64" "pool_total (pv_pool V) + t < 2 ^ 64" "0 < pool_total (pv_pool V)"
  shows "price_le (pv_pool V) (pv_pool V') \<and> 0 < pool_total (pv_pool V')"
proof -
  have "V' = V\<lparr>pv_pool := pool_in (pv_pool V) t a\<rparr>"
    using assms(1,3) by (auto elim: deposit_stepE)
  then show ?thesis
    using deposit_price [OF assms(2) _ assms(3,5,4)] assms(4-6) by (simp add: pool_in_def wadd64_exact)
qed

lemma withdraw_step_price:
  assumes "pool_step (Withdraw t) V V'" "pool_ok (pv_pool V)" "t < pool_total (pv_pool V)"
  shows "price_le (pv_pool V) (pv_pool V') \<and> 0 < pool_total (pv_pool V')"
proof -
  obtain y where "calc_lamports_amount (pv_pool V) t = Some y" "V' = V\<lparr>pv_pool := pool_out (pv_pool V) t y\<rparr>"
    using assms(1) by (auto elim: withdraw_stepE)
  then show ?thesis
    using withdraw_price [OF assms(2)] assms(2,3) by (simp add: pool_out_def wsub64_exact pool_ok_def)
qed


section \<open>A deposit and a withdrawal\<close>

lemma load_keeps: "load_pool pid k s = Inr p \<Longrightarrow> keeps pid s s' \<Longrightarrow> load_pool pid k s' = Inr p"
  by (auto simp: load_pool_Inr keeps_def acct_def)

lemma deposit_stores:
  assumes "host_ok R pid" "process_deposit R pid a (k # ds) s = Inr s'" "load_pool pid k s = Inr p"
    "calc_pool_deposit_amount p a = Some t"
  shows "load_pool pid k s' = Inr (pool_in p t a)"
proof -
  from process_deposit_pool [OF assms(2,1)] obtain s1 where "keeps pid s s1" "save_pool R (pool_in p t a) k s1 = Inr s'"
    using assms(3,4) by auto
  then show ?thesis
    using load_saved_pool(1) [of R "pool_in p t a" k s1 s' pid s p] assms(1,3) pool_in_ok [OF load_pool_ok [OF assms(3)]]
      loaded_version [OF assms(3)] by (simp add: pool_in_def)
qed

lemma withdraw_pays:
  assumes "host_ok R pid" "process_withdraw R pid u (k # ws) s = Inr s'" "load_pool pid k s = Inr p"
  shows "\<exists>rs target y seeds. calc_lamports_amount p u = Some y \<and> last (cpis s') = (Sys_transfer rs target y, seeds)"
proof -
  obtain A rest where list: "k # ws = withdraw_list A @ rest"
    using withdraw_takes_accounts [OF assms(2)] by blast
  then have "wa_pool A = k"
    by (simp add: withdraw_list_def)
  then show ?thesis
    using withdraw_result [OF assms(1), of u A rest s s'] assms(2,3) list by (auto simp: withdraw_calls_def)
qed

text \<open>
  C12. No profit from a round trip: the tokens minted for a deposit of \<open>a\<close> lamports, withdrawn again while
  nothing else touched the pool, pay out at most \<open>a\<close>, whichever part of them is withdrawn.
\<close>

theorem no_profit:
  assumes "host_ok R pid" "load_pool pid k s = Inr p" "process_deposit R pid a (k # ds) s = Inr s1" "keeps pid s1 s2"
    "process_withdraw R pid u (k # ws) s2 = Inr s3" "calc_pool_deposit_amount p a = Some t" "u \<le> t"
    "stake_total p + a < 2 ^ 64" "pool_total p + t < 2 ^ 64"
  shows "\<exists>rs target y seeds. last (cpis s3) = (Sys_transfer rs target y, seeds) \<and> y \<le> a"
proof -
  have "load_pool pid k s2 = Inr (pool_in p t a)"
    using load_keeps deposit_stores [OF assms(1,3,2,6)] assms(4) by blast
  from withdraw_pays [OF assms(1,5) this] obtain rs target y seeds where
    "calc_lamports_amount (pool_in p t a) u = Some y" "last (cpis s3) = (Sys_transfer rs target y, seeds)"
    by blast
  then show ?thesis
    using deposit_then_withdraw [OF load_pool_ok [OF assms(2)] _ assms(6,7,9,8)] assms(8) by auto
qed

text \<open>
  Where the pool holds lamports but has issued no tokens, a deposit is lost: it succeeds and transfers
  the depositor's lamports to the reserve, for zero tokens to the user and zero to the owner.
\<close>

lemma deposit_mints_nothing:
  assumes "host_ok R pid" "ac_owner (acct (da_source A) s) = system_program_id R"
    "process_deposit R pid a (deposit_list A @ extra) s = Inr s'" "load_pool pid (da_pool A) s = Inr p"
    "pool_total p = 0" "0 < stake_total p" "a < 2 ^ 64"
  shows "cpis s' = cpis s @ deposit_calls A p a 0 0"
proof -
  have "calc_pool_deposit_amount p a = Some 0"
    using calc_pool_deposit_amount_eq [OF load_pool_ok [OF assms(4)] assms(7)] assms(5,6) by simp
  then show ?thesis
    using deposit_result [OF assms(1-3)] assms(4) by auto
qed

text \<open>The sample after its deposit, and a withdrawal of 0.4 tokens from it.\<close>

lemma sample_deposit_result:
  assumes "process_deposit sample_runtime sample_pid 1000000000 (deposit_list sample_deposit @ extra) sample_chain = Inr s"
  shows "load_pool sample_pid (acc 10) s = Inr (pool_in sample_pool 800000000 1000000000)"
    "accts s sample_reserve = plain 61000000000" "accts s (replicate 32 21) = sample_accts (replicate 32 21)"
proof -
  have owner: "ac_owner (acct (da_source sample_deposit) sample_chain) = system_program_id sample_runtime"
    using sample_ready by (simp add: deposit_ready_def)
  have p: "load_pool sample_pid (acc 10) sample_chain = Inr sample_pool"
    by (simp add: sample_load_pool acc_def)
  show "load_pool sample_pid (acc 10) s = Inr (pool_in sample_pool 800000000 1000000000)"
    using deposit_result [OF sample_host_ok owner assms] p by (auto simp: sample_deposit_def sample_rates)
  show "accts s sample_reserve = plain 61000000000" "accts s (replicate 32 21) = sample_accts (replicate 32 21)"
    using assms unfolding process_deposit_plain [OF owner]
    by (auto simp: save_pool_Inr token_mint_to_def invoke_signed_Inr sample_runtime_def sample_invoke_def sample_deposit_def
      acc_def info_at_def sample_chain_def sample_accts_def plain_def split: if_splits)
qed

section \<open>Signatures\<close>

definition unsigned_info :: "AccountInfo \<Rightarrow> AccountInfo" where
  "unsigned_info i = i\<lparr>is_signer := False\<rparr>"

lemma unsigned_key [simp]: "ai_key (unsigned_info i) = ai_key i"
  by (simp add: unsigned_info_def)

lemma next_account_unsigned:
  "next_account_info (map unsigned_info it) k = next_account_info it (\<lambda>i it. k (unsigned_info i) (map unsigned_info it))"
  by (cases it) simp_all

lemma by_key_only [simp]:
  "acct (unsigned_info i) s = acct i s"
  "Rent_from_account_info R (unsigned_info i) s = Rent_from_account_info R i s"
  "load_pool pid (unsigned_info i) s = load_pool pid i s"
  "load_credits p (unsigned_info i) s = load_credits p i s"
  "save_pool R p (unsigned_info i) = save_pool R p i"
  "save_credits l (unsigned_info i) = save_credits l i"
  "authority_seeds (unsigned_info i) ty b = authority_seeds i ty b"
  by (simp_all add: acct_def Rent_from_account_info_def load_pool_def load_credits_def save_pool_def save_credits_def
    put_data_def authority_seeds_def fun_eq_iff)

text \<open>
  The program asks no user for a signature: whether a withdrawal or a credit succeeds, and what it does,
  is the same for the accounts with every signature removed.
\<close>

lemma signatures_ignored:
  "process_withdraw R pid t (map unsigned_info accounts) s = process_withdraw R pid t accounts s \<and>
   process_credit R pid t (map unsigned_info accounts) s = process_credit R pid t accounts s"
proof
  show "process_withdraw R pid t (map unsigned_info accounts) s = process_withdraw R pid t accounts s"
    by (simp add: process_withdraw_def next_account_unsigned token_burn_def invoke_signed_def cong: if_cong)
  show "process_credit R pid t (map unsigned_info accounts) s = process_credit R pid t accounts s"
    by (simp add: process_credit_def next_account_unsigned invoke_signed_def cong: if_cong)
qed

section \<open>Whose tokens a withdrawal burns\<close>

text \<open>Everything the handler checks of a withdrawal: nothing here is about the mint or the account burnt from.\<close>

definition withdraw_ready :: "runtime \<Rightarrow> buffer \<Rightarrow> withdraw_accounts \<Rightarrow> nat \<Rightarrow> StakePool \<Rightarrow> nat \<Rightarrow> Rent \<Rightarrow> chain \<Rightarrow> bool" where
  "withdraw_ready R pid A t p y rent s \<longleftrightarrow>
     0 < t \<and> load_pool pid (wa_pool A) s = Inr p \<and> Rent_from_account_info R (wa_rent A) s = Inr rent \<and>
     token_program_id p = ai_key (wa_token A) \<and>
     check_authority_withdraw R p (ai_key (wa_withdraw A)) pid (ai_key (wa_pool A)) = Inr () \<and>
     ai_key (wa_reserve A) = fst (get_reserve_adderess R pid (ai_key (wa_pool A))) \<and>
     calc_lamports_amount p t = Some y \<and> y + MIN_RESERVE_BALANCE \<le> ac_lamports (acct (wa_reserve A) s) \<and>
     is_exempt rent (ac_lamports (acct (wa_reserve A) s) - y) 0"

text \<open>The token program burns and the system program transfers, both for the program's own authorities.\<close>

definition pays_out :: "runtime \<Rightarrow> withdraw_accounts \<Rightarrow> nat \<Rightarrow> nat \<Rightarrow> chain \<Rightarrow> bool" where
  "pays_out R A t y s \<longleftrightarrow>
     (\<forall>seeds. \<exists>b. rt_invoke R
        (Token_burn (ai_key (wa_token A)) (ai_key (wa_burn_from A)) (ai_key (wa_mint A)) (ai_key (wa_withdraw A)) t)
        [ai_key (wa_burn_from A), ai_key (wa_mint A), ai_key (wa_withdraw A), ai_key (wa_token A)] seeds (accts s) = Inr b \<and>
        (\<forall>seeds. \<exists>c. rt_invoke R (Sys_transfer (ai_key (wa_reserve A)) (ai_key (wa_target A)) y)
          [ai_key (wa_system A), ai_key (wa_reserve A), ai_key (wa_target A)] seeds b = Inr c))"

lemma withdraw_runs:
  assumes "host_ok R pid" "withdraw_ready R pid A t p y rent s" "pays_out R A t y s"
  shows "\<exists>s'. process_withdraw R pid t (withdraw_list A @ extra) s = Inr s'"
proof -
  note ready = assms(2) [unfolded withdraw_ready_def]
  let ?rs = "[authority_seeds (wa_pool A) AUTHORITY_RESERVE (snd (get_reserve_adderess R pid (ai_key (wa_pool A))))]"
  obtain b c where calls: "rt_invoke R
      (Token_burn (ai_key (wa_token A)) (ai_key (wa_burn_from A)) (ai_key (wa_mint A)) (ai_key (wa_withdraw A)) t)
      [ai_key (wa_burn_from A), ai_key (wa_mint A), ai_key (wa_withdraw A), ai_key (wa_token A)]
      [authority_seeds (wa_pool A) AUTHORITY_WITHDRAW (withdraw_bump_seed p)] (accts s) = Inr b"
    "rt_invoke R (Sys_transfer (ai_key (wa_reserve A)) (ai_key (wa_target A)) y)
      [ai_key (wa_system A), ai_key (wa_reserve A), ai_key (wa_target A)] ?rs b = Inr c"
    using assms(3) unfolding pays_out_def by blast
  then obtain s1 where s1: "token_burn R (wa_pool A) (wa_token A) (wa_burn_from A) (wa_mint A) (wa_withdraw A)
      AUTHORITY_WITHDRAW (withdraw_bump_seed p) t s = Inr s1" "accts s1 = b"
    by (auto simp: token_burn_def invoke_signed_def)
  then obtain s2 where s2: "invoke_signed R (Sys_transfer (ai_key (wa_reserve A)) (ai_key (wa_target A)) y)
      [wa_system A, wa_reserve A, wa_target A] ?rs s1 = Inr s2"
    using calls(2) by (auto simp: invoke_signed_def)
  have "keeps pid s s2"
    using calls_keep(2) [OF assms(1) s1(1)] invoke_signed_keeps [OF s2 assms(1)] by (rule keeps_trans)
  then obtain s' where "save_pool R (pool_out p t y) (wa_pool A) s2 = Inr s'"
    using save_pool_runs ready by blast
  moreover have "MIN_RESERVE_BALANCE \<le> ac_lamports (acct (wa_reserve A) s) - y"
    using ready by linarith
  ultimately have "process_withdraw R pid t (withdraw_list A @ extra) s = Inr s'"
    unfolding process_withdraw_run using ready s1(1) s2
    by - (rule exI [of _ rent], rule exI [of _ p], rule exI [of _ y], rule exI [of _ s1], rule exI [of _ s2], simp)
  then show ?thesis ..
qed


lemma sample_burns:
  "withdraw_ready sample_runtime sample_pid (sample_withdrawal i m tgt) 8000000000 sample_pool 10000000000 sample_rent sample_chain"
  by (simp add: withdraw_ready_def sample_withdrawal_def sample_authority sample_reserve_address sample_load_pool acc_def
      info_at_def sample_rates)
    (simp add: sample_pool_def sample_runtime_def Rent_from_account_info_def acct_def sample_chain_def sample_accts_def
      plain_def MIN_RESERVE_BALANCE_def sample_rent_def)

lemma sample_pays_out:
  "pays_out sample_runtime (sample_withdrawal (acc 16) (acc 14) (acc 22)) 8000000000 10000000000 sample_chain"
  "pays_out sample_runtime (sample_withdrawal (acc 23) (acc 24) (acc 22)) 8000000000 10000000000 sample_chain"
  using sample_keys_mixed
  by (simp_all add: pays_out_def sample_runtime_def sample_invoke_def sample_withdrawal_def acc_def info_at_def
    sample_chain_def sample_accts_def tok_allows_def tok_amount_def token_data_def slice_append_cases slice_all le_val_le_bytes
    plain_def tok_put_def sample_token_def del: le_bytes.simps)


section \<open>Witnesses\<close>

lemma sample_deposit_run:
  "\<exists>s. process_deposit sample_runtime sample_pid 1000000000 (deposit_list sample_deposit @ []) sample_chain = Inr s"
  by (rule deposit_runs [OF sample_host_ok sample_mints sample_ready]) simp

lemma sample_withdraw_run:
  assumes "process_deposit sample_runtime sample_pid 1000000000 (deposit_list sample_deposit @ extra) sample_chain = Inr s"
  shows "\<exists>s'. process_withdraw sample_runtime sample_pid 400000000
    (withdraw_list (sample_withdrawal (acc 21) (acc 14) (acc 20)) @ []) s = Inr s'"
proof (rule withdraw_runs [OF sample_host_ok])
  let ?A = "sample_withdrawal (acc 21) (acc 14) (acc 20)" and ?p = "pool_in sample_pool 800000000 1000000000"
  note after = sample_deposit_result [OF assms]
  have rate: "calc_lamports_amount ?p 400000000 = Some 500000000" "token_program_id ?p = sample_token"
    by (simp_all add: calc_lamports_amount_def pool_in_def sample_pool_def wadd64_def checked_mul128_def checked_div128_def
      u64_try_from_def)
  have keys: "wa_pool ?A = acc 10" "ai_key (wa_reserve ?A) = sample_reserve" "ai_key (wa_withdraw ?A) = sample_withdraw"
    "ai_key (acc 10) = replicate 32 10" "ai_key (wa_token ?A) = sample_token"
    by (simp_all add: sample_withdrawal_def info_at_def acc_def)
  show "withdraw_ready sample_runtime sample_pid ?A 400000000 ?p 500000000 sample_rent s"
    unfolding withdraw_ready_def keys acct_def after(2)
    using after(1) rate sample_authority sample_reserve_address
    by (simp add: Rent_from_account_info_def sample_runtime_def [THEN arg_cong [where f = rent_of]] plain_def
      MIN_RESERVE_BALANCE_def sample_rent_def)
  show "pays_out sample_runtime ?A 400000000 500000000 s"
    using after(2,3) sample_keys_mixed
    by (simp add: pays_out_def sample_runtime_def sample_invoke_def sample_withdrawal_def acc_def info_at_def
      sample_accts_def tok_allows_def tok_amount_def token_data_def slice_append_cases slice_all le_val_le_bytes
      plain_def tok_put_def sample_token_def del: le_bytes.simps)
qed

lemma sample_view_after:
  assumes "process_deposit sample_runtime sample_pid 1000000000 (deposit_list sample_deposit @ []) sample_chain = Inr s"
  shows "view sample_pid (replicate 32 10) s =
    Some \<lparr>pv_pool = pool_in sample_pool 800000000 1000000000, pv_validators = [], pv_credits = []\<rparr>"
proof -
  have hd: "ai_key (hd (deposit_list sample_deposit @ [])) = replicate 32 10"
    by (simp add: deposit_list_def sample_deposit_def acc_def)
  from deposit_refines [OF assms sample_host_ok] sample_view
  obtain V where "pool_step (Deposit 1000000000) \<lparr>pv_pool = sample_pool, pv_validators = [], pv_credits = []\<rparr> V"
    "view sample_pid (replicate 32 10) s = Some V"
    unfolding hd by blast
  then show ?thesis
    by (auto elim!: deposit_stepE simp: sample_rates)
qed


theorem no_profit_witness:
  "\<exists>s1 s3 rs target y seeds. process_deposit sample_runtime sample_pid 1000000000 (deposit_list sample_deposit @ []) sample_chain = Inr s1 \<and>
    process_withdraw sample_runtime sample_pid 400000000
      (withdraw_list (sample_withdrawal (acc 21) (acc 14) (acc 20)) @ []) s1 = Inr s3 \<and>
    last (cpis s3) = (Sys_transfer rs target y, seeds) \<and> y \<le> 1000000000"
proof -
  obtain s1 where s1: "process_deposit sample_runtime sample_pid 1000000000 (deposit_list sample_deposit @ []) sample_chain = Inr s1"
    using sample_deposit_run by blast
  obtain s3 where s3: "process_withdraw sample_runtime sample_pid 400000000
      (withdraw_list (sample_withdrawal (acc 21) (acc 14) (acc 20)) @ []) s1 = Inr s3"
    using sample_withdraw_run [OF s1] by blast
  obtain ds ws where lists: "deposit_list sample_deposit @ [] = acc 10 # ds"
    "withdraw_list (sample_withdrawal (acc 21) (acc 14) (acc 20)) @ [] = acc 10 # ws"
    by (simp add: deposit_list_def withdraw_list_def sample_deposit_def sample_withdrawal_def)
  show ?thesis
    using no_profit [OF sample_host_ok _ s1 [unfolded lists] keeps_refl s3 [unfolded lists] sample_rates(1)]
      s1 s3 sample_load_pool [of "acc 10"]
    by (simp add: acc_def sample_pool_def)
qed

text \<open>The sample before any token was issued, with 60 SOL already in the reserve.\<close>

definition sample_unissued :: StakePool where
  "sample_unissued = sample_pool\<lparr>stake_total := 60000000000, pool_total := 0\<rparr>"

definition sample_funded :: chain where
  "sample_funded = put_data (acc 10) (pool_bytes (replicate 5 0) sample_unissued) sample_chain"

lemma sample_funded_ready:
  "deposit_ready sample_runtime sample_pid sample_deposit 1000000000 sample_unissued sample_rent sample_funded"
proof -
  have "pool_ok sample_unissued"
    using sample_pool_ok by (simp add: sample_unissued_def pool_ok_def)
  then have "load_pool sample_pid (acc 10) sample_funded = Inr sample_unissued"
    using read_pool_bytes [of sample_unissued "replicate 5 0" "[]"]
    by (simp add: load_pool_def acct_def sample_funded_def sample_chain_def sample_accts_def acc_def
      StakePool_is_initialized_def) (simp add: sample_unissued_def sample_pool_def)
  then show ?thesis
    by (simp add: deposit_ready_def sample_authority sample_reserve_address sample_deposit_def acc_def info_at_def)
      (simp add: sample_unissued_def sample_pool_def sample_runtime_def Rent_from_account_info_def acct_def
        sample_funded_def sample_chain_def sample_accts_def acc_def plain_def min_reserve_balance_def
        MIN_RESERVE_BALANCE_def sample_rent_def wadd64_def sample_invoke_def)
qed

lemma deposit_mints_nothing_witness:
  "\<exists>s. process_deposit sample_runtime sample_pid 1000000000 (deposit_list sample_deposit @ []) sample_funded = Inr s \<and>
    cpis s = deposit_calls sample_deposit sample_unissued 1000000000 0 0"
proof -
  have ready: "ac_owner (acct (da_source sample_deposit) sample_funded) = system_program_id sample_runtime"
    "load_pool sample_pid (da_pool sample_deposit) sample_funded = Inr sample_unissued"
    using sample_funded_ready by (simp_all add: deposit_ready_def)
  obtain s where s: "process_deposit sample_runtime sample_pid 1000000000 (deposit_list sample_deposit @ []) sample_funded = Inr s"
    using deposit_runs [OF sample_host_ok sample_mints sample_funded_ready zero_less_numeral, of "[]"] by blast
  then show ?thesis
    using deposit_mints_nothing [OF sample_host_ok ready(1) s ready(2)]
    by (simp add: sample_unissued_def sample_funded_def sample_chain_def)
qed

end
