(* ===== verification/Onchain_Accounting.thy ===== *)
theory Onchain_Accounting
  imports Client_Program
begin

text \<open>
  Where the books of the pool do not follow the money: the payment of creditors takes one record too many
  out of the list and prices the later payments too high, and a delegation to stakes that exist already is
  not recorded.
\<close>

section \<open>Creditors\<close>

lemma pay_loop_calls:
  "pay_loop R E it cs p ta bad s = Inr (p', ta', left, bad', s') \<Longrightarrow> length (cpis s') \<le> length (cpis s) + 2 * length it"
proof (induction R E it cs p ta bad s rule: pay_loop.induct)
  case (3 R E u it c cs p ta bad s)
  from 3(3) show ?case
  proof (cases rule: pay_loop_ConsE)
    case aside
    then show ?thesis
      using 3(1) [OF aside(2,1,3)] by simp
  next
    case stop
    then show ?thesis by simp
  next
    case (pays y s1 s2)
    then show ?thesis
      using 3(2) [OF pays(5,6) refl _ pays(7,2,3,4)] token_burn_cpis [OF pays(2)] invoke_signed_cpis [OF pays(3)] by simp
  qed
qed simp_all

lemma pay_loop_all_paid:
  "pay_loop R E it cs p ta bad s = Inr (p', ta', left, bad', s') \<Longrightarrow>
    length (cpis s') = length (cpis s) + 2 * length it \<Longrightarrow> length it < length cs \<Longrightarrow>
    left = drop (Suc (length it)) cs \<and> bad' = bad"
proof (induction R E it cs p ta bad s rule: pay_loop.induct)
  case (1 R E cs p ta bad s)
  then show ?case by (cases cs) auto
next
  case (3 R E u it c cs p ta bad s)
  from 3(3) show ?case
  proof (cases rule: pay_loop_ConsE)
    case aside
    then show ?thesis
      using pay_loop_calls [OF aside(3)] 3(4) by simp
  next
    case stop
    then show ?thesis
      using 3(4) by simp
  next
    case (pays y s1 s2)
    then show ?thesis
      using 3(2) [OF pays(5,6) refl _ pays(7,2,3,4)] token_burn_cpis [OF pays(2)] invoke_signed_cpis [OF pays(3)] 3(4,5) by simp
  qed
qed simp

text \<open>
  C17. A creditor is struck off the list without being paid: when fewer accounts are passed than there are
  creditors and each of them is paid, the list stored afterwards misses the next creditor too. The
  administrator's client passes thirty accounts at a time, so the thirty-first creditor loses the credit.
\<close>

theorem creditor_lost:
  assumes "host_ok R pid" "process_pay_creditors R pid (fixed @ users) s = Inr s'" "length fixed = 10"
    "view pid (ai_key (hd fixed)) s = Some V" "length users < length (pv_credits V)"
    "length (cpis s') = length (cpis s) + 2 * length users"
  shows "\<exists>V'. view pid (ai_key (hd fixed)) s' = Some V' \<and> pv_credits V' = drop (Suc (length users)) (pv_credits V)"
proof -
  obtain E f' it p t left bad s1 where step: "fixed @ users = f' @ it" "length f' = 10"
    "pay_loop R E it (pv_credits V) (pv_pool V) 0 [] s = Inr (p, t, left, bad, s1)" "cpis s' = cpis s1"
    "view pid (ai_key (hd fixed)) s' = Some (V\<lparr>pv_pool := p\<lparr>stake_total := wsub64 (stake_total p) t\<rparr>, pv_credits := left @ bad\<rparr>)"
    using pay_stores [OF assms(2,1)] assms(3,4) by (cases fixed) auto
  have "it = users"
    using step(1,2) assms(3) by (simp add: append_eq_append_conv)
  then show ?thesis
    using pay_loop_all_paid [OF step(3)] step(4,5) assms(5,6) by simp
qed

lemma pay_loop_aside: "pay_loop R E it cs p ta bad s = Inr (p', ta', left, bad', s') \<Longrightarrow> length bad \<le> length bad'"
proof (induction R E it cs p ta bad s rule: pay_loop.induct)
  case (3 R E u it c cs p ta bad s)
  from 3(3) show ?case
  proof (cases rule: pay_loop_ConsE)
    case aside
    then show ?thesis
      using 3(1) [OF aside(2,1,3)] by simp
  next
    case stop
    then show ?thesis by simp
  next
    case (pays y s1 s2)
    then show ?thesis
      using 3(2) [OF pays(5,6) refl _ pays(7,2,3,4)] by simp
  qed
qed simp_all

lemma higher_price:
  fixes t1 t2 S P :: nat
  assumes "t1 < P" "P * (P - t1) \<le> t1 * t2 * S"
  shows "t2 * S div P < t2 * S div (P - t1)"
proof -
  let ?f = "t2 * S div P" and ?D = "P - t1"
  have "P * ((?f + 1) * ?D) = ?f * P * ?D + P * ?D"
    by (simp add: algebra_simps)
  also have "\<dots> \<le> t2 * S * ?D + t1 * t2 * S"
    using div_times_less_eq_dividend [of "t2 * S" P] assms(2) by (intro add_mono mult_le_mono1) simp_all
  also have "\<dots> = t2 * S * (?D + t1)"
    by (simp add: algebra_simps)
  also have "\<dots> = P * (t2 * S)"
    using assms(1) by simp
  finally have "(?f + 1) * ?D \<le> t2 * S"
    using assms(1) by simp
  then have "?f + 1 \<le> t2 * S div ?D"
    using assms(1) by (simp add: less_eq_div_iff_mult_less_eq)
  then show ?thesis by simp
qed

text \<open>
  C18. Of two creditors paid in one round the second gets more lamports than its tokens were worth when
  the round began, whenever the difference is a lamport or more: the tokens of the first are taken out of
  the pool before the second payment is priced, the lamports only after the round.
\<close>

theorem second_creditor_overpaid:
  assumes "pay_loop R E [u1, u2] [c1, c2] p 0 [] s = Inr (p', total_amount, [], [], s')" "pool_ok p"
    "token_amount c1 < pool_total p" "token_amount c2 < 2 ^ 64"
    "pool_total p * (pool_total p - token_amount c1) \<le> token_amount c1 * token_amount c2 * stake_total p"
  shows "\<exists>fair y seeds. calc_lamports_amount p (token_amount c2) = Some fair \<and> fair < y \<and>
    last (cpis s') = (Sys_transfer (ai_key (pe_reserve_info E)) (sol_target c2) y, seeds)"
proof -
  let ?p = "p\<lparr>pool_total := wsub64 (pool_total p) (token_amount c1)\<rparr>"
  obtain y1 sb where "pay_loop R E [u2] [c2] ?p (wadd64 0 y1) [] sb = Inr (p', total_amount, [], [], s')"
    using assms(1) by (cases rule: pay_loop_ConsE) (auto simp del: pay_loop.simps dest: pay_loop_aside)
  then obtain y sc where second: "calc_lamports_amount ?p (token_amount c2) = Some y"
    "invoke_signed R (Sys_transfer (ai_key (pe_reserve_info E)) (sol_target c2) y)
       [pe_system_program_info E, pe_reserve_info E, u2]
       [authority_seeds (pe_pool_info E) AUTHORITY_RESERVE (pe_reserve_bump E)] sc = Inr s'"
    by (cases rule: pay_loop_ConsE) auto
  have P: "pool_total ?p = pool_total p - token_amount c1" "stake_total ?p = stake_total p" "pool_ok ?p"
    using assms(2,3) by (auto simp: wsub64_exact pool_ok_def)
  have y: "y = token_amount c2 * stake_total p div (pool_total p - token_amount c1)" "y < 2 ^ 64"
    using second(1) calc_lamports_amount_eq [OF P(3) assms(4)] P(1,2) by (auto split: if_splits)
  let ?fair = "token_amount c2 * stake_total p div pool_total p"
  have "?fair < y"
    using higher_price [OF assms(3,5)] y(1) by simp
  moreover from this have "calc_lamports_amount p (token_amount c2) = Some ?fair"
    using y(2) assms(3) unfolding calc_lamports_amount_eq [OF assms(2,4)] by auto
  moreover have "last (cpis s') = (Sys_transfer (ai_key (pe_reserve_info E)) (sol_target c2) y,
      [authority_seeds (pe_pool_info E) AUTHORITY_RESERVE (pe_reserve_bump E)])"
    using invoke_signed_cpis [OF second(2)] by simp
  ultimately show ?thesis by blast
qed

section \<open>Delegation\<close>

text \<open>The lamports a list of calls takes out of an account.\<close>

fun taken :: "buffer \<Rightarrow> cpi \<Rightarrow> nat" where
  "taken k (Sys_transfer src dst n) = (if src = k then n else 0)"
| "taken k (Sys_create_account src dst n sz own) = (if src = k then n else 0)"
| "taken k _ = 0"

definition taken_by :: "buffer \<Rightarrow> (cpi \<times> buffer list list) list \<Rightarrow> nat" where
  "taken_by k calls = sum_list (map (taken k \<circ> fst) calls)"

lemma fund_stake_takes:
  assumes "(if new then init_stake R E v vote i b index lam s else redelegate_stake R E v vote i lam s) = Inr (v', s')"
  shows "v' = v\<lparr>vsi_balance := wadd64 (vsi_balance v) lam\<rparr> \<and>
    (\<exists>calls. cpis s' = cpis s @ calls \<and> taken_by (ai_key (de_reserve_info E)) calls = lam)"
  using assms
  by (auto simp: init_stake_def redelegate_stake_def bindP_Inr guard_Inr invoke_def taken_by_def stake_initialize_def
    delegate_stake_def dest!: invoke_signed_cpis split: if_splits)

lemma delegate_loop_unchanged:
  "delegate_loop R E ds vl ta c it s = Inr (vl', c', s') \<Longrightarrow>
    \<forall>d\<in>set ds. \<forall>v\<in>set (validators vl). dri_stake_index d < stake_count v \<Longrightarrow>
    c' = c \<and> (\<exists>calls. cpis s' = cpis s @ calls \<and> taken_by (ai_key (de_reserve_info E)) calls = sum_list (map dri_amount ds))"
proof (induction ds arbitrary: vl ta c it s)
  case Nil
  then show ?case by (simp add: taken_by_def)
next
  case (Cons d ds)
  obtain vote i it1 v b w s1 where v: "ValidatorStakeList_find vl (ai_key vote) = Some v"
    and fund: "(if ac_owner (acct i s) = system_program_id R
        then init_stake R E v vote i b (dri_stake_index d) (dri_amount d) s
        else redelegate_stake R E v vote i (dri_amount d) s) = Inr (w, s1)"
    and rest: "(if dri_stake_index d \<ge> stake_count w
       then delegate_loop R E ds (ValidatorStakeList_replace vl (ai_key vote) (w\<lparr>stake_count := wadd32 (dri_stake_index d) 1\<rparr>))
         (wadd64 ta (dri_amount d)) True it1 s1
       else delegate_loop R E ds (ValidatorStakeList_replace vl (ai_key vote) w) (wadd64 ta (dri_amount d)) c it1 s1) = Inr (vl', c', s')"
    using Cons.prems(1)
    by (clarsimp simp: next_account_info_Inr bindP_Inr guard_Inr ok_or_Inr split: option.splits)
  note w = fund_stake_takes [OF fund]
  have "v \<in> set (validators vl)"
    using v find_keyD [of validator_account "ai_key vote" "validators vl" v] by (simp add: ValidatorStakeList_find_def)
  then have "delegate_loop R E ds (ValidatorStakeList_replace vl (ai_key vote) w) (wadd64 ta (dri_amount d)) c it1 s1 = Inr (vl', c', s')"
    using rest w Cons.prems(2) by (auto split: if_splits)
  moreover have "\<forall>d\<in>set ds. \<forall>v\<in>set (validators (ValidatorStakeList_replace vl (ai_key vote) w)). dri_stake_index d < stake_count v"
    using Cons.prems(2) w \<open>v \<in> set (validators vl)\<close> set_update_first [of "\<lambda>v. validator_account v = ai_key vote" w "validators vl"]
    by (fastforce simp: ValidatorStakeList_replace_def)
  ultimately obtain calls where "c' = c" "cpis s' = cpis s1 @ calls"
      "taken_by (ai_key (de_reserve_info E)) calls = sum_list (map dri_amount ds)"
    using Cons.IH by blast
  with w show ?case
    by (auto simp: taken_by_def)
qed


section \<open>Runs of the sample\<close>

text \<open>Two creditors with 10 tokens each, in the sample's credit reserve of 30.\<close>

definition sample_creditor :: "nat \<Rightarrow> CreditRecord" where
  "sample_creditor n = \<lparr>sol_target = replicate 32 (of_nat n), crd_cancel_authority = replicate 32 50, token_amount = 10000000000\<rparr>"

definition sample_pay_env :: "nat \<Rightarrow> pay_env" where
  "sample_pay_env n =
     \<lparr>pe_pool_info = acc 10, pe_withdraw_info = info_at sample_withdraw, pe_reserve_info = info_at sample_reserve,
      pe_credit_reserve_info = acc 16, pe_pool_mint_info = acc 14, pe_system_program_info = acc 0,
      pe_token_program_info = info_at sample_token, pe_reserve_bump = 255, pe_lamports_available = n\<rparr>"

lemma token_data_fields:
  assumes "length mint = 32" "length holder = 32" "n < 2 ^ 64"
  shows "tok_amount (token_data mint holder n d) = n" "slice (token_data mint holder n d) 0 32 = mint"
    "tok_allows (token_data mint holder n d) holder"
    "overwrite (token_data mint holder n d) 64 (le_bytes 8 m) = token_data mint holder m d"
  using assms
  by (simp_all add: tok_amount_def tok_allows_def token_data_def slice_append_cases slice_all le_val_le_bytes overwrite_def
    del: le_bytes.simps)

definition reserve_with :: "nat \<Rightarrow> account" where
  "reserve_with n = \<lparr>ac_owner = sample_token, ac_lamports = 2039280, ac_data = token_data (replicate 32 14) sample_withdraw n None\<rparr>"

lemma sample_credit_burn:
  assumes "accts s (replicate 32 16) = reserve_with m" "n \<le> m" "m < 2 ^ 64"
  shows "token_burn sample_runtime k (info_at sample_token) (acc 16) (acc 14) (info_at sample_withdraw) ty b n s =
    Inr (s\<lparr>accts := (accts s)(replicate 32 16 := reserve_with (m - n)),
      cpis := cpis s @ [(Token_burn sample_token (replicate 32 16) (replicate 32 14) sample_withdraw n, [authority_seeds k ty b])]\<rparr>)"
  using assms sample_keys_mixed
  by (simp add: token_burn_def invoke_signed_def sample_runtime_def sample_invoke_def info_at_def acc_def reserve_with_def
    token_data_fields tok_put_def)

lemma sample_credit_pay:
  assumes "n \<le> ac_lamports (accts s sample_reserve)" "k \<noteq> sample_reserve"
  shows "invoke_signed sample_runtime (Sys_transfer sample_reserve k n) infos seeds s =
    Inr (s\<lparr>accts := (accts s)(sample_reserve := (accts s sample_reserve)\<lparr>ac_lamports := ac_lamports (accts s sample_reserve) - n\<rparr>,
        k := (accts s k)\<lparr>ac_lamports := ac_lamports (accts s k) + n\<rparr>),
      cpis := cpis s @ [(Sys_transfer sample_reserve k n, seeds)]\<rparr>)"
  using assms by (simp add: invoke_signed_def sample_runtime_def sample_invoke_def Let_def)

lemma sample_worth:
  "calc_lamports_amount sample_pool 10000000000 = Some 12500000000"
  "calc_lamports_amount (sample_pool\<lparr>pool_total := 70000000000\<rparr>) 10000000000 = Some 14285714285"
  "wsub64 (pool_total sample_pool) 10000000000 = 70000000000"
  by (simp_all add: calc_lamports_amount_def sample_pool_def checked_mul128_def checked_div128_def u64_try_from_def wsub64_exact)

lemma sample_starts:
  "accts sample_chain (replicate 32 16) = reserve_with 30000000000" "accts sample_chain sample_reserve = plain 60000000000"
  "accts sample_chain (replicate 32 20) = plain 5000000000" "accts sample_chain (replicate 32 22) = plain 0"
  by (simp_all add: sample_chain_def sample_accts_def reserve_with_def)

lemma sample_plain: "system_program_id sample_runtime = replicate 32 0" "ac_owner (plain n) = replicate 32 0" "ac_lamports (plain n) = n"
  by (simp_all add: sample_runtime_def plain_def)

lemmas sample_pay_simps = sample_pay_env_def sample_creditor_def acc_def [of 20] acc_def [of 22] acct_def sample_plain
  sample_worth wadd64_exact sample_credit_burn info_at_def [of sample_reserve] sample_credit_pay

lemma sample_both_paid:
  "\<exists>p t s'. pay_loop sample_runtime (sample_pay_env 59000000000) [acc 20, acc 22] [sample_creditor 20, sample_creditor 22]
     sample_pool 0 [] sample_chain = Inr (p, t, [], [], s')"
  by (simp add: sample_pay_simps sample_starts)

theorem second_creditor_overpaid_witness:
  "\<exists>p t s' y seeds. pay_loop sample_runtime (sample_pay_env 59000000000) [acc 20, acc 22] [sample_creditor 20, sample_creditor 22]
      sample_pool 0 [] sample_chain = Inr (p, t, [], [], s') \<and>
    last (cpis s') = (Sys_transfer sample_reserve (replicate 32 22) y, seeds) \<and> 12500000000 < y"
proof -
  obtain p t s' where run: "pay_loop sample_runtime (sample_pay_env 59000000000) [acc 20, acc 22]
      [sample_creditor 20, sample_creditor 22] sample_pool 0 [] sample_chain = Inr (p, t, [], [], s')"
    using sample_both_paid by blast
  from second_creditor_overpaid [OF this sample_pool_ok] obtain y seeds where "12500000000 < y"
      "last (cpis s') = (Sys_transfer sample_reserve (replicate 32 22) y, seeds)"
    using sample_worth(1) by (auto simp: sample_creditor_def sample_pay_env_def info_at_def sample_pool_def)
  then show ?thesis
    using run by blast
qed

definition sample_credit_list :: CreditList where
  "sample_credit_list = \<lparr>cl_version = 1, credits = [sample_creditor 20, sample_creditor 22]\<rparr>"

definition credited_chain :: chain where
  "credited_chain = projr (save_credits sample_credit_list (acc 13) sample_chain)"

lemma credited:
  "save_credits sample_credit_list (acc 13) sample_chain = Inr credited_chain"
  "\<exists>d. credited_chain = put_data (acc 13) d sample_chain"
  "view sample_pid (replicate 32 10) credited_chain =
     Some \<lparr>pv_pool = sample_pool, pv_validators = [], pv_credits = credits sample_credit_list\<rparr>"
proof -
  show saved: "save_credits sample_credit_list (acc 13) sample_chain = Inr credited_chain"
    by (simp add: credited_chain_def save_credits_def CreditList_serialize_def acct_def acc_def sample_chain_def sample_accts_def
      layout_sizes sample_credit_list_def)
  then obtain d where "put_data (acc 13) d sample_chain = credited_chain"
    unfolding save_credits_def bindP_Inr by blast
  then show "\<exists>d. credited_chain = put_data (acc 13) d sample_chain"
    by (intro exI [of _ d]) (rule sym)
  have "list_all credit_ok (credits sample_credit_list)" "0 < cl_version sample_credit_list" "cl_version sample_credit_list < 256"
    by (simp_all add: sample_credit_list_def sample_creditor_def credit_ok_def)
  from view_save_credits [OF sample_view saved _ this]
  show "view sample_pid (replicate 32 10) credited_chain =
      Some \<lparr>pv_pool = sample_pool, pv_validators = [], pv_credits = credits sample_credit_list\<rparr>"
    by (simp add: acc_def sample_pool_def)
qed

definition sample_pay_infos :: "AccountInfo list" where
  "sample_pay_infos = [acc 10, acc 13, info_at sample_withdraw, info_at sample_reserve, acc 16, acc 14, acc 65, acc 63, acc 0,
     info_at sample_token]"

lemma sample_first_paid:
  assumes "12500000000 \<le> n"
  shows "\<exists>p s'. pay_loop sample_runtime (sample_pay_env n) [acc 20] [sample_creditor 20, sample_creditor 22] sample_pool 0 []
     credited_chain = Inr (p, 12500000000, [], [], s') \<and> length (cpis s') = 2"
proof -
  obtain d where d: "credited_chain = put_data (acc 13) d sample_chain"
    using credited(2) by blast
  have "accts credited_chain k = accts sample_chain k" if "k \<noteq> replicate 32 13" for k
    using that by (simp add: d acc_def)
  moreover have "cpis credited_chain = []"
    by (simp add: d sample_chain_def)
  ultimately show ?thesis
    using assms by (simp add: sample_pay_simps sample_starts)
qed

lemma save_runs:
  assumes "load_credits p j s = Inr l" "load_pool pid k s = Inr p" "ac_owner (accts s (ai_key j)) = pid" "ai_key j \<noteq> ai_key k"
    "keeps pid s s1" "length (credits l') \<le> MAX_CREDIT_RECORDS"
  shows "\<exists>s2 s3. save_credits l' j s1 = Inr s2 \<and> save_pool R q k s2 = Inr s3 \<and> cpis s3 = cpis s1"
  using assms
  by (auto simp: save_credits_def CreditList_serialize_def load_credits_Inr load_pool_Inr CreditList_deserialize_def
    StakePool_deserialize_def StakePool_serialize_def save_pool_def acct_def keeps_def split: if_splits)

lemma sample_pay_run:
  "\<exists>s'. process_pay_creditors sample_runtime sample_pid (sample_pay_infos @ [acc 20]) credited_chain = Inr s' \<and> length (cpis s') = 2"
proof -
  let ?s = credited_chain
  have pool: "load_pool sample_pid (acc 10) ?s = Inr sample_pool"
    using view_pool [OF credited(3), of "acc 10"] by (simp add: acc_def)
  obtain l where l: "load_credits sample_pool (acc 13) ?s = Inr l" "credits l = [sample_creditor 20, sample_creditor 22]"
      "ac_owner (accts ?s (replicate 32 13)) = sample_pid"
    using credited(3) by (auto simp: view_Some load_key(3) [of _ "acc 13"] sample_credit_list_def)
      (simp add: sample_pool_def acc_def)
  obtain d where d: "?s = put_data (acc 13) d sample_chain"
    using credited(2) by blast
  have host: "Rent_from_account_info sample_runtime i ?s = Inr sample_rent" "Clock_from_account_info sample_runtime i ?s = Inr 10" for i
    by (simp_all add: Rent_from_account_info_def Clock_from_account_info_def sample_runtime_def)
  have fields: "pool_last_update_epoch sample_pool = 10" "token_program_id sample_pool = sample_token"
    "pool_credit_reserve sample_pool = replicate 32 16" "ai_key (acc 16) = replicate 32 16" "ai_key (acc 10) = replicate 32 10"
    "ai_key (info_at b) = b" "ai_key (acc 13) = replicate 32 13" for b
    by (simp_all add: sample_pool_def acc_def info_at_def)
  have av: "saturating_sub (ac_lamports (acct (info_at sample_reserve) ?s)) (min_reserve_balance sample_runtime sample_rent) \<ge> 12500000000"
    by (simp add: d acct_def info_at_def acc_def sample_starts sample_plain saturating_sub_def min_reserve_balance_def
      MIN_RESERVE_BALANCE_def sample_rent_def sample_runtime_def wadd64_def)
  obtain p s1 where paid: "pay_loop sample_runtime (sample_pay_env (saturating_sub (ac_lamports (acct (info_at sample_reserve) ?s))
      (min_reserve_balance sample_runtime sample_rent))) [acc 20] (credits l) sample_pool 0 [] ?s = Inr (p, 12500000000, [], [], s1)"
      "length (cpis s1) = 2"
    using sample_first_paid [OF av] l(2) by auto
  obtain s2 s3 where "save_credits (l\<lparr>credits := []\<rparr>) (acc 13) s1 = Inr s2"
      "save_pool sample_runtime (p\<lparr>stake_total := wsub64 (stake_total p) 12500000000\<rparr>) (acc 10) s2 = Inr s3" "cpis s3 = cpis s1"
    using save_runs [OF l(1) pool, of s1 "l\<lparr>credits := []\<rparr>" sample_runtime "p\<lparr>stake_total := wsub64 (stake_total p) 12500000000\<rparr>"] pay_loop_result [OF paid(1) sample_host_ok] l(3) fields(5,7) by auto
  then show ?thesis
    using paid pool l(1)
    by (simp add: process_pay_creditors_def sample_pay_infos_def host fields sample_authority sample_reserve_address
      sample_pay_env_def)
qed

theorem creditor_lost_witness:
  "\<exists>s' V'. process_pay_creditors sample_runtime sample_pid (sample_pay_infos @ [acc 20]) credited_chain = Inr s' \<and>
    length (pv_credits \<lparr>pv_pool = sample_pool, pv_validators = [], pv_credits = credits sample_credit_list\<rparr>) = 2 \<and>
    view sample_pid (replicate 32 10) s' = Some V' \<and> pv_credits V' = []"
proof -
  obtain s' where run: "process_pay_creditors sample_runtime sample_pid (sample_pay_infos @ [acc 20]) credited_chain = Inr s'"
      "length (cpis s') = 2"
    using sample_pay_run by blast
  obtain d where d: "credited_chain = put_data (acc 13) d sample_chain"
    using credited(2) by blast
  have "cpis credited_chain = []"
    by (simp add: d sample_chain_def)
  moreover have "length sample_pay_infos = 10" "ai_key (hd sample_pay_infos) = replicate 32 10"
    by (simp_all add: sample_pay_infos_def acc_def)
  ultimately show ?thesis
    using creditor_lost [OF sample_host_ok run(1), of
        "\<lparr>pv_pool = sample_pool, pv_validators = [], pv_credits = credits sample_credit_list\<rparr>"] run credited(3)
    by (auto simp: sample_credit_list_def)
qed

text \<open>The sample's owner adds 3 SOL to the second stake of its validator.\<close>

definition sample_delegate :: "AccountInfo list" where
  "sample_delegate = [acc 10, (acc 11)\<lparr>is_signer := True\<rparr>, acc 12, info_at sample_withdraw,
     info_at (sample_address [replicate 32 10, AUTHORITY_DEPOSIT]), info_at sample_reserve, acc 0, acc 62, acc 63, acc 64, acc 66,
     acc 65, acc 40, info_at (stake_at 1)]"

lemma sample_delegate_run: "\<exists>s'. process_delegate_reserve sample_runtime sample_pid
    [\<lparr>dri_amount = 3000000000, dri_stake_index = 1\<rparr>] sample_delegate staked_chain = Inr s'"
proof -
  obtain vl where vl: "load_validators sample_pool (acc 12) staked_chain = Inr vl" "validators vl = validators staked_list"
    "ValidatorStakeList_find vl (replicate 32 40) = Some (hd (validators staked_list))"
    using staked_loads .
  have "check_owner sample_pool ((acc 11)\<lparr>is_signer := True\<rparr>) = Inr ()"
    by (simp add: check_owner_def acc_def sample_pool_def)
  moreover have "Rent_from_account_info sample_runtime i staked_chain = Inr sample_rent" for i
    by (simp add: Rent_from_account_info_def sample_runtime_def)
  moreover have reserve: "ac_lamports (accts staked_chain sample_reserve) = 60000000000"
    using staked_rest(1) [of sample_reserve] stake_at_mixed by (auto simp: sample_starts sample_plain)
  moreover have "min_reserve_balance sample_runtime sample_rent = 2930160"
    by (simp add: min_reserve_balance_def MIN_RESERVE_BALANCE_def sample_rent_def sample_runtime_def wadd64_def)
  moreover have "stake_at (Suc 0) \<noteq> sample_reserve"
    using stake_at_mixed by simp
  moreover have "invoke_signed sample_runtime (delegate_stake sample_runtime a b c) infos seeds s =
      Inr (s\<lparr>cpis := cpis s @ [(delegate_stake sample_runtime a b c, seeds)]\<rparr>)" for a b c infos seeds s
    by (simp add: invoke_signed_def sample_runtime_def sample_invoke_def delegate_stake_def)
  ultimately show ?thesis
    using vl
    by (simp add: process_delegate_reserve_def sample_delegate_def staked_facts sample_authority sample_reserve_address info_at_def
      redelegate_stake_def acct_def acc_def [of 40] wadd64_exact saturating_sub_def sample_plain sample_stake_account_def sample_credit_pay)
qed


end
