(* ===== verification/Spec2Isabelle.thy ===== *)
theory Spec2Isabelle
  imports Test_Scenario UI_Markets UI_Actions UI_Providers Onchain_Accounting
begin

text \<open>
  A verification of the Tenderize stake pool: the program on chain and its two clients.

  The program. The pool issues a token against deposited SOL and delegates the SOL to validators. The
  repository holds three parts: the program on chain (\<open>program/src\<close>, Rust), the administrator's client
  (\<open>experiment\<close>, TypeScript), which creates the pool, delegates its reserve, merges and unstakes its
  stakes and pays creditors, and the web client (\<open>src\<close>, TypeScript and React), in which users deposit,
  withdraw and ask for credits. The clients talk to the program only through the bytes of instructions
  and of stored accounts, so the theorems are stated at that boundary where there is one.

  Conventions. \<open>JS_Prelude\<close> has the language: a JavaScript number is a rational rounded to 53 bits by
  \<^const>\<open>fl\<close>, and lamports are exact below \<^const>\<open>MAX_SAFE\<close>; a raised error is \<open>Inl\<close>; an async function is a state
  transformer, so its calls happen in the order of its awaits. \<open>JS_Buffer\<close> has \<open>Buffer\<close> reads and writes at
  their widths. Code outside the repository (web3.js, spl-token, buffer-layout, bn.js, serum, the USB
  transport, the wallet, argparse) is an argument of the definitions, and what a theorem needs of it is
  a named hypothesis: \<^const>\<open>wf_keys\<close>, \<^const>\<open>wf_ui\<close>, \<^const>\<open>wf_tokenlib\<close>, \<^const>\<open>rents_fixed\<close>, \<^const>\<open>online\<close>, \<^const>\<open>signs\<close> and so on. Each witness
  instantiates them (\<open>Sample_Cluster\<close> and the \<open>sample_\<close> definitions).

  The administrator's client, \<open>experiment/tenderize.ts\<close> and \<open>cli.ts\<close>.
  \<^item> \<open>Solana_Web3\<close>: keys, accounts, transactions, and the state with its log of sent transactions.
  \<^item> \<open>Tenderize_Instructions\<close>: the instruction builders.
  \<^item> \<open>Tenderize_State\<close>: \<open>readState\<close>, \<open>readValidators\<close>, \<open>readCreditors\<close>, each shown equal to the program's own decoder.
  \<^item> \<open>Tenderize_Ops\<close> and \<open>Pool_Upkeep\<close>: operations of one transaction, \<open>createStakePool\<close>, \<open>updatePool\<close>.
  \<^item> \<open>Reserve_Delegation\<close>: \<open>delegateReserveBatch\<close> spreads the reserve, and delegates no more than asked even when calls fail.
  \<^item> \<open>Stake_Merging\<close>, \<open>Unstaking\<close>: the requests pass the index guards of the program's processor, in the order sent.
  \<^item> \<open>Creditor_Payment\<close>: payments name the right accounts; the loop of \<open>payAllCreditors\<close> ends.
  \<^item> \<open>Admin_Cli\<close>: \<open>run()\<close> and its commands; \<open>ensureFunds\<close> ends where airdrops arrive.
  \<^item> \<open>Test_Scenario\<close>: \<open>tester.ts\<close> and \<open>main.ts\<close>. The set-up can be run again and sends only what is missing; the credit and its cancellation fit together.

  The program on chain, \<open>program/src\<close>. A handler is a function of the host, the accounts it is handed and the
  chain, which is a store of accounts with the log of the calls made; it returns an error or the new chain.
  The host (other programs, derived addresses, sysvars) is an argument, \<open>runtime\<close>, with \<^const>\<open>host_ok\<close> as the hypothesis.
  \<^item> \<open>Onchain_Instructions\<close>, \<open>Onchain_Layout\<close>: the decoder of \<open>instruction.rs\<close>, which reads back what the client wrote, and the stored format of \<open>state.rs\<close>.
  \<^item> \<open>Onchain_Runtime\<close>, \<open>Onchain_Pool\<close>: errors, accounts, calls, \<open>stake.rs\<close>, machine arithmetic; the price of a token, the guards, the stored lists.
  \<^item> \<open>Onchain_Admin\<close>, \<open>Onchain_Users\<close>, \<open>Onchain_Stakes\<close>, \<open>Onchain_Process\<close>: every handler of \<open>processor.rs\<close>, and the dispatch.
  \<^item> \<open>Onchain_View\<close>: the program refines a machine on the pool it stores; the stored pool keeps its invariant over every run; only the owner's instructions change what is the owner's.
  \<^item> \<open>Onchain_Exchange\<close>: the price of a token never falls by deposits and withdrawals, a round trip earns nothing, and which checks are missing.
  \<^item> \<open>Onchain_Accounting\<close>: where the books do not follow the money.
  \<^item> \<open>Onchain_Sample\<close>: a host for the witnesses.

  Client and program. \<open>Client_Program\<close> hands the administrator's instructions to the program: a deposit and a
  withdrawal that the pool can serve are served, and the stake counts the client plans with are the stored ones.

  The web client, \<open>src\<close>.
  \<^item> \<open>UI_Layout\<close>, \<open>UI_Models\<close>: field layouts, addresses, the parser of the pool account and three builders; they agree with the program's decoder and with the administrator's client.
  \<^item> \<open>Ledger_Core\<close>, \<open>Wallets\<close>: the chunked exchange with a Ledger delivers the whole payload to the device; the adapters keep their state invariant over every run.
  \<^item> \<open>UI_Tokens\<close>, \<open>UI_Utils\<close>: token accounts are read well formed; amounts, balances, the slider.
  \<^item> \<open>UI_Cache\<close>, \<open>UI_Cache_Invariants\<close>: the account cache; an invariant of every reachable cache.
  \<^item> \<open>UI_Markets\<close>: market data over the cache; the counted subscriptions refine the multiset of live ones.
  \<^item> \<open>UI_Actions\<close>: deposit, withdraw and credit, from the button to the transaction the wallet signs.
  \<^item> \<open>UI_Storage\<close>: the state kept in local storage, as JSON, survives a reload.
  \<^item> \<open>UI_Providers\<close>: the settings of the connection, the effects that listen to the cluster with their cleanups, which leave no listener behind, and the effect of the native account, which has none.

  Interfaces are locales, interpreted on the model: \<open>buffer_field\<close> and \<open>packed_array\<close> (fixed-width fields and
  arrays of them), \<open>record_codec\<close> and \<open>record_reader\<close> (stored lists), \<open>sender\<close> (operations that only append to
  the log), \<open>layout_field\<close> (the web client's fields), \<open>account_store\<close> (what the cache promises the code that fills it),
  \<open>scoped_effects\<close> (an effect and its cleanup).

  Loops. Every loop with a bound is a total function. \<open>payAllCreditors\<close> and \<open>ensureFunds\<close> may run for ever and are
  partial functions into \<open>option\<close>; that they return is a theorem. No fuel is used.

  Not modelled: what is printed or rendered; React's scheduling, of which only the order of an effect and its
  cleanup is used (a handler runs to its end before the next one); timers; number formatting; the dialog of the
  wallet provider; the activation functions of \<open>stake.rs\<close> and \<open>get_validator\<close>, which nothing calls. JSON is modelled
  on strings, the only values the page stores. \<open>NaN\<close> and infinities are no numbers here: the divisions modelled
  have a nonzero divisor, or say so.
\<close>

end
